(* ===== verification/Prelude.thy ===== *)
theory Prelude
  imports Main "HOL-Library.Word" "HOL-Library.AList" "HOL-Library.List_Lexorder"
    "HOL-Library.Char_ord" "HOL-Library.Product_Lexorder"
begin

section \<open>Shared vocabulary of the cosmosigner development\<close>

text \<open>
  The Go types every component uses and the generic facts about them. A Go \<^verbatim>\<open>string\<close> and a
  Go \<^verbatim>\<open>[]byte\<close> are both sequences of bytes and are modelled by \<^typ>\<open>string\<close> (a HOL
  \<^typ>\<open>char\<close> is one byte); a nil slice and an empty one are the same value, because the code
  only ever looks at \<^verbatim>\<open>len\<close>, \<^verbatim>\<open>bytes.Equal\<close> and \<^verbatim>\<open>omitempty\<close>. Fixed-width integers are
  words, compared through \<^const>\<open>sint\<close> where Go's type is signed. A \<^verbatim>\<open>time.Time\<close> is the
  instant it denotes, in nanoseconds since the zero value of the type.

  Errors are values of \<open>go_error\<close>: a sentinel (\<^verbatim>\<open>errors.New\<close> at package level) or a message
  with the list of the errors it wraps with \<^verbatim>\<open>%w\<close>; \<^verbatim>\<open>errors.Join\<close> is a message-less
  \<open>Errorf\<close>. Errors rendered with \<^verbatim>\<open>%v\<close> are not in that list, so \<open>errors_is\<close> sees
  exactly what Go's \<^verbatim>\<open>errors.Is\<close> sees.
\<close>

subsection \<open>Types\<close>

type_synonym bytes = string
type_synonym int64 = "64 word"
type_synonym int32 = "32 word"
type_synonym int8 = "8 word"
type_synonym byte = "8 word"
type_synonym time = int

definition zero_time :: time where
  "zero_time = 0"

text \<open>Durations are in nanoseconds.\<close>

definition second :: int where
  "second = 1000000000"

datatype sentinel =
    ErrRegression | ErrConflict | ErrNotLeader | ErrNoState
  | ErrBindingUnclaimed | ErrBindingCorrupt | ErrBindingUnreadable | ErrBindingMismatch
  | ErrBindingUnsupported
  | ErrPKCS11PINFailure
  | RaftNotLeader | RaftLeadershipLost | RaftLeadershipTransferInProgress | RaftEnqueueTimeout
  | ContextCanceled | ContextDeadlineExceeded
  | OsErrNotExist | OsErrExist
  | ErrConnectorRetired

datatype go_error = Sentinel sentinel | Errorf string "go_error list"

type_synonym 'a result = "go_error + 'a"

fun errors_is :: "go_error \<Rightarrow> sentinel \<Rightarrow> bool" where
  "errors_is (Sentinel s) t = (s = t)"
| "errors_is (Errorf m es) t = list_ex (\<lambda>e. errors_is e t) es"

definition errors_New :: "string \<Rightarrow> go_error" where
  "errors_New m = Errorf m []"

text \<open>\<^verbatim>\<open>errors.Join\<close> drops nil errors and is nil when nothing is left.\<close>

definition errors_Join :: "go_error option list \<Rightarrow> go_error option" where
  "errors_Join es =
     (case List.map_filter (\<lambda>e. e) es of [] \<Rightarrow> None | xs \<Rightarrow> Some (Errorf '''' xs))"

subsection \<open>Collections of facts\<close>

named_theorems go_simps \<open>unfolding of the small library functions of the model\<close>
named_theorems inv_intros \<open>preservation of the component invariants\<close>

subsection \<open>Errors and results\<close>

lemma errors_is_New [simp]: "\<not> errors_is (errors_New m) s"
  by (simp add: errors_New_def)

lemma set_map_filter_id: "set (List.map_filter (\<lambda>e. e) es) = {x. Some x \<in> set es}"
  by (auto simp: List.map_filter_def image_iff) (metis option.sel)

lemma errors_Join_None_iff: "errors_Join es = None \<longleftrightarrow> (\<forall>e\<in>set es. e = None)"
proof -
  have "errors_Join es = None \<longleftrightarrow> set (List.map_filter (\<lambda>e. e) es) = {}"
    by (simp add: errors_Join_def split: list.split)
  also have "\<dots> \<longleftrightarrow> (\<forall>e\<in>set es. e = None)"
    by (simp only: set_map_filter_id) (metis (no_types, lifting) empty_Collect_eq not_None_eq)
  finally show ?thesis .
qed

lemma errors_Join_Nil [simp]: "errors_Join [] = None"
  by (simp add: errors_Join_None_iff)

lemma errors_Join_is:
  assumes "errors_Join es = Some e"
  shows "errors_is e s \<longleftrightarrow> (\<exists>x. Some x \<in> set es \<and> errors_is x s)"
proof -
  from assms have "e = Errorf '''' (List.map_filter (\<lambda>e. e) es)"
    by (auto simp: errors_Join_def split: list.splits)
  then show ?thesis by (auto simp: list_ex_iff set_map_filter_id)
qed

subsection \<open>Lists and association lists\<close>

lemma map_of_update: "map_of (AList.update k v al) = (map_of al)(k \<mapsto> v)"
  by (rule update_conv')

lemma update_fresh: "k \<notin> fst ` set al \<Longrightarrow> AList.update k v al = al @ [(k, v)]"
  by (induction al) auto

lemma set_delete: "(b, j) \<in> set (AList.delete a al) \<longleftrightarrow> (b, j) \<in> set al \<and> b \<noteq> a"
  by (auto simp: AList.delete_eq)

lemma distinct_delete_keys: "distinct (map fst al) \<Longrightarrow> distinct (map fst (AList.delete a al))"
  by (induction al) (auto simp: AList.delete_eq)

lemma distinct_fst_sort_key [simp]:
  "distinct (map fst (sort_key f al)) \<longleftrightarrow> distinct (map fst al)"
  by (simp only: distinct_map distinct_sort set_sort)

lemma map_of_sort_key:
  "distinct (map fst al) \<Longrightarrow> map_of (sort_key f al) = map_of al"
  by (rule map_of_inject_set [THEN iffD2]) simp_all

lemma length_16_conv:
  assumes "length xs = 16"
  obtains a b c d e f g h i j k l m n p q where "xs = [a,b,c,d,e,f,g,h,i,j,k,l,m,n,p,q]"
proof -
  from assms show thesis
    by (auto simp: eval_nat_numeral length_Suc_conv intro: that)
qed

end
