(* ===== verification/Rfc3339.thy ===== *)
theory Rfc3339
  imports Base64
begin

section \<open>RFC 3339 timestamps (time.Time's JSON form)\<close>

text \<open>
  \<^verbatim>\<open>Time.MarshalJSON\<close> writes a UTC instant as \<^verbatim>\<open>2006-01-02T15:04:05.999999999Z\<close> and
  fails outside the years 0 to 9999; \<^verbatim>\<open>UnmarshalJSON\<close> reads strict RFC 3339, with a zone
  offset and a fraction of any length, of which nine digits count. The timestamps of the raft log
  come from CometBFT's protobuf decoder and are in UTC. An instant is a number of nanoseconds since
  January 1 of year 1.
\<close>

subsection \<open>Decimal digits\<close>

definition digit :: "nat \<Rightarrow> char" where
  "digit n = char_of (48 + n mod 10)"

definition digit_val :: "char \<Rightarrow> nat option" where
  "digit_val c = (let n = of_char c :: nat in if 48 \<le> n \<and> n \<le> 57 then Some (n - 48) else None)"

definition is_digit :: "char \<Rightarrow> bool" where
  "is_digit c \<longleftrightarrow> digit_val c \<noteq> None"

fun digits_value :: "nat \<Rightarrow> string \<Rightarrow> nat option" where
  "digits_value acc [] = Some acc"
| "digits_value acc (c # cs) =
     (case digit_val c of None \<Rightarrow> None | Some d \<Rightarrow> digits_value (10 * acc + d) cs)"

text \<open>Exactly \<open>w\<close> digits, the low ones.\<close>

fun pad_digits :: "nat \<Rightarrow> nat \<Rightarrow> string" where
  "pad_digits 0 n = []"
| "pad_digits (Suc w) n = pad_digits w (n div 10) @ [digit n]"

lemma of_char_digit: "(of_char (digit n) :: nat) = 48 + n mod 10"
proof -
  have "48 + n mod 10 < 256" using mod_less_divisor [of 10 n] by linarith
  then show ?thesis by (simp add: digit_def)
qed

lemma digit_val_digit [simp]: "digit_val (digit n) = Some (n mod 10)"
  using mod_less_divisor [of 10 n] by (simp add: digit_val_def of_char_digit Let_def)

lemma is_digit_digit [simp]: "is_digit (digit n)"
  by (simp add: is_digit_def)

lemma digit_ascii [simp]: "(of_char (digit n) :: nat) < 128"
  using mod_less_divisor [of 10 n] by (simp add: of_char_digit del: mod_less_divisor)

lemma digits_value_append:
  "digits_value acc (xs @ ys) = (case digits_value acc xs of None \<Rightarrow> None | Some a \<Rightarrow> digits_value a ys)"
  by (induction xs arbitrary: acc) (auto split: option.splits)

lemma length_pad_digits [simp]: "length (pad_digits w n) = w"
  by (induction w arbitrary: n) simp_all

lemma pad_digits_ascii [simp]: "ascii (pad_digits w n)"
  by (induction w arbitrary: n) simp_all

lemma pad_digits_all: "list_all is_digit (pad_digits w n)"
  by (induction w arbitrary: n) simp_all

lemma digits_value_pad: "digits_value acc (pad_digits w n) = Some (acc * 10 ^ w + n mod 10 ^ w)"
proof (induction w arbitrary: n)
  case (Suc w)
  have "n mod 10 ^ Suc w = 10 * (n div 10 mod 10 ^ w) + n mod 10"
    by (simp add: mod_mult2_eq)
  then show ?case by (simp add: digits_value_append Suc algebra_simps)
qed simp

subsection \<open>Civil dates\<close>

text \<open>Day 0 is January 1 of year 1; the split into 400, 100, 4 and 1 year cycles is Go's.\<close>

definition is_leap :: "int \<Rightarrow> bool" where
  "is_leap y \<longleftrightarrow> y mod 4 = 0 \<and> (y mod 100 \<noteq> 0 \<or> y mod 400 = 0)"

definition days_before_year :: "int \<Rightarrow> int" where
  "days_before_year y = (let p = y - 1 in 365 * p + p div 4 - p div 100 + p div 400)"

definition year_yday :: "int \<Rightarrow> int \<times> int" where
  "year_yday d =
     (let n400 = d div 146097; d1 = d - 146097 * n400;
          c = d1 div 36524; n100 = c - c div 4; d2 = d1 - 36524 * n100;
          n4 = d2 div 1461; d3 = d2 - 1461 * n4;
          e = d3 div 365; n1 = e - e div 4
      in (400 * n400 + 100 * n100 + 4 * n4 + n1 + 1, d3 - 365 * n1))"

fun month_lengths :: "bool \<Rightarrow> int list" where
  "month_lengths leap = [31, if leap then 29 else 28, 31, 30, 31, 30, 31, 31, 30, 31, 30, 31]"

fun split_months :: "int \<Rightarrow> int list \<Rightarrow> int \<Rightarrow> int \<times> int" where
  "split_months m [] d = (m, d)"
| "split_months m (l # ls) d = (if d < l then (m, d) else split_months (m + 1) ls (d - l))"

definition days_in :: "int \<Rightarrow> int \<Rightarrow> int" where
  "days_in y m = month_lengths (is_leap y) ! nat (m - 1)"

definition civil_of_days :: "int \<Rightarrow> int \<times> int \<times> int" where
  "civil_of_days d =
     (let (y, yd) = year_yday d; (m, md) = split_months 1 (month_lengths (is_leap y)) yd in (y, m, md + 1))"

definition days_of_civil :: "int \<Rightarrow> int \<Rightarrow> int \<Rightarrow> int" where
  "days_of_civil y m dd =
     days_before_year y + sum_list (take (nat (m - 1)) (month_lengths (is_leap y))) + dd - 1"

lemma div_cycle:
  fixes k q r :: int
  assumes "0 \<le> r" "r < k"
  shows "(k * q + r) div k = q" "(k * q + r) mod k = r"
  using assms by simp_all

lemma cycle_split:
  fixes a b c e p :: int
  assumes "p = 400 * a + 100 * b + 4 * c + e" "0 \<le> b" "b \<le> 3" "0 \<le> c" "c \<le> 24" "0 \<le> e" "e \<le> 3"
  shows "p div 400 = a" "p div 100 = 4 * a + b" "p div 4 = 100 * a + 25 * b + c"
  using assms by linarith+

lemma year_yday_cycles:
  obtains a b c e r where "d = 146097 * a + 36524 * b + 1461 * c + 365 * e + r"
    and "year_yday d = (400 * a + 100 * b + 4 * c + e + 1, r)"
    and "0 \<le> b" "b \<le> 3" "0 \<le> c" "c \<le> 24" "0 \<le> e" "e \<le> 3" "0 \<le> r" "r \<le> 365"
    and "r = 365 \<longrightarrow> e = 3 \<and> (c < 24 \<or> b = 3)"
proof -
  define a where "a = d div 146097"
  define d1 where "d1 = d - 146097 * a"
  define cc where "cc = d1 div 36524"
  define b where "b = cc - cc div 4"
  define d2 where "d2 = d1 - 36524 * b"
  define c where "c = d2 div 1461"
  define d3 where "d3 = d2 - 1461 * c"
  define ee where "ee = d3 div 365"
  define e where "e = ee - ee div 4"
  have d1: "0 \<le> d1" "d1 < 146097" unfolding d1_def a_def by (simp_all add: minus_mult_div_eq_mod)
  then have cc: "0 \<le> cc" "cc \<le> 4" "cc = 4 \<longrightarrow> d1 = 146096" unfolding cc_def by linarith+
  then have b: "0 \<le> b" "b \<le> 3" unfolding b_def by linarith+
  have cc1: "36524 * cc \<le> d1" "d1 < 36524 * cc + 36524" unfolding cc_def by linarith+
  have d2: "0 \<le> d2" "d2 \<le> 36524" "d2 = 36524 \<longrightarrow> b = 3"
    using cc cc1 b by (cases "cc = 4"; simp add: d2_def b_def; linarith)+
  then have c: "0 \<le> c" "c \<le> 24" "1461 * c \<le> d2" "d2 < 1461 * c + 1461" unfolding c_def by linarith+
  have d3: "0 \<le> d3" "d3 < 1461" using c unfolding d3_def by linarith+
  then have ee: "0 \<le> ee" "ee \<le> 4" "365 * ee \<le> d3" "d3 < 365 * ee + 365" unfolding ee_def by linarith+
  have e: "0 \<le> e" "e \<le> 3" using ee unfolding e_def by linarith+
  have r: "0 \<le> d3 - 365 * e" "d3 - 365 * e \<le> 365" "d3 - 365 * e = 365 \<longrightarrow> ee = 4 \<and> e = 3 \<and> d3 = 1460"
    using ee d3 by (cases "ee = 4"; simp add: e_def; linarith)+
  show thesis
  proof (rule that [of a b c e "d3 - 365 * e"])
    show "d = 146097 * a + 36524 * b + 1461 * c + 365 * e + (d3 - 365 * e)"
      by (simp add: d1_def d2_def d3_def)
    show "year_yday d = (400 * a + 100 * b + 4 * c + e + 1, d3 - 365 * e)"
      by (simp add: year_yday_def Let_def a_def b_def c_def e_def d1_def d2_def d3_def cc_def ee_def)
    show "d3 - 365 * e = 365 \<longrightarrow> e = 3 \<and> (c < 24 \<or> b = 3)"
      using r(3) c d2 unfolding d3_def by linarith
  qed (use b c e r in simp_all)
qed

lemma year_yday_spec:
  assumes "year_yday d = (y, r)"
  shows "d = days_before_year y + r" "0 \<le> r" "r < (if is_leap y then 366 else 365)"
proof -
  obtain a b c e r' where q': "d = 146097 * a + 36524 * b + 1461 * c + 365 * e + r'"
    "year_yday d = (400 * a + 100 * b + 4 * c + e + 1, r')"
    "0 \<le> b" "b \<le> 3" "0 \<le> c" "c \<le> 24" "0 \<le> e" "e \<le> 3" "0 \<le> r'" "r' \<le> 365"
    "r' = 365 \<longrightarrow> e = 3 \<and> (c < 24 \<or> b = 3)"
    by (rule year_yday_cycles [of d]) (rule that)
  from assms q'(2) have "r' = r" and y: "y = 400 * a + 100 * b + 4 * c + e + 1" by simp_all
  note q = q'(1) [unfolded \<open>r' = r\<close>] y q'(3-) [unfolded \<open>r' = r\<close>]
  have "y - 1 = 400 * a + 100 * b + 4 * c + e" using q by simp
  note s = cycle_split [OF this q(3-8)]
  show "d = days_before_year y + r" using q(1,2) s by (simp add: days_before_year_def Let_def)
  show "0 \<le> r" by fact
  have "is_leap y" if "r = 365"
  proof -
    from q(11) that have e: "e = 3" "c < 24 \<or> b = 3" by simp_all
    then have "y mod 4 = 0" using q(2) by presburger
    moreover have "y mod 100 \<noteq> 0 \<or> y mod 400 = 0"
    proof (cases "c < 24")
      case True
      then have "y = 100 * (4 * a + b) + (4 * c + 4)" "0 \<le> 4 * c + 4" "4 * c + 4 < 100" using q e by simp_all
      then have "y mod 100 = 4 * c + 4" using div_cycle(2) by metis
      then show ?thesis using q(5) by simp
    next
      case False
      then have "y = 400 * (a + 1)" using q e by simp
      then show ?thesis by simp
    qed
    ultimately show ?thesis by (simp add: is_leap_def)
  qed
  then show "r < (if is_leap y then 366 else 365)" using q(10) by (cases "r = 365") auto
qed

lemma split_months_sum:
  "0 \<le> d \<Longrightarrow> d < sum_list ls \<Longrightarrow> split_months m ls d = (m', d') \<Longrightarrow>
   m \<le> m' \<and> nat (m' - m) < length ls \<and> d = sum_list (take (nat (m' - m)) ls) + d' \<and>
   0 \<le> d' \<and> d' < ls ! nat (m' - m)"
proof (induction m ls d rule: split_months.induct)
  case (2 m l ls d)
  show ?case
  proof (cases "d < l")
    case True
    with 2 show ?thesis by simp
  next
    case False
    with 2 have ih: "m + 1 \<le> m' \<and> nat (m' - (m + 1)) < length ls \<and>
      d - l = sum_list (take (nat (m' - (m + 1))) ls) + d' \<and> 0 \<le> d' \<and> d' < ls ! nat (m' - (m + 1))"
      by simp
    then have "nat (m' - m) = Suc (nat (m' - (m + 1)))" by linarith
    with ih show ?thesis by simp
  qed
qed simp

lemma civil_of_days_spec:
  assumes "civil_of_days d = (y, m, dd)"
  shows "days_of_civil y m dd = d" "1 \<le> m" "m \<le> 12" "1 \<le> dd" "dd \<le> days_in y m"
    "days_before_year y \<le> d" "d < days_before_year y + 366"
proof -
  obtain r where r: "year_yday d = (y, r)" "split_months 1 (month_lengths (is_leap y)) r = (m, dd - 1)"
    using assms by (auto simp: civil_of_days_def Let_def split: prod.splits)
  note y = year_yday_spec [OF r(1)]
  have "r < sum_list (month_lengths (is_leap y))" using y(3) by (simp split: if_splits)
  note s = split_months_sum [OF y(2) this r(2)]
  then have len: "nat (m - 1) < 12" by simp
  show "days_of_civil y m dd = d" using y s unfolding days_of_civil_def by linarith
  show "1 \<le> m" "1 \<le> dd" "dd \<le> days_in y m" using s unfolding days_in_def by linarith+
  show "m \<le> 12" using len by linarith
  show "days_before_year y \<le> d" "d < days_before_year y + 366" using y by (auto split: if_splits)
qed

subsection \<open>Formatting and parsing\<close>

definition trim_zeros :: "string \<Rightarrow> string" where
  "trim_zeros s = rev (dropWhile (\<lambda>c. c = CHR ''0'') (rev s))"

definition format_frac :: "nat \<Rightarrow> string" where
  "format_frac ns = (if ns = 0 then [] else CHR ''.'' # trim_zeros (pad_digits 9 ns))"

definition format_rfc3339 :: "time \<Rightarrow> string option" where
  "format_rfc3339 t =
     (let secs = t div 1000000000; ns = nat (t mod 1000000000);
          sod = nat (secs mod 86400); (y, m, dd) = civil_of_days (secs div 86400)
      in if y < 0 \<or> 10000 \<le> y then None
         else Some (pad_digits 4 (nat y) @ ''-'' @ pad_digits 2 (nat m) @ ''-'' @ pad_digits 2 (nat dd) @ ''T'' @
           pad_digits 2 (sod div 3600) @ '':'' @ pad_digits 2 (sod mod 3600 div 60) @ '':'' @
           pad_digits 2 (sod mod 60) @ format_frac ns @ ''Z''))"

definition parse_uint :: "string \<Rightarrow> int \<Rightarrow> int \<Rightarrow> int option" where
  "parse_uint s lo hi =
     (case digits_value 0 s of
        None \<Rightarrow> None
      | Some n \<Rightarrow> if lo \<le> int n \<and> int n \<le> hi then Some (int n) else None)"

text \<open>Nanoseconds and what follows them.\<close>

definition parse_frac :: "string \<Rightarrow> int \<times> string" where
  "parse_frac s =
     (case s of
        c # cs \<Rightarrow>
          (let ds = takeWhile is_digit cs in
           if c = CHR ''.'' \<and> ds \<noteq> []
           then (int (the (digits_value 0 (take 9 ds))) * 10 ^ (9 - length ds), drop (length ds) cs)
           else (0, s))
      | [] \<Rightarrow> (0, s))"

definition parse_zone :: "string \<Rightarrow> int option" where
  "parse_zone s =
     (if s = ''Z'' then Some 0
      else if length s = 6 \<and> s ! 0 \<in> set ''+-'' \<and> s ! 3 = CHR '':'' then
        (case (parse_uint (take 2 (drop 1 s)) 0 23, parse_uint (drop 4 s) 0 59) of
           (Some h, Some m) \<Rightarrow> Some ((if s ! 0 = CHR ''-'' then -1 else 1) * (h * 3600 + m * 60))
         | _ \<Rightarrow> None)
      else None)"

definition parse_date :: "string \<Rightarrow> int option" where
  "parse_date s =
     (if length s = 10 \<and> s ! 4 = CHR ''-'' \<and> s ! 7 = CHR ''-'' then
        (case (parse_uint (take 4 s) 0 9999, parse_uint (take 2 (drop 5 s)) 1 12) of
           (Some y, Some m) \<Rightarrow>
             map_option (days_of_civil y m) (parse_uint (drop 8 s) 1 (days_in y m))
         | _ \<Rightarrow> None)
      else None)"

definition parse_clock :: "string \<Rightarrow> int option" where
  "parse_clock s =
     (if length s = 8 \<and> s ! 2 = CHR '':'' \<and> s ! 5 = CHR '':'' then
        (case (parse_uint (take 2 s) 0 23, parse_uint (take 2 (drop 3 s)) 0 59, parse_uint (drop 6 s) 0 59) of
           (Some h, Some m, Some x) \<Rightarrow> Some (h * 3600 + m * 60 + x)
         | _ \<Rightarrow> None)
      else None)"

definition parse_rfc3339 :: "string \<Rightarrow> time option" where
  "parse_rfc3339 s =
     (if length s < 19 \<or> s ! 10 \<noteq> CHR ''T'' then None
      else (case (parse_date (take 10 s), parse_clock (take 8 (drop 11 s)), parse_frac (drop 19 s)) of
          (Some d, Some sod, (ns, rest)) \<Rightarrow>
            map_option (\<lambda>off. (d * 86400 + sod - off) * 1000000000 + ns) (parse_zone rest)
        | _ \<Rightarrow> None))"

lemma parse_uint_pad: "n < 10 ^ w \<Longrightarrow> lo \<le> int n \<Longrightarrow> int n \<le> hi \<Longrightarrow> parse_uint (pad_digits w n) lo hi = Some (int n)"
  by (simp add: parse_uint_def digits_value_pad)

lemma trim_zeros_split: "s = trim_zeros s @ replicate (length s - length (trim_zeros s)) (CHR ''0'')"
proof -
  let ?z = "takeWhile (\<lambda>c. c = CHR ''0'') (rev s)"
  have s: "s = trim_zeros s @ rev ?z"
    using takeWhile_dropWhile_id [of "\<lambda>c. c = CHR ''0''" "rev s"] unfolding trim_zeros_def
    by (metis rev_append rev_rev_ident)
  have "rev ?z = replicate (length ?z) (CHR ''0'')"
    by (rule replicate_eqI) (auto dest: set_takeWhileD)
  moreover from s have "length s = length (trim_zeros s) + length ?z"
    by (metis length_append length_rev)
  ultimately show ?thesis using s by simp
qed

lemma digits_value_zeros: "digits_value acc (replicate k (CHR ''0'')) = Some (acc * 10 ^ k)"
  by (induction k arbitrary: acc) (simp_all add: digit_val_def)

lemma trim_zeros_value:
  assumes "digits_value 0 s = Some n"
  shows "\<exists>v. digits_value 0 (trim_zeros s) = Some v \<and> v * 10 ^ (length s - length (trim_zeros s)) = n"
proof -
  have "digits_value 0 (trim_zeros s @ replicate (length s - length (trim_zeros s)) (CHR ''0'')) = Some n"
    using assms trim_zeros_split [of s] by simp
  then show ?thesis by (auto simp: digits_value_append digits_value_zeros split: option.splits)
qed

lemma trim_zeros_props:
  assumes "list_all is_digit s"
  shows "list_all is_digit (trim_zeros s)" "length (trim_zeros s) \<le> length s"
    "ascii s \<Longrightarrow> ascii (trim_zeros s)"
proof -
  have "list_all is_digit (trim_zeros s @ replicate (length s - length (trim_zeros s)) (CHR ''0''))"
    using assms trim_zeros_split [of s] by simp
  then show "list_all is_digit (trim_zeros s)" by simp
  show "length (trim_zeros s) \<le> length s"
    unfolding trim_zeros_def using length_dropWhile_le [of _ "rev s"] by simp
  assume "ascii s"
  then have "ascii (trim_zeros s @ replicate (length s - length (trim_zeros s)) (CHR ''0''))"
    using trim_zeros_split [of s] by simp
  then show "ascii (trim_zeros s)" by simp
qed

lemma takeWhile_digits: "list_all is_digit ds \<Longrightarrow> takeWhile is_digit (ds @ CHR ''Z'' # r) = ds"
  by (induction ds) (simp_all add: is_digit_def digit_val_def)

lemma parse_format_frac:
  assumes "ns < 10 ^ 9"
  shows "parse_frac (format_frac ns @ ''Z'') = (int ns, ''Z'')"
proof (cases "ns = 0")
  case False
  let ?p = "pad_digits 9 ns" let ?ds = "trim_zeros ?p"
  have v: "digits_value 0 ?p = Some ns" using assms by (simp add: digits_value_pad)
  obtain v where v': "digits_value 0 ?ds = Some v" "v * 10 ^ (9 - length ?ds) = ns"
    using trim_zeros_value [OF v] by auto
  then have "?ds \<noteq> []" using False by auto
  moreover have "take 9 ?ds = ?ds" using trim_zeros_props(2) [OF pad_digits_all, of 9 ns] by simp
  moreover have "int v * 10 ^ (9 - length ?ds) = int ns" using v'(2) by (metis of_nat_mult of_nat_numeral of_nat_power)
  ultimately show ?thesis using False v'
    by (simp add: parse_frac_def format_frac_def Let_def takeWhile_digits [OF trim_zeros_props(1) [OF pad_digits_all]])
qed (simp add: parse_frac_def format_frac_def is_digit_def digit_val_def)

lemma parse_format_date:
  assumes "civil_of_days d = (y, m, dd)" "0 \<le> y" "y < 10000"
  shows "parse_date (pad_digits 4 (nat y) @ ''-'' @ pad_digits 2 (nat m) @ ''-'' @ pad_digits 2 (nat dd)) = Some d"
proof -
  note c = civil_of_days_spec [OF assms(1)]
  have "nat (m - 1) < 12" using c by linarith
  then have "days_in y m \<in> set (month_lengths (is_leap y))" unfolding days_in_def by (intro nth_mem) simp
  then have "days_in y m \<le> 31" by auto
  then have "parse_uint (pad_digits 4 (nat y)) 0 9999 = Some y" "parse_uint (pad_digits 2 (nat m)) 1 12 = Some m"
    "parse_uint (pad_digits 2 (nat dd)) 1 (days_in y m) = Some dd"
    using assms c by (simp_all add: parse_uint_pad)
  then show ?thesis using c(1) by (simp add: parse_date_def nth_append)
qed

lemma parse_format_clock:
  assumes "sod < 86400"
  shows "parse_clock (pad_digits 2 (sod div 3600) @ '':'' @ pad_digits 2 (sod mod 3600 div 60) @ '':'' @
    pad_digits 2 (sod mod 60)) = Some (int sod)"
proof -
  define h where "h = sod div 3600"
  define r where "r = sod mod 3600"
  have hr: "sod = 3600 * h + r" "r < 3600" by (simp_all add: h_def r_def)
  then have m60: "sod mod 60 = r mod 60" by (simp add: mod_mult_left_eq [symmetric] flip: mod_add_left_eq)
  have b: "h \<le> 23" "r div 60 \<le> 59" "r mod 60 \<le> 59" using hr assms by auto
  have "int h * 3600 + int (r div 60) * 60 + int (r mod 60) = int sod"
    using hr(1) div_mult_mod_eq [of r 60] by linarith
  then show ?thesis
    using b by (simp add: parse_clock_def nth_append parse_uint_pad flip: h_def r_def) (simp add: m60 parse_uint_pad)
qed

theorem parse_format_rfc3339:
  assumes "format_rfc3339 t = Some s"
  shows "parse_rfc3339 s = Some t" "ascii s"
proof -
  define secs where "secs = t div 1000000000"
  define ns where "ns = nat (t mod 1000000000)"
  define sod where "sod = nat (secs mod 86400)"
  obtain y m dd where civ: "civil_of_days (secs div 86400) = (y, m, dd)" by (cases "civil_of_days (secs div 86400)")
  let ?date = "pad_digits 4 (nat y) @ ''-'' @ pad_digits 2 (nat m) @ ''-'' @ pad_digits 2 (nat dd)"
  let ?clock = "pad_digits 2 (sod div 3600) @ '':'' @ pad_digits 2 (sod mod 3600 div 60) @ '':'' @ pad_digits 2 (sod mod 60)"
  from assms have y: "0 \<le> y" "y < 10000" and s: "s = ?date @ ''T'' @ ?clock @ format_frac ns @ ''Z''"
    by (simp_all add: format_rfc3339_def Let_def civ flip: secs_def ns_def sod_def split: if_splits)
  have len: "length ?date = 10" "length ?clock = 8" by simp_all
  have "take 10 s = ?date" "s ! 10 = CHR ''T''" "take 8 (drop 11 s) = ?clock" "drop 19 s = format_frac ns @ ''Z''"
    "\<not> length s < 19"
    unfolding s using len by (simp_all add: nth_append)
  moreover have "parse_date ?date = Some (secs div 86400)" by (rule parse_format_date [OF civ y])
  moreover have "parse_clock ?clock = Some (int sod)" by (rule parse_format_clock) (simp add: sod_def nat_less_iff)
  moreover have "parse_frac (format_frac ns @ ''Z'') = (int ns, ''Z'')"
    by (rule parse_format_frac) (simp add: ns_def nat_less_iff)
  ultimately have "parse_rfc3339 s = Some ((secs div 86400 * 86400 + int sod) * 1000000000 + int ns)"
    by (simp add: parse_rfc3339_def parse_zone_def)
  also have "(secs div 86400 * 86400 + int sod) * 1000000000 + int ns = t"
    by (simp add: sod_def secs_def ns_def)
  finally show "parse_rfc3339 s = Some t" .
  show "ascii s" unfolding s
    by (simp add: format_frac_def trim_zeros_props(3) [OF pad_digits_all])
qed

end
