(* ===== verification/JsonText.thy ===== *)
theory JsonText
  imports Rfc3339
begin

section \<open>JSON text (encoding/json)\<close>

text \<open>
  A JSON document as a tree, the bytes \<^verbatim>\<open>json.Marshal\<close> writes for it and the parser behind
  \<^verbatim>\<open>json.Unmarshal\<close>. The printer is Go's: no spaces, HTML-sensitive characters and control
  characters escaped, invalid UTF-8 replaced. The parser accepts the whole grammar: white space,
  escapes, surrogate pairs, invalid UTF-8 (replaced by U+FFFD), fractions and exponents (kept as
  literals, since no field of the program is a float), and rejects a nesting depth above 10000.
  Its recursion runs on fuel; every call consumes a character of the input, so the input's length
  plus one is enough. The round trip is proved for documents whose strings are ASCII.
\<close>

subsection \<open>Documents\<close>

datatype json = JNull | JBool bool | JInt int | JFloat string | JStr string
  | JArr "json list" | JObj "(string \<times> json) list"

fun json_ascii :: "json \<Rightarrow> bool" where
  "json_ascii (JStr s) = ascii s"
| "json_ascii (JFloat s) = False"
| "json_ascii (JArr js) = list_all json_ascii js"
| "json_ascii (JObj kvs) = list_all (\<lambda>kv. ascii (fst kv) \<and> json_ascii (snd kv)) kvs"
| "json_ascii _ = True"

fun json_depth :: "json \<Rightarrow> nat" where
  "json_depth (JArr js) = Suc (foldr (\<lambda>j. max (json_depth j)) js 0)"
| "json_depth (JObj kvs) = Suc (foldr (\<lambda>kv. max (json_depth (snd kv))) kvs 0)"
| "json_depth _ = 0"

subsection \<open>UTF-8\<close>

definition in_range :: "nat \<Rightarrow> nat \<Rightarrow> char \<Rightarrow> bool" where
  "in_range lo hi c \<longleftrightarrow> lo \<le> of_char c \<and> (of_char c :: nat) \<le> hi"

text \<open>The length of the multi-byte sequence at the head, 0 if it is not valid UTF-8.\<close>

definition utf8_len :: "string \<Rightarrow> nat" where
  "utf8_len s =
     (case s of
        a # b # rest \<Rightarrow>
          if in_range 0xC2 0xDF a then (if in_range 0x80 0xBF b then 2 else 0)
          else (case rest of
              [] \<Rightarrow> 0
            | c # rest2 \<Rightarrow>
                if in_range 0xE0 0xEF a then
                  (if in_range (if a = CHR 0xE0 then 0xA0 else 0x80) (if a = CHR 0xED then 0x9F else 0xBF) b
                      \<and> in_range 0x80 0xBF c then 3 else 0)
                else if in_range 0xF0 0xF4 a then
                  (case rest2 of
                     [] \<Rightarrow> 0
                   | d # _ \<Rightarrow>
                       if in_range (if a = CHR 0xF0 then 0x90 else 0x80) (if a = CHR 0xF4 then 0x8F else 0xBF) b
                          \<and> in_range 0x80 0xBF c \<and> in_range 0x80 0xBF d then 4 else 0)
                else 0)
      | _ \<Rightarrow> 0)"

definition replacement :: string where
  "replacement = [CHR 0xEF, CHR 0xBF, CHR 0xBD]"

definition utf8_encode :: "nat \<Rightarrow> string" where
  "utf8_encode r =
     (if r < 0x80 then [char_of r]
      else if r < 0x800 then [char_of (0xC0 + r div 64), char_of (0x80 + r mod 64)]
      else if r < 0x10000 then
        [char_of (0xE0 + r div 4096), char_of (0x80 + r div 64 mod 64), char_of (0x80 + r mod 64)]
      else [char_of (0xF0 + r div 262144), char_of (0x80 + r div 4096 mod 64),
            char_of (0x80 + r div 64 mod 64), char_of (0x80 + r mod 64)])"

subsection \<open>Printing\<close>

definition hex_nat :: "nat \<Rightarrow> char" where
  "hex_nat n = ''0123456789abcdef'' ! (n mod 16)"

definition esc_ascii :: "char \<Rightarrow> string" where
  "esc_ascii c =
     (if c = CHR 0x22 \<or> c = CHR 0x5C then [CHR 0x5C, c]
      else if c = CHR 0x08 then [CHR 0x5C, CHR ''b'']
      else if c = CHR 0x0C then [CHR 0x5C, CHR ''f'']
      else if c = CHR 0x0A then [CHR 0x5C, CHR ''n'']
      else if c = CHR 0x0D then [CHR 0x5C, CHR ''r'']
      else if c = CHR 0x09 then [CHR 0x5C, CHR ''t'']
      else if (of_char c :: nat) < 32 \<or> c \<in> set ''<>&''
      then [CHR 0x5C, CHR ''u'', CHR ''0'', CHR ''0'', hex_nat (of_char c div 16), hex_nat (of_char c)]
      else [c])"

function esc_string :: "string \<Rightarrow> string" where
  "esc_string [] = []"
| "esc_string (c # s) =
     (if (of_char c :: nat) < 128 then esc_ascii c @ esc_string s
      else if utf8_len (c # s) = 0 then CHR 0x5C # ''ufffd'' @ esc_string s
      else (let q = take (utf8_len (c # s)) (c # s) in
            if q = [CHR 0xE2, CHR 0x80, CHR 0xA8] then CHR 0x5C # ''u2028''
            else if q = [CHR 0xE2, CHR 0x80, CHR 0xA9] then CHR 0x5C # ''u2029'' else q)
           @ esc_string (drop (utf8_len (c # s) - 1) s))"
  by pat_completeness auto
termination by (relation "measure length") auto

definition print_string :: "string \<Rightarrow> string" where
  "print_string s = CHR 0x22 # esc_string s @ [CHR 0x22]"

fun nat_str :: "nat \<Rightarrow> string" where
  "nat_str n = (if n < 10 then [digit n] else nat_str (n div 10) @ [digit n])"

definition int_str :: "int \<Rightarrow> string" where
  "int_str i = (if i < 0 then CHR ''-'' # nat_str (nat (- i)) else nat_str (nat i))"

fun join_comma :: "string list \<Rightarrow> string" where
  "join_comma [] = []"
| "join_comma [x] = x"
| "join_comma (x # y # ys) = x @ CHR '','' # join_comma (y # ys)"

fun json_marshal :: "json \<Rightarrow> string" where
  "json_marshal JNull = ''null''"
| "json_marshal (JBool b) = (if b then ''true'' else ''false'')"
| "json_marshal (JInt i) = int_str i"
| "json_marshal (JFloat s) = s"
| "json_marshal (JStr s) = print_string s"
| "json_marshal (JArr js) = CHR ''['' # join_comma (map json_marshal js) @ '']''"
| "json_marshal (JObj kvs) =
     CHR ''{'' # join_comma (map (\<lambda>kv. print_string (fst kv) @ CHR '':'' # json_marshal (snd kv)) kvs) @ ''}''"

subsection \<open>Parsing\<close>

fun skip_ws :: "string \<Rightarrow> string" where
  "skip_ws [] = []"
| "skip_ws (c # s) = (if c \<in> {CHR 0x20, CHR 0x09, CHR 0x0A, CHR 0x0D} then skip_ws s else c # s)"

definition hex_val :: "char \<Rightarrow> nat option" where
  "hex_val c =
     (let n = of_char c :: nat in
      if 48 \<le> n \<and> n \<le> 57 then Some (n - 48)
      else if 97 \<le> n \<and> n \<le> 102 then Some (n - 87)
      else if 65 \<le> n \<and> n \<le> 70 then Some (n - 55) else None)"

definition hex4 :: "string \<Rightarrow> nat option" where
  "hex4 s =
     (case s of
        a # b # c # d # _ \<Rightarrow>
          (case (hex_val a, hex_val b, hex_val c, hex_val d) of
             (Some w, Some x, Some y, Some z) \<Rightarrow> Some (4096 * w + 256 * x + 16 * y + z)
           | _ \<Rightarrow> None)
      | _ \<Rightarrow> None)"

definition simple_escapes :: "(char \<times> char) list" where
  "simple_escapes = [(CHR 0x22, CHR 0x22), (CHR 0x5C, CHR 0x5C), (CHR ''/'', CHR ''/''), (CHR ''b'', CHR 0x08),
     (CHR ''f'', CHR 0x0C), (CHR ''n'', CHR 0x0A), (CHR ''r'', CHR 0x0D), (CHR ''t'', CHR 0x09)]"

text \<open>The text after a backslash: the bytes it denotes and what follows.\<close>

definition unescape_unit :: "nat \<Rightarrow> string \<Rightarrow> string \<times> string" where
  "unescape_unit r rest =
     (if r < 0xD800 \<or> 0xE000 \<le> r then (utf8_encode r, rest)
      else (case hex4 (drop 2 rest) of
          None \<Rightarrow> (replacement, rest)
        | Some r2 \<Rightarrow>
            if r < 0xDC00 \<and> take 2 rest = [CHR 0x5C, CHR ''u''] \<and> 0xDC00 \<le> r2 \<and> r2 < 0xE000
            then (utf8_encode (0x10000 + (r - 0xD800) * 0x400 + (r2 - 0xDC00)), drop 6 rest)
            else (replacement, rest)))"

definition unescape :: "string \<Rightarrow> (string \<times> string) option" where
  "unescape s =
     (case s of
        [] \<Rightarrow> None
      | e # t \<Rightarrow>
          if e = CHR ''u'' then map_option (\<lambda>r. unescape_unit r (drop 4 t)) (hex4 t)
          else map_option (\<lambda>c. ([c], t)) (map_of simple_escapes e))"

lemma unescape_shorter: "unescape s = Some (b, t) \<Longrightarrow> length t < length s"
  by (auto simp: unescape_def unescape_unit_def split: list.splits if_splits option.splits)

function parse_chars :: "string \<Rightarrow> (string \<times> string) option" where
  "parse_chars [] = None"
| "parse_chars (c # s) =
     (if c = CHR 0x22 then Some ([], s)
      else if c = CHR 0x5C then
        (case unescape s of
           None \<Rightarrow> None
         | Some (b, t) \<Rightarrow> map_option (\<lambda>(x, r). (b @ x, r)) (parse_chars t))
      else if (of_char c :: nat) < 32 then None
      else if (of_char c :: nat) < 128 then map_option (\<lambda>(x, r). (c # x, r)) (parse_chars s)
      else if utf8_len (c # s) = 0 then map_option (\<lambda>(x, r). (replacement @ x, r)) (parse_chars s)
      else map_option (\<lambda>(x, r). (take (utf8_len (c # s)) (c # s) @ x, r))
             (parse_chars (drop (utf8_len (c # s) - 1) s)))"
  by pat_completeness auto
termination by (relation "measure length") (auto dest: unescape_shorter)

definition take_digits :: "string \<Rightarrow> string \<times> string" where
  "take_digits s = (takeWhile is_digit s, dropWhile is_digit s)"

text \<open>An optional fraction and an optional exponent: their text and what follows.\<close>

definition parse_fraction :: "string \<Rightarrow> (string \<times> string) option" where
  "parse_fraction s =
     (case s of
        c # t \<Rightarrow>
          if c = CHR ''.'' then (let (ds, r) = take_digits t in if ds = [] then None else Some (c # ds, r))
          else Some ([], s)
      | [] \<Rightarrow> Some ([], s))"

definition parse_exponent :: "string \<Rightarrow> (string \<times> string) option" where
  "parse_exponent s =
     (case s of
        c # t \<Rightarrow>
          if c \<in> set ''eE'' then
            (let (sg, t') = (case t of x # y \<Rightarrow> if x \<in> set ''+-'' then ([x], y) else ([], t) | [] \<Rightarrow> ([], t));
                 (ds, r) = take_digits t'
             in if ds = [] then None else Some (c # sg @ ds, r))
          else Some ([], s)
      | [] \<Rightarrow> Some ([], s))"

definition parse_number :: "string \<Rightarrow> (json \<times> string) option" where
  "parse_number s =
     (let neg = (case s of c # _ \<Rightarrow> c = CHR ''-'' | [] \<Rightarrow> False);
          (ds, r) = take_digits (if neg then tl s else s)
      in if ds = [] \<or> hd ds = CHR ''0'' \<and> tl ds \<noteq> [] then None
         else (case parse_fraction r of
             None \<Rightarrow> None
           | Some (fs, r1) \<Rightarrow> (case parse_exponent r1 of
               None \<Rightarrow> None
             | Some (es, r2) \<Rightarrow>
                 if fs = [] \<and> es = []
                 then (let n = int (the (digits_value 0 ds)) in Some (JInt (if neg then - n else n), r2))
                 else Some (JFloat ((if neg then ''-'' else []) @ ds @ fs @ es), r2))))"

definition starts :: "string \<Rightarrow> string \<Rightarrow> bool" where
  "starts p s \<longleftrightarrow> take (length p) s = p"

fun parse_value :: "nat \<Rightarrow> string \<Rightarrow> (json \<times> string) option"
  and parse_elems :: "nat \<Rightarrow> string \<Rightarrow> (json list \<times> string) option"
  and parse_members :: "nat \<Rightarrow> string \<Rightarrow> ((string \<times> json) list \<times> string) option" where
  "parse_value 0 s = None"
| "parse_value (Suc f) s =
     (case skip_ws s of
        [] \<Rightarrow> None
      | c # t \<Rightarrow>
          if c = CHR ''{'' then
            (case skip_ws t of
               [] \<Rightarrow> None
             | d # u \<Rightarrow> if d = CHR ''}'' then Some (JObj [], u)
                       else map_option (\<lambda>(kvs, r). (JObj kvs, r)) (parse_members f (d # u)))
          else if c = CHR ''['' then
            (case skip_ws t of
               [] \<Rightarrow> None
             | d # u \<Rightarrow> if d = CHR '']'' then Some (JArr [], u)
                       else map_option (\<lambda>(js, r). (JArr js, r)) (parse_elems f (d # u)))
          else if c = CHR 0x22 then map_option (\<lambda>(x, r). (JStr x, r)) (parse_chars t)
          else if starts ''null'' (c # t) then Some (JNull, drop 3 t)
          else if starts ''true'' (c # t) then Some (JBool True, drop 3 t)
          else if starts ''false'' (c # t) then Some (JBool False, drop 4 t)
          else parse_number (c # t))"
| "parse_elems 0 s = None"
| "parse_elems (Suc f) s =
     (case parse_value f s of
        None \<Rightarrow> None
      | Some (j, r) \<Rightarrow>
       (case skip_ws r of
          [] \<Rightarrow> None
        | d # u \<Rightarrow>
            if d = CHR '']'' then Some ([j], u)
            else if d = CHR '','' then map_option (\<lambda>(js, r). (j # js, r)) (parse_elems f u)
            else None))"
| "parse_members 0 s = None"
| "parse_members (Suc f) s =
     (case skip_ws s of
        [] \<Rightarrow> None
      | q # t \<Rightarrow>
         if q \<noteq> CHR 0x22 then None
         else (case parse_chars t of
           None \<Rightarrow> None
         | Some (k, r) \<Rightarrow>
          (case skip_ws r of
             [] \<Rightarrow> None
           | e # u \<Rightarrow>
              if e \<noteq> CHR '':'' then None
              else (case parse_value f u of
                None \<Rightarrow> None
              | Some (j, v) \<Rightarrow>
               (case skip_ws v of
                  [] \<Rightarrow> None
                | d # w \<Rightarrow>
                    if d = CHR ''}'' then Some ([(k, j)], w)
                    else if d = CHR '','' then map_option (\<lambda>(kvs, r). ((k, j) # kvs, r)) (parse_members f w)
                    else None)))))"

definition json_unmarshal :: "string \<Rightarrow> json option" where
  "json_unmarshal s =
     (case parse_value (Suc (length s)) s of
        None \<Rightarrow> None
      | Some (j, r) \<Rightarrow> if skip_ws r = [] \<and> json_depth j \<le> 10000 then Some j else None)"

text \<open>One value of a stream, and what is left unread.\<close>

definition json_decode :: "string \<Rightarrow> (json \<times> string) option" where
  "json_decode s =
     (case parse_value (Suc (length s)) s of
        None \<Rightarrow> None
      | Some (j, r) \<Rightarrow> if json_depth j \<le> 10000 then Some (j, r) else None)"

lemma json_unmarshal_decode:
  "json_unmarshal s = (case json_decode s of None \<Rightarrow> None | Some (j, r) \<Rightarrow> if skip_ws r = [] then Some j else None)"
  by (cases "parse_value (Suc (length s)) s")
    (auto simp: json_unmarshal_def json_decode_def simp del: parse_value.simps)

subsection \<open>Strings round-trip\<close>

lemma hex_nat_table: "\<forall>n\<in>set [0..<16]. hex_val (''0123456789abcdef'' ! n) = Some n"
  by (simp add: upt_conv_Cons hex_val_def del: set_upt)

lemma hex_val_hex_nat [simp]: "hex_val (hex_nat n) = Some (n mod 16)"
  unfolding hex_nat_def by (rule hex_nat_table [rule_format]) simp

lemma unescape_u00:
  assumes "(of_char c :: nat) < 128"
  shows "unescape (CHR ''u'' # CHR ''0'' # CHR ''0'' # hex_nat (of_char c div 16) # hex_nat (of_char c) # t) = Some ([c], t)"
proof -
  have "(of_char c :: nat) div 16 mod 16 = of_char c div 16" using assms by (simp add: less_mult_imp_div_less)
  moreover have "16 * (of_char c div 16) + of_char c mod 16 = (of_char c :: nat)" by simp
  moreover have "hex_val (CHR ''0'') = Some 0" by (simp add: hex_val_def)
  ultimately show ?thesis
    using assms by (simp add: unescape_def hex4_def unescape_unit_def utf8_encode_def)
qed

lemma parse_chars_esc:
  assumes "(of_char c :: nat) < 128"
  shows "parse_chars (esc_ascii c @ t) = map_option (\<lambda>(x, r). (c # x, r)) (parse_chars t)"
proof -
  have esc: "unescape (e @ t) = Some ([c], t) \<Longrightarrow>
      parse_chars ((CHR 0x5C # e) @ t) = map_option (\<lambda>(x, r). (c # x, r)) (parse_chars t)" for e
    by simp
  consider (two) x where "esc_ascii c = [CHR 0x5C, x]" "map_of simple_escapes x = Some c" "x \<noteq> CHR ''u''"
    | (six) "esc_ascii c = CHR 0x5C # [CHR ''u'', CHR ''0'', CHR ''0'', hex_nat (of_char c div 16), hex_nat (of_char c)]"
    | (one) "esc_ascii c = [c]" "c \<noteq> CHR 0x22" "c \<noteq> CHR 0x5C" "\<not> (of_char c :: nat) < 32"
  proof -
    have "(\<exists>x. esc_ascii c = [CHR 0x5C, x] \<and> map_of simple_escapes x = Some c \<and> x \<noteq> CHR ''u'') \<or>
      esc_ascii c = CHR 0x5C # [CHR ''u'', CHR ''0'', CHR ''0'', hex_nat (of_char c div 16), hex_nat (of_char c)] \<or>
      (esc_ascii c = [c] \<and> c \<noteq> CHR 0x22 \<and> c \<noteq> CHR 0x5C \<and> \<not> (of_char c :: nat) < 32)"
      unfolding esc_ascii_def simple_escapes_def by auto
    then show thesis using that by blast
  qed
  then show ?thesis
  proof cases
    case two
    then have "unescape ([x] @ t) = Some ([c], t)" by (simp add: unescape_def)
    from esc [OF this] show ?thesis unfolding two(1) .
  next
    case six
    from unescape_u00 [OF assms, of t] show ?thesis unfolding six by (intro esc) simp
  next
    case one
    then show ?thesis using assms by simp
  qed
qed

lemma parse_chars_esc_string: "ascii s \<Longrightarrow> parse_chars (esc_string s @ CHR 0x22 # r) = Some (s, r)"
  by (induction s) (simp_all add: parse_chars_esc)

subsection \<open>Numbers round-trip\<close>

declare nat_str.simps [simp del]

lemma nat_str_digits: "list_all is_digit (nat_str n)" "nat_str n \<noteq> []"
  by (induction n rule: nat_str.induct) (subst nat_str.simps; simp)+

lemma nat_str_value: "digits_value 0 (nat_str n) = Some n"
  by (induction n rule: nat_str.induct) (subst nat_str.simps; simp add: digits_value_append)

lemma nat_str_head: "hd (nat_str n) = CHR ''0'' \<Longrightarrow> n = 0"
proof (induction n rule: nat_str.induct)
  case (1 n)
  show ?case
  proof (cases "n < 10")
    case True
    with 1 have "digit n = CHR ''0''" by (simp add: nat_str.simps)
    then have "Some (n mod 10) = digit_val (CHR ''0'')" by (metis digit_val_digit)
    then show ?thesis using True by (simp add: digit_val_def)
  next
    case False
    have "hd (nat_str (n div 10)) = CHR ''0''"
      using 1(2) False nat_str_digits(2) [of "n div 10"] by (subst (asm) nat_str.simps) simp
    with 1(1) False show ?thesis by simp
  qed
qed

definition value_end :: "string \<Rightarrow> bool" where
  "value_end r \<longleftrightarrow> r = [] \<or> hd r \<in> set (CHR 0x0A # '',]}'')"

lemma take_digits_end: "list_all is_digit ds \<Longrightarrow> value_end r \<Longrightarrow> take_digits (ds @ r) = (ds, r)"
  by (induction ds) (cases r; auto simp: take_digits_def value_end_def is_digit_def digit_val_def)+

lemma number_tail_end:
  "value_end r \<Longrightarrow> parse_fraction r = Some ([], r)" "value_end r \<Longrightarrow> parse_exponent r = Some ([], r)"
  by (cases r; auto simp: parse_fraction_def parse_exponent_def value_end_def)+

lemma nat_str_no_sign: "nat_str n = c # cs \<Longrightarrow> c \<noteq> CHR ''-''"
  using nat_str_digits(1) [of n] by (auto simp: is_digit_def digit_val_def)

lemma parse_number_int:
  assumes "value_end r"
  shows "parse_number (int_str i @ r) = Some (JInt i, r)"
proof -
  note td = take_digits_end [OF nat_str_digits(1) assms] and te = number_tail_end [OF assms]
  have z: "\<not> (hd (nat_str n) = CHR ''0'' \<and> tl (nat_str n) \<noteq> [])" for n
    using nat_str_head [of n] by (auto simp: digit_def nat_str.simps [of 0])
  show ?thesis
  proof (cases "i < 0")
    case True
    then show ?thesis
      using z [of "nat (- i)"] by (auto simp: parse_number_def int_str_def td te nat_str_digits(2) nat_str_value)
  next
    case False
    have "(case nat_str (nat i) @ r of c # _ \<Rightarrow> c = CHR ''-'' | [] \<Rightarrow> False) = False"
      using nat_str_digits(2) [of "nat i"] nat_str_no_sign [of "nat i"] by (cases "nat_str (nat i)") auto
    then show ?thesis
      using z [of "nat i"] False
      by (auto simp: parse_number_def int_str_def td te nat_str_digits(2) nat_str_value)
  qed
qed


subsection \<open>Documents round-trip\<close>

lemma json_marshal_head:
  assumes "json_ascii j"
  obtains c t where "json_marshal j = c # t" "skip_ws (c # t @ r) = c # t @ r" "c \<notin> set '']}''"
proof -
  have "\<exists>c t. int_str i = c # t \<and> c \<notin> set '' ]}'' \<and> c \<noteq> CHR 0x09 \<and> c \<noteq> CHR 0x0A \<and> c \<noteq> CHR 0x0D" for i
  proof (cases "i < 0")
    case False
    obtain c t where "nat_str (nat i) = c # t" using nat_str_digits(2) by (cases "nat_str (nat i)") auto
    with False nat_str_digits(1) [of "nat i"] show ?thesis
      by (auto simp: int_str_def is_digit_def digit_val_def split: if_splits)
  qed (simp add: int_str_def)
  then have int: "\<exists>c t. json_marshal j = c # t \<and> skip_ws (c # t @ r) = c # t @ r \<and> c \<notin> set '']}''"
    if "j = JInt i" for i using that by fastforce
  have "\<exists>c t. json_marshal j = c # t \<and> skip_ws (c # t @ r) = c # t @ r \<and> c \<notin> set '']}''"
    using assms int by (cases j) (auto simp: print_string_def)
  then show thesis using that by blast
qed

lemma parse_string_value:
  "ascii s \<Longrightarrow> parse_value (Suc f) (print_string s @ r) = Some (JStr s, r)"
  by (simp add: print_string_def parse_chars_esc_string)

lemma parse_value_int: "value_end r \<Longrightarrow> parse_value (Suc f) (int_str i @ r) = Some (JInt i, r)"
proof -
  assume r: "value_end r"
  have "json_ascii (JInt i)" by simp
  then obtain c t where "json_marshal (JInt i) = c # t" and skip: "skip_ws (c # t @ r) = c # t @ r"
    by (rule json_marshal_head)
  with skip have ct: "int_str i = c # t" "skip_ws (c # t @ r) = c # t @ r" by (simp_all del: skip_ws.simps)
  have "c = CHR ''-'' \<or> is_digit c"
    using ct(1) nat_str_digits(1) [of "nat i"] by (auto simp: int_str_def split: if_splits)
  then have c: "c \<noteq> CHR ''{''" "c \<noteq> CHR ''[''" "c \<noteq> CHR 0x22" "c \<noteq> CHR ''n''" "c \<noteq> CHR ''t''" "c \<noteq> CHR ''f''"
    by (auto simp: is_digit_def digit_val_def)
  have "parse_number (c # t @ r) = Some (JInt i, r)" using parse_number_int [OF r, of i] ct by simp
  then show ?thesis using ct c by (simp add: starts_def)
qed

lemma parse_elems_marshal:
  assumes "js \<noteq> []" and "list_all json_ascii js" and "length (join_comma (map json_marshal js)) < f"
    and "\<And>j f r. j \<in> set js \<Longrightarrow> length (json_marshal j) \<le> f \<Longrightarrow> value_end r \<Longrightarrow>
      parse_value f (json_marshal j @ r) = Some (j, r)"
  shows "parse_elems f (join_comma (map json_marshal js) @ CHR '']'' # r) = Some (js, r)"
  using assms
proof (induction js arbitrary: f)
  case (Cons j js)
  from Cons.prems(3) obtain f' where f: "f = Suc f'" by (cases f) auto
  show ?case
  proof (cases js)
    case Nil
    with Cons.prems f have "parse_value f' (json_marshal j @ CHR '']'' # r) = Some (j, CHR '']'' # r)"
      by (intro Cons.prems(4)) (auto simp: value_end_def)
    with Nil show ?thesis by (simp add: f)
  next
    case (Cons j2 js2)
    let ?rest = "join_comma (map json_marshal js) @ CHR '']'' # r"
    have "parse_value f' (json_marshal j @ CHR '','' # ?rest) = Some (j, CHR '','' # ?rest)"
      using Cons.prems f Cons by (intro Cons.prems(4)) (auto simp: value_end_def)
    moreover have "parse_elems f' ?rest = Some (js, r)"
      using Cons.prems f Cons by (intro Cons.IH) auto
    ultimately show ?thesis by (simp add: f Cons)
  qed
qed simp


lemma parse_members_marshal:
  assumes "kvs \<noteq> []" and "list_all (\<lambda>kv. ascii (fst kv)) kvs"
    and "length (join_comma (map (\<lambda>kv. print_string (fst kv) @ CHR '':'' # json_marshal (snd kv)) kvs)) < f"
    and "\<And>kv f r. kv \<in> set kvs \<Longrightarrow> length (json_marshal (snd kv)) \<le> f \<Longrightarrow> value_end r \<Longrightarrow>
      parse_value f (json_marshal (snd kv) @ r) = Some (snd kv, r)"
  shows "parse_members f (join_comma (map (\<lambda>kv. print_string (fst kv) @ CHR '':'' # json_marshal (snd kv)) kvs)
    @ CHR ''}'' # r) = Some (kvs, r)"
  using assms
proof (induction kvs arbitrary: f)
  case (Cons kv kvs)
  from Cons.prems(3) obtain f' where f: "f = Suc f'" by (cases f) auto
  from Cons.prems(2) have asc: "ascii (fst kv)" by simp
  show ?case
  proof (cases kvs)
    case Nil
    with Cons.prems f have "parse_value f' (json_marshal (snd kv) @ CHR ''}'' # r) = Some (snd kv, CHR ''}'' # r)"
      by (intro Cons.prems(4)) (auto simp: value_end_def)
    with Nil asc show ?thesis by (simp add: f print_string_def parse_chars_esc_string)
  next
    case (Cons kv2 kvs2)
    let ?rest = "join_comma (map (\<lambda>kv. print_string (fst kv) @ CHR '':'' # json_marshal (snd kv)) kvs) @ CHR ''}'' # r"
    have "parse_value f' (json_marshal (snd kv) @ CHR '','' # ?rest) = Some (snd kv, CHR '','' # ?rest)"
      using Cons.prems f Cons by (intro Cons.prems(4)) (auto simp: value_end_def)
    moreover have "parse_members f' ?rest = Some (kvs, r)"
      using Cons.prems f Cons by (intro Cons.IH) auto
    ultimately show ?thesis using asc by (simp add: f Cons print_string_def parse_chars_esc_string)
  qed
qed simp

lemma join_comma_head: "json_ascii j \<Longrightarrow>
  \<exists>c t. join_comma (map json_marshal (j # js)) @ r = c # t \<and> skip_ws (c # t) = c # t \<and> c \<noteq> CHR '']''"
proof -
  assume "json_ascii j"
  define u where "u = (if js = [] then r else CHR '','' # join_comma (map json_marshal js) @ r)"
  have j: "join_comma (map json_marshal (j # js)) @ r = json_marshal j @ u" by (cases js) (simp_all add: u_def)
  obtain c t where ct: "json_marshal j = c # t" "skip_ws (c # t @ u) = c # t @ u" "c \<notin> set '']}''"
    using \<open>json_ascii j\<close> by (rule json_marshal_head)
  show ?thesis unfolding j ct(1) using ct(2,3) by (intro exI [of _ c] exI [of _ "t @ u"]) (simp del: skip_ws.simps)
qed

lemma parse_value_marshal:
  "json_ascii j \<Longrightarrow> length (json_marshal j) \<le> f \<Longrightarrow> value_end r \<Longrightarrow>
   parse_value f (json_marshal j @ r) = Some (j, r)"
proof (induction j arbitrary: f r)
  case (JObj kvs)
  then obtain f' where f: "f = Suc f'" by (cases f) auto
  show ?case
  proof (cases kvs)
    case (Cons kv kvs')
    let ?body = "join_comma (map (\<lambda>kv. print_string (fst kv) @ CHR '':'' # json_marshal (snd kv)) kvs)"
    have ih: "parse_value g (json_marshal (snd x) @ u) = Some (snd x, u)"
      if "x \<in> set kvs" "length (json_marshal (snd x)) \<le> g" "value_end u" for x g u
      using JObj.IH [OF that(1), of "snd x"] JObj.prems(1) that by (cases x) (auto simp: list_all_iff)
    have "parse_members f' (?body @ CHR ''}'' # r) = Some (kvs, r)"
    proof (rule parse_members_marshal [OF _ _ _ ih])
      show "kvs \<noteq> []" by (simp add: Cons)
      show "list_all (\<lambda>kv. ascii (fst kv)) kvs" using JObj.prems(1) by (simp add: list_all_iff)
      show "length ?body < f'" using JObj.prems(2) f by simp
    qed
    moreover obtain t where t: "?body = CHR 0x22 # t"
      by (cases kvs') (simp_all add: Cons print_string_def)
    ultimately have "parse_members f' (CHR 0x22 # t @ CHR ''}'' # r) = Some (kvs, r)" by simp
    then show ?thesis by (simp add: f t)
  qed (simp add: f)
next
  case (JArr js)
  then obtain f' where f: "f = Suc f'" by (cases f) auto
  show ?case
  proof (cases js)
    case (Cons j js')
    let ?body = "join_comma (map json_marshal js)"
    have "parse_elems f' (?body @ CHR '']'' # r) = Some (js, r)"
    proof (rule parse_elems_marshal)
      show "js \<noteq> []" by (simp add: Cons)
      show "list_all json_ascii js" using JArr.prems(1) by simp
      show "length ?body < f'" using JArr.prems(2) f by simp
      show "parse_value g (json_marshal x @ u) = Some (x, u)"
        if "x \<in> set js" "length (json_marshal x) \<le> g" "value_end u" for x g u
        using JArr.IH [OF that(1)] JArr.prems(1) that by (simp add: list_all_iff)
    qed
    moreover obtain c t where t: "?body @ CHR '']'' # r = c # t" "skip_ws (c # t) = c # t" "c \<noteq> CHR '']''"
      using join_comma_head [of j js' "CHR '']'' # r"] JArr.prems Cons by (auto simp del: skip_ws.simps)
    ultimately have "parse_elems f' (c # t) = Some (js, r)" by simp
    then show ?thesis using t by (simp add: f del: skip_ws.simps) (simp add: t(2))
  qed (simp add: f)
next
  case JNull
  then obtain f' where "f = Suc f'" by (cases f) auto
  then show ?case by (simp add: starts_def)
next
  case (JBool b)
  then obtain f' where "f = Suc f'" by (cases f) (auto split: if_splits)
  then show ?case by (simp add: starts_def)
next
  case (JInt i)
  then obtain f' where "f = Suc f'" using nat_str_digits(2) by (cases f) (auto simp: int_str_def split: if_splits)
  then show ?case using JInt by (simp add: parse_value_int del: parse_value.simps)
next
  case (JStr s)
  then obtain f' where "f = Suc f'" by (cases f) (auto simp: print_string_def)
  then show ?case using JStr by (simp add: parse_string_value del: parse_value.simps)
qed simp

lemma foldr_max_le: "foldr (\<lambda>x. max (g x)) xs 0 \<le> (n :: nat) \<longleftrightarrow> (\<forall>x\<in>set xs. g x \<le> n)"
  by (induction xs) auto

lemma json_depth_obj_le: "json_depth (JObj kvs) \<le> Suc n \<longleftrightarrow> (\<forall>kv\<in>set kvs. json_depth (snd kv) \<le> n)"
  by (simp add: foldr_max_le)

theorem json_unmarshal_marshal:
  assumes "json_ascii j" "json_depth j \<le> 10000"
  shows "json_unmarshal (json_marshal j) = Some j"
proof -
  have "parse_value (Suc (length (json_marshal j))) (json_marshal j @ []) = Some (j, [])"
    using assms(1) by (intro parse_value_marshal) (simp_all add: value_end_def)
  then show ?thesis using assms(2) by (simp add: json_unmarshal_def del: parse_value.simps)
qed

text \<open>A document followed by a line end, as the key markers are written.\<close>

lemma json_unmarshal_line:
  assumes "json_ascii j" "json_depth j \<le> 10000"
  shows "json_unmarshal (json_marshal j @ [CHR 0x0A]) = Some j"
proof -
  have "parse_value (Suc (Suc (length (json_marshal j)))) (json_marshal j @ [CHR 0x0A]) = Some (j, [CHR 0x0A])"
    using assms(1) by (intro parse_value_marshal) (simp_all add: value_end_def)
  then show ?thesis using assms(2) by (simp add: json_unmarshal_def del: parse_value.simps)
qed

declare json_marshal.simps [simp del]

end
