(* ===== verification/Json.thy ===== *)
theory Json
  imports JsonText
begin

section \<open>Decoding documents into structs (encoding/json)\<close>

text \<open>
  Raft log entries, FSM snapshots and key markers are JSON documents. What \<^verbatim>\<open>json.Unmarshal\<close>
  does with a parsed document is written out here: field tags, \<^verbatim>\<open>omitempty\<close>, byte slices as
  base64, integer range checks, null as a no-op, unknown fields ignored, the last duplicate wins,
  keys matched exactly or else case-insensitively.
\<close>

subsection \<open>Definitions\<close>

text \<open>
  \<^verbatim>\<open>foldName\<close>: ASCII letters to upper case, and the two other code points that fold to ASCII
  letters, U+017F (to \<open>S\<close>) and U+212A (to \<open>K\<close>), given by their UTF-8 bytes.
\<close>

definition ascii_upper :: "char \<Rightarrow> char" where
  "ascii_upper c =
     (let n = of_char c :: nat in if 97 \<le> n \<and> n \<le> 122 then char_of (n - 32) else c)"

fun fold_name :: "string \<Rightarrow> string" where
  "fold_name (a # b # c # s) =
     (if a = CHR 0xC5 \<and> b = CHR 0xBF then CHR ''S'' # fold_name (c # s)
      else if a = CHR 0xE2 \<and> b = CHR 0x84 \<and> c = CHR 0xAA then CHR ''K'' # fold_name s
      else ascii_upper a # fold_name (b # c # s))"
| "fold_name [a, b] =
     (if a = CHR 0xC5 \<and> b = CHR 0xBF then ''S'' else [ascii_upper a, ascii_upper b])"
| "fold_name [a] = [ascii_upper a]"
| "fold_name [] = []"

type_synonym 'r fields = "(string \<times> (json \<Rightarrow> 'r \<Rightarrow> 'r option)) list"

definition find_field :: "'r fields \<Rightarrow> string \<Rightarrow> (json \<Rightarrow> 'r \<Rightarrow> 'r option) option" where
  "find_field tbl k =
     (case map_of tbl k of
        Some f \<Rightarrow> Some f
      | None \<Rightarrow> map_of (map (\<lambda>(n, f). (fold_name n, f)) tbl) (fold_name k))"

fun decode_fields :: "'r fields \<Rightarrow> (string \<times> json) list \<Rightarrow> 'r \<Rightarrow> 'r option" where
  "decode_fields tbl [] r = Some r"
| "decode_fields tbl ((k, j) # kvs) r =
     (case find_field tbl k of
        None \<Rightarrow> decode_fields tbl kvs r
      | Some f \<Rightarrow> (case f j r of None \<Rightarrow> None | Some r' \<Rightarrow> decode_fields tbl kvs r'))"

definition decode_struct :: "'r fields \<Rightarrow> 'r \<Rightarrow> json \<Rightarrow> 'r option" where
  "decode_struct tbl r j =
     (case j of JNull \<Rightarrow> Some r | JObj kvs \<Rightarrow> decode_fields tbl kvs r | _ \<Rightarrow> None)"

definition dec_int :: "'a :: len word \<Rightarrow> json \<Rightarrow> 'a word option" where
  "dec_int cur j =
     (case j of
        JNull \<Rightarrow> Some cur
      | JInt n \<Rightarrow> if - (2 ^ (LENGTH('a) - 1)) \<le> n \<and> n < 2 ^ (LENGTH('a) - 1)
                 then Some (word_of_int n) else None
      | _ \<Rightarrow> None)"

definition dec_string :: "string \<Rightarrow> json \<Rightarrow> string option" where
  "dec_string cur j = (case j of JNull \<Rightarrow> Some cur | JStr s \<Rightarrow> Some s | _ \<Rightarrow> None)"

text \<open>A JSON array of small numbers also decodes into a byte slice; null leaves an element alone.\<close>

fun dec_byte_array :: "bytes \<Rightarrow> json list \<Rightarrow> bytes option" where
  "dec_byte_array cur [] = Some []"
| "dec_byte_array cur (j # js) =
     (let old = (case cur of [] \<Rightarrow> CHR 0x00 | c # _ \<Rightarrow> c) in
      case (case j of
              JNull \<Rightarrow> Some old
            | JInt n \<Rightarrow> if 0 \<le> n \<and> n < 256 then Some (char_of n) else None
            | _ \<Rightarrow> None) of
        None \<Rightarrow> None
      | Some c \<Rightarrow> map_option (\<lambda>cs. c # cs) (dec_byte_array (tl cur) js))"

definition dec_bytes :: "bytes \<Rightarrow> json \<Rightarrow> bytes option" where
  "dec_bytes cur j =
     (case j of
        JNull \<Rightarrow> Some []
      | JStr s \<Rightarrow> b64_decode s
      | JArr js \<Rightarrow> dec_byte_array cur js
      | _ \<Rightarrow> None)"

definition dec_time :: "time \<Rightarrow> json \<Rightarrow> time option" where
  "dec_time cur j =
     (case j of JNull \<Rightarrow> Some cur | JStr s \<Rightarrow> parse_rfc3339 s | _ \<Rightarrow> None)"

definition enc_bytes_omitempty :: "string \<Rightarrow> bytes \<Rightarrow> (string \<times> json) list" where
  "enc_bytes_omitempty k b = (if b = [] then [] else [(k, JStr (b64_encode b))])"

definition enc_string_omitempty :: "string \<Rightarrow> string \<Rightarrow> (string \<times> json) list" where
  "enc_string_omitempty k s = (if s = [] then [] else [(k, JStr s)])"

subsection \<open>Field decoders invert field encoders\<close>

lemma dec_int_sint [simp]: "dec_int cur (JInt (sint w)) = Some w"
  using sint_greater_eq [of w] sint_less [of w] by (simp add: dec_int_def)

lemma dec_string_JStr [simp]: "dec_string cur (JStr s) = Some s"
  by (simp add: dec_string_def)

lemma dec_bytes_JStr [simp]: "dec_bytes cur (JStr (b64_encode b)) = Some b"
  by (simp add: dec_bytes_def)

lemma dec_time_JStr: "format_rfc3339 t = Some s \<Longrightarrow> dec_time cur (JStr s) = Some t"
  by (simp add: dec_time_def parse_format_rfc3339)

lemma decode_fields_append:
  "decode_fields tbl (xs @ ys) r =
     (case decode_fields tbl xs r of None \<Rightarrow> None | Some r' \<Rightarrow> decode_fields tbl ys r')"
  by (induction tbl xs r rule: decode_fields.induct) (auto split: option.splits)

end
