(* ===== verification/Store.thy ===== *)
theory Store
  imports Json
begin

section \<open>The double-sign gate's data model (internal/state/store.go)\<close>

text \<open>
  The high-water mark of a chain (\<open>SignState\<close>), what a reservation tells its caller
  (\<open>ReserveResult\<close>) and the order on height, round and step. Heights, rounds and steps keep
  their Go widths (int64, int32, int8) and are compared as signed values.
\<close>

subsection \<open>Definitions\<close>

definition StepNone :: int8 where "StepNone = 0"
definition StepPropose :: int8 where "StepPropose = 1"
definition StepPrevote :: int8 where "StepPrevote = 2"
definition StepPrecommit :: int8 where "StepPrecommit = 3"

record SignState =
  Height :: int64
  Round :: int32
  Step :: int8
  SignBytes :: bytes
  Signature :: bytes
  Timestamp :: time

record ReserveResult =
  Reuse :: bool
  rSignBytes :: bytes
  rSignature :: bytes
  rTimestamp :: time

text \<open>Height, round and step as a value; Isabelle's order on triples is the lexicographic one.\<close>

type_synonym hrs = "int \<times> int \<times> int"

definition hrs_of :: "int64 \<Rightarrow> int32 \<Rightarrow> int8 \<Rightarrow> hrs" where
  "hrs_of h r s = (sint h, sint r, sint s)"

definition mark_hrs :: "SignState \<Rightarrow> hrs" where
  "mark_hrs st = hrs_of (Height st) (Round st) (Step st)"

definition zero_SignState :: SignState where
  "zero_SignState = \<lparr>Height = 0, Round = 0, Step = 0, SignBytes = [], Signature = [],
     Timestamp = zero_time\<rparr>"

text \<open>
  How a chain's mark may change: it appears, it moves strictly up, or it stays at its height,
  round and step with the same sign bytes and timestamp, and a signature once recorded is kept.
\<close>

definition mark_le :: "SignState option \<Rightarrow> SignState option \<Rightarrow> bool" where
  "mark_le m m' =
     (case m of
        None \<Rightarrow> True
      | Some a \<Rightarrow> (case m' of
          None \<Rightarrow> False
        | Some b \<Rightarrow>
            mark_hrs a < mark_hrs b \<or>
            (mark_hrs a = mark_hrs b \<and> SignBytes a = SignBytes b \<and> Timestamp a = Timestamp b \<and>
             (Signature a \<noteq> [] \<longrightarrow> Signature b = Signature a))))"

subsection \<open>The order\<close>

lemma hrs_of_inj [simp]: "hrs_of h r s = hrs_of h' r' s' \<longleftrightarrow> h = h' \<and> r = r' \<and> s = s'"
  by (auto simp: hrs_of_def intro: signed_word_eqI)

lemma mark_le_refl [simp]: "mark_le m m"
  by (simp add: mark_le_def split: option.split)

lemma mark_le_None [simp]: "mark_le None m"
  by (simp add: mark_le_def)

lemma mark_le_trans: "mark_le a b \<Longrightarrow> mark_le b c \<Longrightarrow> mark_le a c"
  by (fastforce simp: mark_le_def split: option.splits)

lemma mark_le_SomeE:
  assumes "mark_le (Some a) m"
  obtains b where "m = Some b" and "mark_hrs a \<le> mark_hrs b"
    and "mark_hrs a = mark_hrs b \<Longrightarrow> SignBytes b = SignBytes a \<and> Timestamp b = Timestamp a \<and>
      (Signature a \<noteq> [] \<longrightarrow> Signature b = Signature a)"
  using assms by (fastforce simp: mark_le_def split: option.splits)

end
