(* ===== verification/ClusterId.thy ===== *)
theory ClusterId
  imports Prelude
begin

unbundle bit_operations_syntax

section \<open>Cluster identities (internal/clusterid)\<close>

text \<open>
  \<open>New\<close> formats sixteen random bytes as an RFC 4122 version 4 UUID; \<open>Validate\<close> accepts the
  canonical lowercase form only. The random source is the argument of \<open>New\<close>: \<open>None\<close> when
  \<^verbatim>\<open>rand.Read\<close> fails, otherwise the sixteen bytes it delivered. The lemmas show that every
  generated identity validates, what \<open>Validate\<close> accepts, and that \<open>New\<close> loses only the six
  bits it fixes.
\<close>

subsection \<open>Definitions\<close>

definition hextable :: string where
  "hextable = ''0123456789abcdef''"

definition hex_digit :: "byte \<Rightarrow> char" where
  "hex_digit n = hextable ! unat n"

text \<open>\<^verbatim>\<open>hex.Encode\<close> of the standard library: two lowercase digits per byte, high nibble first.\<close>

definition hex_encode :: "byte list \<Rightarrow> string" where
  "hex_encode bs = concat (map (\<lambda>b. [hex_digit (drop_bit 4 b), hex_digit (b AND 0x0f)]) bs)"

definition uuid_stamp :: "byte list \<Rightarrow> byte list" where
  "uuid_stamp raw =
     (let raw1 = raw[6 := (raw ! 6 AND 0x0f) OR 0x40]
      in raw1[8 := (raw1 ! 8 AND 0x3f) OR 0x80])"

definition uuid_encode :: "byte list \<Rightarrow> string" where
  "uuid_encode raw =
     hex_encode (take 4 raw) @ ''-'' @ hex_encode (take 2 (drop 4 raw)) @ ''-'' @
     hex_encode (take 2 (drop 6 raw)) @ ''-'' @ hex_encode (take 2 (drop 8 raw)) @ ''-'' @
     hex_encode (take 6 (drop 10 raw))"

definition New :: "byte list option \<Rightarrow> string result" where
  "New rand =
     (case rand of
        None \<Rightarrow> Inl (Errorf ''generate cluster ID'' [])
      | Some raw \<Rightarrow> Inr (uuid_encode (uuid_stamp raw)))"

definition lower_hex :: "char \<Rightarrow> bool" where
  "lower_hex b \<longleftrightarrow> (CHR ''0'' \<le> b \<and> b \<le> CHR ''9'') \<or> (CHR ''a'' \<le> b \<and> b \<le> CHR ''f'')"

text \<open>The loop of \<open>Validate\<close>, from index \<open>i\<close> on.\<close>

fun validate_from :: "nat \<Rightarrow> string \<Rightarrow> bool" where
  "validate_from i [] = True"
| "validate_from i (b # bs) =
     (if i \<in> {8, 13, 18, 23} then b = CHR ''-'' \<and> validate_from (Suc i) bs
      else lower_hex b \<and> validate_from (Suc i) bs)"

definition Validate :: "string \<Rightarrow> go_error option" where
  "Validate uid =
     (if length uid \<noteq> 36
      then Some (errors_New ''cluster ID must be a canonical lowercase UUID'')
      else if \<not> validate_from 0 uid
      then Some (errors_New ''cluster ID must be a canonical lowercase UUID'')
      else if uid ! 14 \<noteq> CHR ''4'' \<or> uid ! 19 \<notin> set ''89ab''
      then Some (errors_New ''cluster ID must be a canonical RFC 4122 version 4 UUID'')
      else None)"

abbreviation valid_id :: "string \<Rightarrow> bool" where
  "valid_id uid \<equiv> Validate uid = None"

text \<open>Two random blocks agree on the 122 bits that a version 4 UUID does not fix.\<close>

definition same_entropy :: "byte list \<Rightarrow> byte list \<Rightarrow> bool" where
  "same_entropy r r' \<longleftrightarrow>
     list_all (\<lambda>i. r ! i = r' ! i) [0,1,2,3,4,5,7,9,10,11,12,13,14,15] \<and>
     r ! 6 AND 0x0f = r' ! 6 AND 0x0f \<and> r ! 8 AND 0x3f = r' ! 8 AND 0x3f"

subsection \<open>Hexadecimal digits\<close>

lemma byte_cases_less: "b < (16 :: byte) \<Longrightarrow>
    b = 0 \<or> b = 1 \<or> b = 2 \<or> b = 3 \<or> b = 4 \<or> b = 5 \<or> b = 6 \<or> b = 7 \<or>
    b = 8 \<or> b = 9 \<or> b = 10 \<or> b = 11 \<or> b = 12 \<or> b = 13 \<or> b = 14 \<or> b = 15"
  by unat_arith

lemma hex_digit_inj: "a < 16 \<Longrightarrow> b < 16 \<Longrightarrow> hex_digit a = hex_digit b \<longleftrightarrow> a = b"
  by (drule byte_cases_less, drule byte_cases_less) (auto simp: hex_digit_def hextable_def)

lemma lower_hex_digit: "a < 16 \<Longrightarrow> lower_hex (hex_digit a)"
  by (drule byte_cases_less)
    (auto simp: hex_digit_def hextable_def lower_hex_def less_eq_char_def)

lemma unat_nibbles:
  "unat (drop_bit 4 (x :: byte)) = unat x div 16" "unat ((x :: byte) AND 0x0f) = unat x mod 16"
proof -
  show "unat (drop_bit 4 x) = unat x div 16" by (simp add: drop_bit_eq_div unat_div)
  have "x AND 0x0f = take_bit 4 x" by (simp add: take_bit_eq_mask mask_eq_exp_minus_1)
  then show "unat (x AND 0x0f) = unat x mod 16" by (simp add: take_bit_eq_mod unat_mod)
qed

lemma nibbles_less: "drop_bit 4 (b :: byte) < 16" "(b :: byte) AND 0x0f < 16"
proof -
  have "unat b < 256" by (rule order_less_le_trans [OF unsigned_less]) simp
  then show "drop_bit 4 b < 16" "b AND 0x0f < 16"
    by (simp_all only: word_less_nat_alt unat_nibbles) (simp_all add: less_mult_imp_div_less)
qed

lemma nibbles_eq:
  assumes "drop_bit 4 (a :: byte) = drop_bit 4 b" and "a AND 0x0f = b AND 0x0f"
  shows "a = b"
proof -
  from assms have "unat a div 16 = unat b div 16" "unat a mod 16 = unat b mod 16"
    by (simp_all only: unat_nibbles [symmetric])
  then have "unat a = unat b" by (metis div_mult_mod_eq)
  then show ?thesis by (simp only: word_unat_eq_iff)
qed

lemma hex_pair_inj:
  "hex_digit (drop_bit 4 a) = hex_digit (drop_bit 4 b) \<and>
   hex_digit (a AND 0x0f) = hex_digit (b AND 0x0f) \<longleftrightarrow> a = b"
  by (auto simp del: drop_bit_eq_div simp: hex_digit_inj nibbles_less dest: nibbles_eq)

subsection \<open>The stamped bytes\<close>

lemma version_nibble: "drop_bit 4 ((b AND 0x0f) OR 0x40 :: byte) = 4"
  by (simp add: drop_bit_or drop_bit_and)

lemma variant_nibble: "drop_bit 4 ((b AND 0x3f) OR 0x80 :: byte) \<in> {8, 9, 10, 11}"
proof -
  have "drop_bit 4 ((b AND 0x3f) OR 0x80 :: byte) = (drop_bit 4 b AND 3) OR 8"
    by (simp add: drop_bit_or drop_bit_and)
  moreover have "drop_bit 4 b AND 3 \<in> {0, 1, 2, 3 :: byte}"
  proof -
    have "drop_bit 4 b AND 3 \<le> (3 :: byte)" by (rule word_and_le1)
    then show ?thesis by unat_arith
  qed
  ultimately show ?thesis by auto
qed

lemma hex_version: "hex_digit (drop_bit 4 ((b AND 0x0f) OR 0x40)) = CHR ''4''"
  by (simp only: version_nibble) (simp add: hex_digit_def hextable_def)

lemma hex_variant: "hex_digit (drop_bit 4 ((b AND 0x3f) OR 0x80)) \<in> set ''89ab''"
  using variant_nibble [of b] by (auto simp: hex_digit_def hextable_def)

subsection \<open>Generated identities\<close>

lemmas uuid_defs = uuid_encode_def uuid_stamp_def hex_encode_def Let_def

lemma uuid_encode_stamp_valid:
  assumes "length raw = 16"
  shows "valid_id (uuid_encode (uuid_stamp raw))"
proof -
  from assms obtain a b c d e f g h i j k l m n p q
    where raw: "raw = [a,b,c,d,e,f,g,h,i,j,k,l,m,n,p,q]" by (rule length_16_conv)
  note hex = lower_hex_digit [OF nibbles_less(1)] lower_hex_digit [OF nibbles_less(2)]
  have h4: "hex_digit 4 = CHR ''4''" "lower_hex CHR ''4''"
    by (simp_all add: hex_digit_def hextable_def lower_hex_def less_eq_char_def)
  have h8: "lower_hex (hex_digit (drop_bit 4 ((i AND 0x3f) OR 0x80)))" by (rule hex(1))
  show ?thesis
    using hex_variant [of i] h8
    by (simp del: drop_bit_eq_div add: raw uuid_defs Validate_def h4 hex)
qed

lemma uuid_encode_inj:
  assumes "length r = 16" "length r' = 16" and eq: "uuid_encode r = uuid_encode r'"
  shows "r = r'"
proof -
  from assms(1) obtain a b c d e f g h i j k l m n p q
    where r: "r = [a,b,c,d,e,f,g,h,i,j,k,l,m,n,p,q]" by (rule length_16_conv)
  from assms(2) obtain a' b' c' d' e' f' g' h' i' j' k' l' m' n' p' q'
    where r': "r' = [a',b',c',d',e',f',g',h',i',j',k',l',m',n',p',q']" by (rule length_16_conv)
  from eq show ?thesis
    by (simp del: drop_bit_eq_div add: r r' uuid_defs)
       (simp del: drop_bit_eq_div add: hex_pair_inj [symmetric])
qed

lemma mask_or_inj:
  "(a AND 0x0f) OR 0x40 = (b AND 0x0f) OR (0x40 :: byte) \<longleftrightarrow> a AND 0x0f = b AND 0x0f"
  "(a AND 0x3f) OR 0x80 = (b AND 0x3f) OR (0x80 :: byte) \<longleftrightarrow> a AND 0x3f = b AND 0x3f"
proof -
  have "((x AND 0x0f) OR 0x40) AND 0x0f = x AND 0x0f" "((x AND 0x3f) OR 0x80) AND 0x3f = x AND 0x3f"
    for x :: byte by (simp_all add: bit.conj_disj_distrib2 and.assoc)
  then show "(a AND 0x0f) OR 0x40 = (b AND 0x0f) OR (0x40 :: byte) \<longleftrightarrow> a AND 0x0f = b AND 0x0f"
    "(a AND 0x3f) OR 0x80 = (b AND 0x3f) OR (0x80 :: byte) \<longleftrightarrow> a AND 0x3f = b AND 0x3f"
    by metis+
qed

lemma uuid_stamp_eq_iff:
  assumes "length r = 16" "length r' = 16"
  shows "uuid_stamp r = uuid_stamp r' \<longleftrightarrow> same_entropy r r'"
proof -
  from assms(1) obtain a b c d e f g h i j k l m n p q
    where r: "r = [a,b,c,d,e,f,g,h,i,j,k,l,m,n,p,q]" by (rule length_16_conv)
  from assms(2) obtain a' b' c' d' e' f' g' h' i' j' k' l' m' n' p' q'
    where r': "r' = [a',b',c',d',e',f',g',h',i',j',k',l',m',n',p',q']" by (rule length_16_conv)
  show ?thesis by (auto simp: r r' uuid_stamp_def same_entropy_def mask_or_inj)
qed

lemma valid_id_nonempty: "valid_id u \<Longrightarrow> u \<noteq> []"
  by (auto simp: Validate_def)

lemma valid_id_length: "valid_id u \<Longrightarrow> length u = 36"
  by (simp add: Validate_def split: if_splits)

end
