(* ===== verification/Fsm.thy ===== *)
theory Fsm
  imports Store ClusterId
begin

section \<open>The replicated state machine (internal/state/fsm.go)\<close>

text \<open>
  \<open>fsm\<close> is the struct of the same name: the cluster identity (empty while unset) and the
  high-water mark per chain, an association list keyed by chain id. \<open>Apply\<close> decodes a log entry
  and dispatches on its operation. Business errors travel in the result, as in the code.

  The protobuf decoding of CometBFT's canonical proposal and vote is third-party code and a
  parameter (\<open>canon\<close>): unmarshalling of length-delimited bytes, the timestamp field and
  \<^verbatim>\<open>gogoproto.Equal\<close>. No property of this theory assumes anything about it.
\<close>

subsection \<open>Data\<close>

definition opReserve :: string where "opReserve = ''reserve''"
definition opCommit :: string where "opCommit = ''commit''"
definition opInitCluster :: string where "opInitCluster = ''init_cluster''"

record command =
  cOp :: string
  cChainID :: string
  cHeight :: int64
  cRound :: int32
  cStep :: int8
  cSignBytes :: bytes
  cSignature :: bytes
  cTimestamp :: time
  cClusterID :: string

record applyResult =
  reuse :: bool
  signBytes :: bytes
  signature :: bytes
  timestamp :: time
  resClusterID :: string
  err :: "go_error option"

record fsm =
  clusterID :: string
  fstate :: "(string \<times> SignState) list"

record 'm canon_msg =
  unmarshal :: "bytes \<Rightarrow> 'm option"
  msg_timestamp :: "'m \<Rightarrow> time"
  with_timestamp :: "time \<Rightarrow> 'm \<Rightarrow> 'm"
  proto_equal :: "'m \<Rightarrow> 'm \<Rightarrow> bool"

record ('p, 'v) canon =
  canon_proposal :: "'p canon_msg"
  canon_vote :: "'v canon_msg"

definition zero_command :: command where
  "zero_command = \<lparr>cOp = [], cChainID = [], cHeight = 0, cRound = 0, cStep = 0, cSignBytes = [],
     cSignature = [], cTimestamp = zero_time, cClusterID = []\<rparr>"

definition zero_applyResult :: applyResult where
  "zero_applyResult = \<lparr>reuse = False, signBytes = [], signature = [], timestamp = zero_time,
     resClusterID = [], err = None\<rparr>"

abbreviation refuse :: "go_error \<Rightarrow> applyResult" where
  "refuse e \<equiv> zero_applyResult\<lparr>err := Some e\<rparr>"

definition newFSM :: fsm where
  "newFSM = \<lparr>clusterID = [], fstate = []\<rparr>"

definition mark :: "fsm \<Rightarrow> string \<Rightarrow> SignState option" where
  "mark f chain = map_of (fstate f) chain"

subsection \<open>Comparison\<close>

definition compareHRS :: "SignState option \<Rightarrow> int64 \<Rightarrow> int32 \<Rightarrow> int8 \<Rightarrow> int" where
  "compareHRS cur h r s =
     (case cur of
        None \<Rightarrow> 1
      | Some c \<Rightarrow>
          if sint h < sint (Height c) then -1
          else if sint h > sint (Height c) then 1
          else if sint r < sint (Round c) then -1
          else if sint r > sint (Round c) then 1
          else if sint s < sint (Step c) then -1
          else if sint s > sint (Step c) then 1
          else 0)"

definition differs_by_timestamp :: "'m canon_msg \<Rightarrow> bytes \<Rightarrow> bytes \<Rightarrow> time \<times> bool" where
  "differs_by_timestamp cm lastSignBytes newSignBytes =
     (case (unmarshal cm lastSignBytes, unmarshal cm newSignBytes) of
        (Some prev, Some next) \<Rightarrow>
          (msg_timestamp cm prev,
           proto_equal cm (with_timestamp cm zero_time prev) (with_timestamp cm zero_time next))
      | _ \<Rightarrow> (zero_time, False))"

definition onlyDiffersByTimestamp ::
  "('p, 'v) canon \<Rightarrow> bytes \<Rightarrow> bytes \<Rightarrow> int8 \<Rightarrow> time \<times> bool" where
  "onlyDiffersByTimestamp cn lastSignBytes newSignBytes step =
     (if step = StepPropose
      then differs_by_timestamp (canon_proposal cn) lastSignBytes newSignBytes
      else differs_by_timestamp (canon_vote cn) lastSignBytes newSignBytes)"

subsection \<open>Operations\<close>

definition applyInitCluster :: "fsm \<Rightarrow> command \<Rightarrow> fsm \<times> applyResult" where
  "applyInitCluster f c =
     (case Validate (cClusterID c) of
        Some e \<Rightarrow> (f, refuse (Errorf ''invalid cluster ID'' [e]))
      | None \<Rightarrow>
          let f' = (if clusterID f = [] then f\<lparr>clusterID := cClusterID c\<rparr> else f)
          in (f', zero_applyResult\<lparr>resClusterID := clusterID f'\<rparr>))"

definition applyReserve :: "('p, 'v) canon \<Rightarrow> fsm \<Rightarrow> command \<Rightarrow> fsm \<times> applyResult" where
  "applyReserve cn f c =
     (let cur = mark f (cChainID c); cmp = compareHRS cur (cHeight c) (cRound c) (cStep c) in
      if cmp = -1 then (f, refuse (Sentinel ErrRegression))
      else case (cmp = 0, cur) of
        (True, Some m) \<Rightarrow>
          if SignBytes m = cSignBytes c then
            (if Signature m \<noteq> []
             then (f, zero_applyResult\<lparr>reuse := True, signature := Signature m, timestamp := Timestamp m\<rparr>)
             else (f, zero_applyResult\<lparr>signBytes := SignBytes m, timestamp := Timestamp m\<rparr>))
          else (case onlyDiffersByTimestamp cn (SignBytes m) (cSignBytes c) (cStep c) of
            (ts, True) \<Rightarrow>
              if Signature m \<noteq> []
              then (f, zero_applyResult\<lparr>reuse := True, signature := Signature m, timestamp := ts\<rparr>)
              else (f, zero_applyResult\<lparr>signBytes := SignBytes m, timestamp := ts\<rparr>)
          | (_, False) \<Rightarrow> (f, refuse (Sentinel ErrConflict)))
      | _ \<Rightarrow>
          (f\<lparr>fstate := AList.update (cChainID c)
               \<lparr>Height = cHeight c, Round = cRound c, Step = cStep c, SignBytes = cSignBytes c,
                Signature = [], Timestamp = cTimestamp c\<rparr> (fstate f)\<rparr>,
           zero_applyResult\<lparr>signBytes := cSignBytes c, timestamp := cTimestamp c\<rparr>))"

definition applyCommit :: "fsm \<Rightarrow> command \<Rightarrow> fsm \<times> applyResult" where
  "applyCommit f c =
     (case mark f (cChainID c) of
        None \<Rightarrow> (f, refuse (errors_New ''commit for stale or unknown height/round/step''))
      | Some m \<Rightarrow>
          if Height m \<noteq> cHeight c \<or> Round m \<noteq> cRound c \<or> Step m \<noteq> cStep c
          then (f, refuse (errors_New ''commit for stale or unknown height/round/step''))
          else if SignBytes m \<noteq> cSignBytes c
          then (f, refuse (errors_New ''commit sign-bytes mismatch''))
          else if Signature m \<noteq> [] then
            (if Signature m \<noteq> cSignature c
             then (f, refuse (errors_New ''commit signature mismatch for same bytes''))
             else (f, zero_applyResult))
          else (f\<lparr>fstate := AList.update (cChainID c) (m\<lparr>Signature := cSignature c\<rparr>) (fstate f)\<rparr>,
                zero_applyResult))"

definition apply_command :: "('p, 'v) canon \<Rightarrow> fsm \<Rightarrow> command \<Rightarrow> fsm \<times> applyResult" where
  "apply_command cn f c =
     (if cOp c = opReserve then applyReserve cn f c
      else if cOp c = opCommit then applyCommit f c
      else if cOp c = opInitCluster then applyInitCluster f c
      else (f, refuse (errors_New ''unknown op'')))"

subsection \<open>Log entries\<close>

definition command_fields :: "command fields" where
  "command_fields =
     [(''op'', \<lambda>j c. map_option (\<lambda>x. c\<lparr>cOp := x\<rparr>) (dec_string (cOp c) j)),
      (''chain_id'', \<lambda>j c. map_option (\<lambda>x. c\<lparr>cChainID := x\<rparr>) (dec_string (cChainID c) j)),
      (''height'', \<lambda>j c. map_option (\<lambda>x. c\<lparr>cHeight := x\<rparr>) (dec_int (cHeight c) j)),
      (''round'', \<lambda>j c. map_option (\<lambda>x. c\<lparr>cRound := x\<rparr>) (dec_int (cRound c) j)),
      (''step'', \<lambda>j c. map_option (\<lambda>x. c\<lparr>cStep := x\<rparr>) (dec_int (cStep c) j)),
      (''sign_bytes'', \<lambda>j c. map_option (\<lambda>x. c\<lparr>cSignBytes := x\<rparr>) (dec_bytes (cSignBytes c) j)),
      (''signature'', \<lambda>j c. map_option (\<lambda>x. c\<lparr>cSignature := x\<rparr>) (dec_bytes (cSignature c) j)),
      (''timestamp'', \<lambda>j c. map_option (\<lambda>x. c\<lparr>cTimestamp := x\<rparr>) (dec_time (cTimestamp c) j)),
      (''cluster_id'', \<lambda>j c. map_option (\<lambda>x. c\<lparr>cClusterID := x\<rparr>) (dec_string (cClusterID c) j))]"

definition decode_command :: "bytes \<Rightarrow> command option" where
  "decode_command data =
     (case json_unmarshal data of
        None \<Rightarrow> None
      | Some j \<Rightarrow> decode_struct (command_fields) zero_command j)"

definition encode_command :: "command \<Rightarrow> bytes option" where
  "encode_command c =
     (case format_rfc3339 (cTimestamp c) of
        None \<Rightarrow> None
      | Some ts \<Rightarrow> Some (json_marshal (JObj (
          [(''op'', JStr (cOp c)), (''chain_id'', JStr (cChainID c)),
           (''height'', JInt (sint (cHeight c))), (''round'', JInt (sint (cRound c))),
           (''step'', JInt (sint (cStep c)))] @
          enc_bytes_omitempty ''sign_bytes'' (cSignBytes c) @
          enc_bytes_omitempty ''signature'' (cSignature c) @
          [(''timestamp'', JStr ts)] @
          enc_string_omitempty ''cluster_id'' (cClusterID c)))))"

definition Apply :: "('p, 'v) canon \<Rightarrow> fsm \<Rightarrow> bytes \<Rightarrow> fsm \<times> applyResult" where
  "Apply cn f data =
     (case decode_command data of
        None \<Rightarrow> (f, refuse (errors_New ''unmarshal command''))
      | Some c \<Rightarrow> apply_command cn f c)"

text \<open>\<open>get\<close> returns a copy of the mark; \<open>clusterIDValue\<close> reads the identity.\<close>

definition fsm_get :: "fsm \<Rightarrow> string \<Rightarrow> SignState option" where
  "fsm_get f chain = mark f chain"

definition clusterIDValue :: "fsm \<Rightarrow> string" where
  "clusterIDValue f = clusterID f"

text \<open>A replica applies the committed log in order.\<close>

fun run_log :: "('p, 'v) canon \<Rightarrow> fsm \<Rightarrow> bytes list \<Rightarrow> fsm" where
  "run_log cn f [] = f"
| "run_log cn f (d # ds) = run_log cn (fst (Apply cn f d)) ds"

text \<open>The invariant of the struct: one entry per chain, and the identity is unset or canonical.\<close>

definition wf_fsm :: "fsm \<Rightarrow> bool" where
  "wf_fsm f \<longleftrightarrow> distinct (map fst (fstate f)) \<and> (clusterID f = [] \<or> valid_id (clusterID f))"

subsection \<open>Comparison is the lexicographic order\<close>

lemma compareHRS_None [simp]: "compareHRS None h r s = 1"
  by (simp add: compareHRS_def)

lemma compareHRS_Some:
  "compareHRS (Some m) h r s =
     (if hrs_of h r s < mark_hrs m then -1 else if hrs_of h r s = mark_hrs m then 0 else 1)"
proof -
  have eq: "hrs_of h r s = mark_hrs m \<longleftrightarrow> sint h = sint (Height m) \<and> sint r = sint (Round m) \<and> sint s = sint (Step m)"
    by (simp add: mark_hrs_def hrs_of_def)
  have lt: "hrs_of h r s < mark_hrs m \<longleftrightarrow> sint h < sint (Height m) \<or>
      sint h = sint (Height m) \<and> (sint r < sint (Round m) \<or> sint r = sint (Round m) \<and> sint s < sint (Step m))"
    by (auto simp: mark_hrs_def hrs_of_def)
  show ?thesis unfolding eq lt by (simp add: compareHRS_def)
qed

lemma compareHRS_range: "compareHRS cur h r s \<in> {-1, 0, 1}"
  by (cases cur) (simp_all add: compareHRS_Some)

subsection \<open>Reserve, commit and init: one rule per branch\<close>

lemma mark_update [simp]:
  "mark (f\<lparr>fstate := AList.update k v (fstate f)\<rparr>) = (mark f)(k \<mapsto> v)"
  by (rule ext) (simp add: mark_def map_of_update)

lemma mark_clusterID [simp]: "mark (f\<lparr>clusterID := i\<rparr>) = mark f"
  by (simp add: mark_def fun_eq_iff)

lemma mark_newFSM [simp]: "mark newFSM chain = None"
  by (simp add: mark_def newFSM_def)

text \<open>A request above the mark (or for a chain without one) is granted and becomes the mark.\<close>

lemma applyReserve_advance:
  assumes "case mark f (cChainID c) of None \<Rightarrow> True
    | Some m \<Rightarrow> mark_hrs m < hrs_of (cHeight c) (cRound c) (cStep c)"
  shows "applyReserve cn f c =
    (f\<lparr>fstate := AList.update (cChainID c)
        \<lparr>Height = cHeight c, Round = cRound c, Step = cStep c, SignBytes = cSignBytes c,
         Signature = [], Timestamp = cTimestamp c\<rparr> (fstate f)\<rparr>,
     zero_applyResult\<lparr>signBytes := cSignBytes c, timestamp := cTimestamp c\<rparr>)"
  using assms by (auto simp: applyReserve_def Let_def compareHRS_Some split: option.splits)

lemma applyReserve_regression:
  "mark f (cChainID c) = Some m \<Longrightarrow> hrs_of (cHeight c) (cRound c) (cStep c) < mark_hrs m \<Longrightarrow>
   applyReserve cn f c = (f, refuse (Sentinel ErrRegression))"
  by (simp add: applyReserve_def Let_def compareHRS_Some)

lemma applyReserve_equal:
  assumes "mark f (cChainID c) = Some m" "hrs_of (cHeight c) (cRound c) (cStep c) = mark_hrs m"
  shows "applyReserve cn f c =
    (f, let same = SignBytes m = cSignBytes c;
            d = onlyDiffersByTimestamp cn (SignBytes m) (cSignBytes c) (cStep c);
            ts = (if same then Timestamp m else fst d) in
        if \<not> same \<and> \<not> snd d then refuse (Sentinel ErrConflict)
        else if Signature m \<noteq> []
        then zero_applyResult\<lparr>reuse := True, signature := Signature m, timestamp := ts\<rparr>
        else zero_applyResult\<lparr>signBytes := SignBytes m, timestamp := ts\<rparr>)"
  using assms
  by (simp add: applyReserve_def Let_def compareHRS_Some split: prod.split bool.split)

text \<open>What a granted reservation promises: the mark now stands at the request.\<close>

lemma applyReserve_granted:
  assumes "applyReserve cn f c = (f', res)" and "err res = None"
  obtains m where "mark f' (cChainID c) = Some m"
    and "mark_hrs m = hrs_of (cHeight c) (cRound c) (cStep c)"
    and "reuse res \<Longrightarrow> signature res = Signature m \<and> Signature m \<noteq> []"
    and "\<not> reuse res \<Longrightarrow> signBytes res = SignBytes m \<and> Signature m = []"
proof (cases "case mark f (cChainID c) of None \<Rightarrow> True
    | Some m \<Rightarrow> mark_hrs m < hrs_of (cHeight c) (cRound c) (cStep c)")
  case True
  note adv = applyReserve_advance [OF this, of cn, unfolded assms(1) prod.inject]
  show thesis
    by (rule that [of "the (mark f' (cChainID c))"])
      (simp_all add: adv mark_hrs_def zero_applyResult_def)
next
  case False
  then obtain m where m: "mark f (cChainID c) = Some m"
    and "\<not> mark_hrs m < hrs_of (cHeight c) (cRound c) (cStep c)" by (auto split: option.splits)
  then consider "hrs_of (cHeight c) (cRound c) (cStep c) < mark_hrs m"
    | "hrs_of (cHeight c) (cRound c) (cStep c) = mark_hrs m" by (meson linorder_neqE)
  then show thesis
  proof cases
    case 1
    with m assms show thesis by (auto simp: applyReserve_regression zero_applyResult_def)
  next
    case 2
    note eq = applyReserve_equal [OF m 2, of cn, unfolded assms(1)]
    from eq have f': "f' = f" by simp
    show thesis
      by (rule that [of m]) (use eq assms(2) m 2 f' in \<open>auto simp: Let_def zero_applyResult_def split: if_splits\<close>)
  qed
qed

lemma applyReserve_mark_le: "mark_le (mark f k) (mark (fst (applyReserve cn f c)) k)"
proof (cases "case mark f (cChainID c) of None \<Rightarrow> True
    | Some m \<Rightarrow> mark_hrs m < hrs_of (cHeight c) (cRound c) (cStep c)")
  case True
  then show ?thesis unfolding applyReserve_advance [OF True]
    by (auto simp: mark_le_def mark_hrs_def split: option.splits)
next
  case False
  then have "fst (applyReserve cn f c) = f"
    by (auto simp: applyReserve_def Let_def compareHRS_Some split: option.splits prod.splits bool.splits)
  then show ?thesis by simp
qed

lemma applyCommit_mark_le: "mark_le (mark f k) (mark (fst (applyCommit f c)) k)"
  by (auto simp: applyCommit_def mark_le_def mark_hrs_def split: option.splits)

text \<open>A commit succeeds only on the mark itself, and then its signature is the mark's.\<close>

lemma applyCommit_ok:
  assumes "applyCommit f c = (f', res)" and "err res = None"
  obtains m where "mark f (cChainID c) = Some m"
    and "mark_hrs m = hrs_of (cHeight c) (cRound c) (cStep c)" and "SignBytes m = cSignBytes c"
    and "mark f' (cChainID c) = Some (m\<lparr>Signature := cSignature c\<rparr>)"
    and "Signature m = [] \<or> Signature m = cSignature c"
  using assms that
  by (auto simp: applyCommit_def zero_applyResult_def mark_hrs_def split: option.splits if_splits)

lemma applyInitCluster_mark [simp]: "mark (fst (applyInitCluster f c)) = mark f"
  by (auto simp: applyInitCluster_def Let_def split: option.splits)

lemma applyReserve_clusterID [simp]: "clusterID (fst (applyReserve cn f c)) = clusterID f"
  by (auto simp: applyReserve_def Let_def split: option.splits prod.splits bool.splits)

lemma applyCommit_clusterID [simp]: "clusterID (fst (applyCommit f c)) = clusterID f"
  by (auto simp: applyCommit_def split: option.splits)

lemma applyInitCluster_clusterID:
  "clusterID (fst (applyInitCluster f c)) =
     (if clusterID f = [] \<and> valid_id (cClusterID c) then cClusterID c else clusterID f)"
  by (auto simp: applyInitCluster_def Let_def split: option.splits)

subsection \<open>Every log entry\<close>

lemma apply_command_mark_le: "mark_le (mark f k) (mark (fst (apply_command cn f c)) k)"
  by (simp add: apply_command_def applyReserve_mark_le applyCommit_mark_le)

lemma apply_command_clusterID:
  "clusterID f \<noteq> [] \<Longrightarrow> clusterID (fst (apply_command cn f c)) = clusterID f"
  by (simp add: apply_command_def applyInitCluster_clusterID)

lemma apply_command_wf [inv_intros]: "wf_fsm f \<Longrightarrow> wf_fsm (fst (apply_command cn f c))"
proof -
  assume wf: "wf_fsm f"
  have "wf_fsm (fst (applyReserve cn f c))" "wf_fsm (fst (applyCommit f c))"
    "wf_fsm (fst (applyInitCluster f c))"
    using wf by (auto simp: wf_fsm_def applyReserve_def applyCommit_def applyInitCluster_def Let_def
        distinct_update split: option.splits prod.splits bool.splits)
  with wf show ?thesis by (simp add: apply_command_def)
qed

lemma Apply_mark_le: "mark_le (mark f k) (mark (fst (Apply cn f d)) k)"
  by (auto simp: Apply_def apply_command_mark_le split: option.splits)

lemma Apply_wf [inv_intros]: "wf_fsm f \<Longrightarrow> wf_fsm (fst (Apply cn f d))"
  by (auto simp: Apply_def intro: inv_intros split: option.splits)

lemma Apply_clusterID: "clusterID f \<noteq> [] \<Longrightarrow> clusterID (fst (Apply cn f d)) = clusterID f"
  by (auto simp: Apply_def apply_command_clusterID split: option.splits)

lemma applyInitCluster_error: "err (snd (applyInitCluster f c)) \<noteq> None \<Longrightarrow> fst (applyInitCluster f c) = f"
  by (auto simp: applyInitCluster_def zero_applyResult_def Let_def split: option.split_asm if_split_asm)

lemma applyCommit_error: "err (snd (applyCommit f c)) \<noteq> None \<Longrightarrow> fst (applyCommit f c) = f"
  by (auto simp: applyCommit_def zero_applyResult_def split: option.splits if_split_asm)

lemma applyReserve_error: "err (snd (applyReserve cn f c)) \<noteq> None \<Longrightarrow> fst (applyReserve cn f c) = f"
  by (cases "mark f (cChainID c)"; cases "compareHRS (mark f (cChainID c)) (cHeight c) (cRound c) (cStep c) = 0")
     (auto simp: applyReserve_def zero_applyResult_def Let_def split: prod.split bool.split)

lemma Apply_error_unchanged: "err (snd (Apply cn f d)) \<noteq> None \<Longrightarrow> fst (Apply cn f d) = f"
  by (auto simp: Apply_def apply_command_def applyReserve_error applyCommit_error applyInitCluster_error
     split: option.split_asm if_split_asm)

lemma wf_newFSM [inv_intros]: "wf_fsm newFSM"
  by (simp add: wf_fsm_def newFSM_def)

lemma run_log_append: "run_log cn f (xs @ ys) = run_log cn (run_log cn f xs) ys"
  by (induction xs arbitrary: f) simp_all

lemma run_log_wf [inv_intros]: "wf_fsm f \<Longrightarrow> wf_fsm (run_log cn f ds)"
  by (induction ds arbitrary: f) (simp_all add: Apply_wf)

lemma run_log_mark_le: "mark_le (mark f k) (mark (run_log cn f ds) k)"
  by (induction ds arbitrary: f) (auto intro: mark_le_trans Apply_mark_le)

lemma run_log_clusterID: "clusterID f \<noteq> [] \<Longrightarrow> clusterID (run_log cn f ds) = clusterID f"
  by (induction ds arbitrary: f) (simp_all add: Apply_clusterID)

subsection \<open>Log entries round-trip\<close>

definition ascii_command :: "command \<Rightarrow> bool" where
  "ascii_command c \<longleftrightarrow> ascii (cOp c) \<and> ascii (cChainID c) \<and> ascii (cClusterID c)"

lemma decode_fields_omitempty:
  "decode_fields tbl (enc_bytes_omitempty k b) r =
     (if b = [] then Some r else decode_fields tbl [(k, JStr (b64_encode b))] r)"
  "decode_fields tbl (enc_string_omitempty k s) r =
     (if s = [] then Some r else decode_fields tbl [(k, JStr s)] r)"
  by (simp_all add: enc_bytes_omitempty_def enc_string_omitempty_def)

lemma find_field_exact: "map_of tbl k = Some f \<Longrightarrow> find_field tbl k = Some f"
  by (simp add: find_field_def)

lemma json_ascii_omitempty [simp]:
  "list_all (\<lambda>kv. ascii (fst kv) \<and> json_ascii (snd kv)) (enc_bytes_omitempty k b) \<longleftrightarrow> b = [] \<or> ascii k"
  "list_all (\<lambda>kv. ascii (fst kv) \<and> json_ascii (snd kv)) (enc_string_omitempty k s) \<longleftrightarrow>
     s = [] \<or> ascii k \<and> ascii s"
  by (simp_all add: enc_bytes_omitempty_def enc_string_omitempty_def)

lemma decode_encode_command:
  assumes asc: "ascii_command c" and enc: "encode_command c = Some d"
  shows "decode_command d = Some c"
proof -
  from enc obtain ts where ts: "format_rfc3339 (cTimestamp c) = Some ts"
    by (auto simp: encode_command_def split: option.splits)
  define kvs where "kvs = [(''op'', JStr (cOp c)), (''chain_id'', JStr (cChainID c)),
     (''height'', JInt (sint (cHeight c))), (''round'', JInt (sint (cRound c))),
     (''step'', JInt (sint (cStep c)))] @
     enc_bytes_omitempty ''sign_bytes'' (cSignBytes c) @ enc_bytes_omitempty ''signature'' (cSignature c) @
     [(''timestamp'', JStr ts)] @ enc_string_omitempty ''cluster_id'' (cClusterID c)"
  from enc have d: "d = json_marshal (JObj kvs)" by (simp add: encode_command_def ts kvs_def)
  have "json_ascii (JObj kvs)"
    using asc by (simp add: kvs_def ascii_command_def parse_format_rfc3339(2) [OF ts])
  moreover have "json_depth (JObj kvs) \<le> Suc 0"
    unfolding json_depth_obj_le kvs_def by (auto simp: enc_bytes_omitempty_def enc_string_omitempty_def)
  then have "json_depth (JObj kvs) \<le> 10000" by linarith
  ultimately have parsed: "json_unmarshal d = Some (JObj kvs)" unfolding d by (rule json_unmarshal_marshal)
  have "decode_fields (command_fields) kvs zero_command = Some c"
    by (simp add: kvs_def decode_fields_append decode_fields_omitempty find_field_exact command_fields_def
        dec_time_JStr [OF ts] zero_command_def)
  then show ?thesis by (simp add: decode_command_def parsed decode_struct_def)
qed

text \<open>So an entry this code appended is applied as the command it was built from.\<close>

lemma Apply_encode_command:
  "ascii_command c \<Longrightarrow> encode_command c = Some d \<Longrightarrow>
   Apply cn f d = apply_command cn f c"
  by (simp add: Apply_def decode_encode_command)

subsection \<open>Canonical timestamps\<close>

text \<open>The timestamp inside canonical bytes, as \<^verbatim>\<open>onlyDiffersByTimestamp\<close> reads it.\<close>

definition canon_time :: "('p, 'v) canon \<Rightarrow> int8 \<Rightarrow> bytes \<Rightarrow> time option" where
  "canon_time cn step b =
     (if step = StepPropose then map_option (msg_timestamp (canon_proposal cn)) (unmarshal (canon_proposal cn) b)
      else map_option (msg_timestamp (canon_vote cn)) (unmarshal (canon_vote cn) b))"

definition stamped :: "('p, 'v) canon \<Rightarrow> fsm \<Rightarrow> bool" where
  "stamped cn f \<longleftrightarrow> (\<forall>chain m. mark f chain = Some m \<longrightarrow> canon_time cn (Step m) (SignBytes m) = Some (Timestamp m))"

definition reserve_stamped :: "('p, 'v) canon \<Rightarrow> command \<Rightarrow> bool" where
  "reserve_stamped cn c \<longleftrightarrow> (cOp c = opReserve \<longrightarrow> canon_time cn (cStep c) (cSignBytes c) = Some (cTimestamp c))"

lemma stampedD: "stamped cn f \<Longrightarrow> mark f chain = Some m \<Longrightarrow> canon_time cn (Step m) (SignBytes m) = Some (Timestamp m)"
  by (simp add: stamped_def)

lemma onlyDiffers_time:
  "snd (onlyDiffersByTimestamp cn last_b new_b step) \<Longrightarrow>
   canon_time cn step last_b = Some (fst (onlyDiffersByTimestamp cn last_b new_b step))"
  by (auto simp: onlyDiffersByTimestamp_def differs_by_timestamp_def canon_time_def split: if_splits option.splits)

lemma applyReserve_stamped:
  "stamped cn f \<Longrightarrow> canon_time cn (cStep c) (cSignBytes c) = Some (cTimestamp c) \<Longrightarrow> stamped cn (fst (applyReserve cn f c))"
  by (auto simp: stamped_def applyReserve_def Let_def split: option.splits prod.splits bool.splits if_splits)

lemma applyCommit_stamped: "stamped cn f \<Longrightarrow> stamped cn (fst (applyCommit f c))"
  using stampedD [of cn f "cChainID c"]
  by (auto simp: stamped_def applyCommit_def split: option.splits if_splits) force+

lemma apply_command_stamped [inv_intros]:
  "stamped cn f \<Longrightarrow> reserve_stamped cn c \<Longrightarrow> stamped cn (fst (apply_command cn f c))"
  by (auto simp: apply_command_def reserve_stamped_def applyReserve_stamped applyCommit_stamped)
    (simp_all add: stamped_def)

lemma applyReserve_time:
  assumes "stamped cn f" "applyReserve cn f c = (f', res)" "err res = None"
    and "canon_time cn (cStep c) (cSignBytes c) = Some (cTimestamp c)"
  obtains m where "mark f' (cChainID c) = Some m" "mark_hrs m = hrs_of (cHeight c) (cRound c) (cStep c)"
    "canon_time cn (cStep c) (SignBytes m) = Some (timestamp res)"
    "if reuse res then signature res = Signature m \<and> Signature m \<noteq> [] else signBytes res = SignBytes m \<and> Signature m = []"
proof (cases "case mark f (cChainID c) of None \<Rightarrow> True
    | Some m \<Rightarrow> mark_hrs m < hrs_of (cHeight c) (cRound c) (cStep c)")
  case True
  note adv = applyReserve_advance [OF this, of cn, unfolded assms(2) prod.inject]
  show thesis
    by (rule that [of "the (mark f' (cChainID c))"]) (use assms(4) in \<open>simp_all add: adv zero_applyResult_def mark_hrs_def\<close>)
next
  case False
  then obtain m where m: "mark f (cChainID c) = Some m"
    and "\<not> mark_hrs m < hrs_of (cHeight c) (cRound c) (cStep c)" by (auto split: option.splits)
  then consider "hrs_of (cHeight c) (cRound c) (cStep c) < mark_hrs m"
    | "hrs_of (cHeight c) (cRound c) (cStep c) = mark_hrs m" by (meson linorder_neqE)
  then show thesis
  proof cases
    case 1
    with m assms show thesis by (auto simp: applyReserve_regression zero_applyResult_def)
  next
    case 2
    then have st: "Step m = cStep c" by (simp add: mark_hrs_def)
    note eq = applyReserve_equal [OF m 2, of cn, unfolded assms(2)]
    have "canon_time cn (cStep c) (SignBytes m) = Some (Timestamp m)" using stampedD [OF assms(1) m] st by simp
    with eq assms(3) have "canon_time cn (cStep c) (SignBytes m) = Some (timestamp res)"
      by (auto simp: Let_def zero_applyResult_def onlyDiffers_time split: if_splits)
    moreover from eq assms(3) have
      "if reuse res then signature res = Signature m \<and> Signature m \<noteq> [] else signBytes res = SignBytes m \<and> Signature m = []"
      by (auto simp: Let_def zero_applyResult_def split: if_splits)
    ultimately show thesis using eq m 2 by (intro that [of m]) auto
  qed
qed

subsection \<open>Properties\<close>

text \<open>C6: a replica never moves a mark back. Whatever bytes the log holds, applying more of it leaves
  every chain's high-water mark in place or moves it to a higher height, round and step; while the
  mark stays, its sign bytes and timestamp are fixed and a recorded signature is kept.\<close>

theorem marks_never_move_back:
  "mark_le (mark (run_log cn newFSM ds) chain) (mark (run_log cn newFSM (ds @ ds')) chain)"
  by (simp add: run_log_append run_log_mark_le)

text \<open>C5: the exact gate. A reservation is granted if and only if its chain has no mark, or the
  request is above the mark in height, round, step order (as signed integers), or it is at the mark
  with the same bytes or bytes that differ only by their timestamp. A request below the mark is
  refused as a regression, any other one as a conflict, and a refusal changes nothing.\<close>

theorem reserve_gate:
  "case mark f (cChainID c) of
     None \<Rightarrow> err (snd (applyReserve cn f c)) = None
   | Some m \<Rightarrow>
       let req = hrs_of (cHeight c) (cRound c) (cStep c);
           same = SignBytes m = cSignBytes c \<or>
             snd (onlyDiffersByTimestamp cn (SignBytes m) (cSignBytes c) (cStep c)) in
       if mark_hrs m < req \<or> mark_hrs m = req \<and> same then err (snd (applyReserve cn f c)) = None
       else applyReserve cn f c =
         (f, refuse (Sentinel (if req < mark_hrs m then ErrRegression else ErrConflict)))"
proof (cases "mark f (cChainID c)")
  case None
  then show ?thesis using applyReserve_advance [where f = f and c = c and cn = cn] by (simp add: zero_applyResult_def)
next
  case (Some m)
  consider "mark_hrs m < hrs_of (cHeight c) (cRound c) (cStep c)" | "hrs_of (cHeight c) (cRound c) (cStep c) < mark_hrs m"
    | "hrs_of (cHeight c) (cRound c) (cStep c) = mark_hrs m" by (meson linorder_neqE)
  then show ?thesis
  proof cases
    case 1
    with Some show ?thesis using applyReserve_advance [where f = f and c = c and cn = cn] by (simp add: zero_applyResult_def)
  next
    case 2
    then have "\<not> mark_hrs m < hrs_of (cHeight c) (cRound c) (cStep c)" "mark_hrs m \<noteq> hrs_of (cHeight c) (cRound c) (cStep c)"
      by (auto dest: order_less_asym)
    with Some 2 show ?thesis by (simp add: applyReserve_regression)
  next
    case 3
    from applyReserve_equal [OF Some 3, of cn] show ?thesis
      by (auto simp: Some 3 Let_def zero_applyResult_def)
  qed
qed

text \<open>An appended command is the command applied. Encoding a command whose strings are ASCII as
  JSON and applying the entry is applying the command itself, for every height, round, step, byte
  string and timestamp that can be marshalled.\<close>

theorem appended_command_is_applied:
  assumes "ascii_command c" and "encode_command c = Some d"
  shows "decode_command d = Some c \<and> Apply cn f d = apply_command cn f c"
  using assms by (simp add: decode_encode_command Apply_encode_command)

definition ex_command :: command where
  "ex_command = zero_command\<lparr>cOp := opReserve, cChainID := ''c'', cHeight := 5, cStep := StepPrevote, cSignBytes := ''x''\<rparr>"

text \<open>A message that is its own timestamp, in unary.\<close>

definition ex_time_canon :: "(nat, nat) canon" where
  "ex_time_canon = (let m = \<lparr>unmarshal = (\<lambda>b. Some (length b)), msg_timestamp = int, with_timestamp = (\<lambda>t _. nat t),
     proto_equal = (=)\<rparr> in \<lparr>canon_proposal = m, canon_vote = m\<rparr>)"

lemma format_zero_time: "format_rfc3339 zero_time = Some ''0001-01-01T00:00:00Z''"
  by code_simp

lemma ex_command_encodes: obtains d where "encode_command ex_command = Some d"
  by (simp add: encode_command_def ex_command_def zero_command_def format_zero_time)

theorem appended_command_is_applied_witness:
  "\<exists>d. encode_command ex_command = Some d \<and> decode_command d = Some ex_command"
proof -
  obtain d where d: "encode_command ex_command = Some d" by (rule ex_command_encodes)
  have "ascii_command ex_command" by (simp add: ascii_command_def ex_command_def zero_command_def opReserve_def)
  from appended_command_is_applied [OF this d] d show ?thesis by blast
qed

text \<open>A committed signature is reused. Once a commit for a height, round and step has succeeded
  with a non-empty signature, reserving the same bytes again hands out that signature with the
  mark's timestamp and changes nothing, so the backend is not asked again.\<close>

theorem committed_signature_is_reused:
  assumes "applyCommit f c = (f', res)" and "err res = None" and "cSignature c \<noteq> []"
    and "cChainID q = cChainID c" "cHeight q = cHeight c" "cRound q = cRound c" "cStep q = cStep c"
    and "cSignBytes q = cSignBytes c"
  shows "\<exists>ts. applyReserve cn f' q =
    (f', zero_applyResult\<lparr>reuse := True, signature := cSignature c, timestamp := ts\<rparr>)"
proof -
  obtain m where m: "mark_hrs m = hrs_of (cHeight c) (cRound c) (cStep c)" "SignBytes m = cSignBytes c"
    "mark f' (cChainID c) = Some (m\<lparr>Signature := cSignature c\<rparr>)" using applyCommit_ok [OF assms(1,2)] .
  have eq: "hrs_of (cHeight q) (cRound q) (cStep q) = mark_hrs (m\<lparr>Signature := cSignature c\<rparr>)"
    using m(1) assms(5-7) by (simp add: mark_hrs_def)
  show ?thesis using applyReserve_equal [OF _ eq, of f' cn] m assms(3,4,8)
    by (intro exI [of _ "Timestamp m"]) (simp add: Let_def)
qed

theorem committed_signature_is_reused_witness:
  "\<exists>f ts. mark f ''c'' \<noteq> None \<and> applyReserve ex_time_canon f ex_command =
     (f, zero_applyResult\<lparr>reuse := True, signature := ''s'', timestamp := ts\<rparr>)"
proof -
  define f0 where "f0 = fst (applyReserve ex_time_canon newFSM ex_command)"
  obtain f res where c: "applyCommit f0 (ex_command\<lparr>cSignature := ''s''\<rparr>) = (f, res)" by fastforce
  have "mark f0 ''c'' = Some \<lparr>Height = 5, Round = 0, Step = StepPrevote, SignBytes = ''x'', Signature = [], Timestamp = zero_time\<rparr>"
    by (simp add: f0_def applyReserve_def ex_command_def zero_command_def Let_def)
  with c have res: "err res = None" "mark f ''c'' \<noteq> None"
    by (auto simp: applyCommit_def ex_command_def zero_command_def zero_applyResult_def)
  show ?thesis
    using committed_signature_is_reused [OF c res(1), of ex_command ex_time_canon] res(2)
    by (intro exI [of _ f]) (simp add: ex_command_def zero_command_def)
qed

text \<open>C9: the timestamp handed out is the signed one. If every reservation in the log carries the
  timestamp its bytes encode, and so does the request, then each grant returns the timestamp encoded in
  the bytes it hands out for signing, and each answered retry the timestamp encoded in the bytes whose
  recorded signature it hands out, also when the request differed from them in its timestamp. The bytes
  and the signature are those of the chain's mark at the request's height, round and step.\<close>

theorem granted_timestamp_is_signed_timestamp:
  assumes "\<And>c. c \<in> set cs \<Longrightarrow> reserve_stamped cn c"
    and "f = fold (\<lambda>c f. fst (apply_command cn f c)) cs newFSM"
    and "canon_time cn (cStep q) (cSignBytes q) = Some (cTimestamp q)"
    and "applyReserve cn f q = (f', res)" and "err res = None"
  shows "\<exists>m. mark f' (cChainID q) = Some m \<and> mark_hrs m = hrs_of (cHeight q) (cRound q) (cStep q) \<and>
    (if reuse res
     then signature res = Signature m \<and> Signature m \<noteq> [] \<and> canon_time cn (cStep q) (SignBytes m) = Some (timestamp res)
     else signBytes res = SignBytes m \<and> canon_time cn (cStep q) (signBytes res) = Some (timestamp res))"
proof -
  have "stamped cn (fold (\<lambda>c f. fst (apply_command cn f c)) xs g)" if "stamped cn g" "set xs \<subseteq> set cs" for g xs
    using that by (induction xs arbitrary: g) (simp_all add: assms(1) apply_command_stamped)
  from this [of newFSM cs] have "stamped cn f" unfolding assms(2) by (simp add: stamped_def [of cn newFSM])
  from applyReserve_time [OF this assms(4,5,3)] show ?thesis by metis
qed

theorem granted_timestamp_is_signed_timestamp_witness:
  "\<exists>f f' res m. applyReserve ex_time_canon f (ex_command\<lparr>cSignBytes := ''xyz'', cTimestamp := 3\<rparr>) = (f', res) \<and>
     err res = None \<and> mark f' ''c'' = Some m \<and> SignBytes m = ''x'' \<and> signBytes res = ''x'' \<and> timestamp res = 1"
proof -
  let ?c = "ex_command\<lparr>cTimestamp := 1\<rparr>" let ?q = "ex_command\<lparr>cSignBytes := ''xyz'', cTimestamp := 3\<rparr>"
  define f where "f = fold (\<lambda>c f. fst (apply_command ex_time_canon f c)) [?c] newFSM"
  have ap: "apply_command cn g ?c = applyReserve cn g ?c" for cn :: "(nat, nat) canon" and g
    by (simp add: apply_command_def ex_command_def)
  have mk: "mark f ''c'' = Some \<lparr>Height = 5, Round = 0, Step = StepPrevote, SignBytes = ''x'', Signature = [], Timestamp = 1\<rparr>"
    by (simp add: f_def ap) (simp add: applyReserve_def ex_command_def zero_command_def Let_def)
  obtain f' res where r: "applyReserve ex_time_canon f ?q = (f', res)" by fastforce
  have e: "f' = f \<and> err res = None"
    using r mk by (auto simp: applyReserve_def ex_command_def zero_command_def compareHRS_def Let_def
        onlyDiffersByTimestamp_def differs_by_timestamp_def ex_time_canon_def zero_applyResult_def zero_time_def
        StepPrevote_def StepPropose_def)
  with granted_timestamp_is_signed_timestamp [OF _ f_def _ r] mk
  have "signBytes res = ''x'' \<and> canon_time ex_time_canon StepPrevote ''x'' = Some (timestamp res)"
    by (auto simp: Let_def reserve_stamped_def canon_time_def ex_time_canon_def ex_command_def zero_command_def
        StepPrevote_def StepPropose_def split: if_splits)
  with e r mk show ?thesis
    by (intro exI [of _ f]) (auto simp: Let_def canon_time_def ex_time_canon_def StepPrevote_def StepPropose_def)
qed

end
