(* ===== verification/Snapshot.thy ===== *)
theory Snapshot
  imports Fsm
begin

section \<open>Snapshots (internal/state/snapshot.go)\<close>

text \<open>
  \<open>Snapshot\<close> writes the magic line and a JSON object with the cluster identity and the marks,
  chains in key order as \<^verbatim>\<open>encoding/json\<close> emits a map. \<open>Restore\<close> accepts that format, refuses
  another \<^verbatim>\<open>cosmosigner-state-v\<close> version, still reads the older bare map, and replaces the
  state only if every check passes; the reader's failure is the \<open>None\<close> of its input.
\<close>

subsection \<open>Definitions\<close>

definition snapshotMagic :: bytes where
  "snapshotMagic = ''cosmosigner-state-v1'' @ [CHR 0x0A]"

definition snapshotFamily :: bytes where
  "snapshotFamily = ''cosmosigner-state-v''"

definition SignState_fields :: "SignState fields" where
  "SignState_fields =
     [(''height'', \<lambda>j s. map_option (\<lambda>x. s\<lparr>Height := x\<rparr>) (dec_int (Height s) j)),
      (''round'', \<lambda>j s. map_option (\<lambda>x. s\<lparr>Round := x\<rparr>) (dec_int (Round s) j)),
      (''step'', \<lambda>j s. map_option (\<lambda>x. s\<lparr>Step := x\<rparr>) (dec_int (Step s) j)),
      (''sign_bytes'', \<lambda>j s. map_option (\<lambda>x. s\<lparr>SignBytes := x\<rparr>) (dec_bytes (SignBytes s) j)),
      (''signature'', \<lambda>j s. map_option (\<lambda>x. s\<lparr>Signature := x\<rparr>) (dec_bytes (Signature s) j)),
      (''timestamp'', \<lambda>j s. map_option (\<lambda>x. s\<lparr>Timestamp := x\<rparr>) (dec_time (Timestamp s) j))]"

definition encode_SignState :: "SignState \<Rightarrow> json option" where
  "encode_SignState s =
     map_option (\<lambda>ts. JObj (
       [(''height'', JInt (sint (Height s))), (''round'', JInt (sint (Round s))),
        (''step'', JInt (sint (Step s)))] @
       enc_bytes_omitempty ''sign_bytes'' (SignBytes s) @
       enc_bytes_omitempty ''signature'' (Signature s) @
       [(''timestamp'', JStr ts)])) (format_rfc3339 (Timestamp s))"

fun encode_state :: "(string \<times> SignState) list \<Rightarrow> (string \<times> json) list option" where
  "encode_state [] = Some []"
| "encode_state ((k, s) # xs) =
     (case (encode_SignState s, encode_state xs) of
        (Some j, Some js) \<Rightarrow> Some ((k, j) # js)
      | _ \<Rightarrow> None)"

definition Snapshot :: "fsm \<Rightarrow> bytes result" where
  "Snapshot f =
     (case encode_state (sort_key fst (fstate f)) of
        None \<Rightarrow> Inl (errors_New ''json marshal'')
      | Some kvs \<Rightarrow>
          Inr (snapshotMagic @ json_marshal
                 (JObj [(''cluster_id'', JStr (clusterID f)), (''state'', JObj kvs)])))"

record envelope =
  eClusterID :: "string option"
  eState :: "json option"

definition envelope_fields :: "envelope fields" where
  "envelope_fields =
     [(''cluster_id'', \<lambda>j e. case j of
         JNull \<Rightarrow> Some (e\<lparr>eClusterID := None\<rparr>)
       | JStr s \<Rightarrow> Some (e\<lparr>eClusterID := Some s\<rparr>)
       | _ \<Rightarrow> None),
      (''state'', \<lambda>j e. Some (e\<lparr>eState := Some j\<rparr>))]"

text \<open>A map of pointers: null decodes to a nil pointer, anything else into a fresh zero value.\<close>

fun decode_state :: "(string \<times> json) list \<Rightarrow> (string \<times> SignState option) list \<Rightarrow>
    (string \<times> SignState option) list option" where
  "decode_state [] acc = Some acc"
| "decode_state ((k, j) # kvs) acc =
     (if j = JNull then decode_state kvs (AList.update k None acc)
      else (case decode_struct (SignState_fields) zero_SignState j of
        None \<Rightarrow> None
      | Some s \<Rightarrow> decode_state kvs (AList.update k (Some s) acc)))"

text \<open>The decoded map: an outer \<open>None\<close> is a JSON error, an inner one the nil map of a JSON null.\<close>

definition decode_state_map :: "json \<Rightarrow> (string \<times> SignState option) list option option" where
  "decode_state_map j =
     (case j of
        JNull \<Rightarrow> Some None
      | JObj kvs \<Rightarrow> map_option Some (decode_state kvs [])
      | _ \<Rightarrow> None)"

definition decode_versioned :: "bytes \<Rightarrow> (string \<times> (string \<times> SignState option) list option) result" where
  "decode_versioned payload =
     (case json_unmarshal payload of
        None \<Rightarrow> Inl (errors_New ''decode snapshot'')
      | Some j \<Rightarrow>
       (case decode_struct envelope_fields \<lparr>eClusterID = None, eState = None\<rparr> j of
          None \<Rightarrow> Inl (errors_New ''decode snapshot'')
        | Some env \<Rightarrow>
         (case eClusterID env of
            None \<Rightarrow> Inl (errors_New ''decode snapshot: cluster_id must be a string'')
          | Some cid \<Rightarrow>
              if cid \<noteq> [] \<and> \<not> valid_id cid
              then Inl (Errorf ''decode snapshot: invalid cluster_id'' (case Validate cid of Some e \<Rightarrow> [e] | None \<Rightarrow> []))
              else (case eState env of
                None \<Rightarrow> Inl (errors_New ''decode snapshot: state field is required'')
              | Some st \<Rightarrow> (case decode_state_map st of
                  None \<Rightarrow> Inl (errors_New ''decode snapshot'')
                | Some m \<Rightarrow> Inr (cid, m))))))"

definition decode_snapshot :: "bytes \<Rightarrow> (string \<times> (string \<times> SignState option) list option) result" where
  "decode_snapshot data =
     (if take (length snapshotFamily) data = snapshotFamily then
        (if take (length snapshotMagic) data \<noteq> snapshotMagic
         then Inl (errors_New ''decode snapshot: unsupported snapshot format version'')
         else decode_versioned (drop (length snapshotMagic) data))
      else (case json_unmarshal data of
          None \<Rightarrow> Inl (errors_New ''decode snapshot'')
        | Some j \<Rightarrow> (case decode_state_map j of
            None \<Rightarrow> Inl (errors_New ''decode snapshot'')
          | Some m \<Rightarrow> Inr ([], m))))"

definition Restore :: "fsm \<Rightarrow> bytes option \<Rightarrow> fsm result" where
  "Restore f input =
     (case input of
        None \<Rightarrow> Inl (errors_New ''read snapshot'')
      | Some data \<Rightarrow>
       (case decode_snapshot data of
          Inl e \<Rightarrow> Inl e
        | Inr (cid, None) \<Rightarrow> Inl (errors_New ''decode snapshot: state must be a JSON object'')
        | Inr (cid, Some st) \<Rightarrow>
            if list_ex (\<lambda>kv. snd kv = None) st
            then Inl (errors_New ''decode snapshot: state for chain must not be null'')
            else if clusterID f \<noteq> [] \<and> cid \<noteq> clusterID f then
              (if cid = []
               then Inl (errors_New ''restore snapshot without cluster identity over initialized FSM'')
               else Inl (errors_New ''restore snapshot cluster identity does not match initialized identity''))
            else Inr (f\<lparr>clusterID := cid, fstate := map (\<lambda>kv. (fst kv, the (snd kv))) st\<rparr>)))"

text \<open>\<open>Persist\<close> writes the captured bytes to raft's sink; a failed write cancels it.\<close>

datatype sink_call = SinkWrite bytes | SinkCancel | SinkClose

definition Persist :: "go_error option \<Rightarrow> go_error option \<Rightarrow> bytes \<Rightarrow> sink_call list \<times> go_error option" where
  "Persist write_err close_err data =
     (case write_err of
        Some e \<Rightarrow> ([SinkWrite data, SinkCancel], Some e)
      | None \<Rightarrow> ([SinkWrite data, SinkClose], close_err))"

definition ascii_chains :: "fsm \<Rightarrow> bool" where
  "ascii_chains f \<longleftrightarrow> list_all (\<lambda>kv. ascii (fst kv)) (fstate f)"

subsection \<open>A snapshot round-trips\<close>

lemma encode_SignState_obj:
  assumes enc: "encode_SignState s = Some j"
  shows "json_ascii j" "json_depth j \<le> Suc 0" "j \<noteq> JNull" "decode_struct (SignState_fields) zero_SignState j = Some s"
proof -
  from enc obtain ts where ts: "format_rfc3339 (Timestamp s) = Some ts"
    by (auto simp: encode_SignState_def)
  note asc = parse_format_rfc3339(2) [OF ts]
  show "json_depth j \<le> Suc 0" using enc
    by (auto simp: encode_SignState_def ts foldr_max_le enc_bytes_omitempty_def)
  show "json_ascii j" "j \<noteq> JNull" using enc asc by (auto simp: encode_SignState_def ts)
  show "decode_struct (SignState_fields) zero_SignState j = Some s"
    using enc by (auto simp: encode_SignState_def ts decode_struct_def decode_fields_append
        decode_fields_omitempty find_field_exact SignState_fields_def dec_time_JStr [OF ts]
        zero_SignState_def)
qed

lemma decode_encode_state:
  assumes "encode_state xs = Some kvs" and "distinct (map fst xs)"
    and "fst ` set xs \<inter> fst ` set acc = {}"
  shows "decode_state kvs acc = Some (acc @ map (\<lambda>(k, s). (k, Some s)) xs)"
  using assms
proof (induction xs arbitrary: kvs acc)
  case Nil
  then show ?case by simp
next
  case (Cons x xs)
  obtain k s where x: "x = (k, s)" by (cases x)
  with Cons.prems(1) obtain j js where kvs: "kvs = (k, j) # js" and j: "encode_SignState s = Some j"
    and js: "encode_state xs = Some js" by (auto split: option.splits)
  have "decode_state js (acc @ [(k, Some s)]) =
      Some ((acc @ [(k, Some s)]) @ map (\<lambda>(k, s). (k, Some s)) xs)"
    using Cons.prems js by (intro Cons.IH) (auto simp: x)
  then show ?case using Cons.prems(3) encode_SignState_obj [OF j] by (simp add: kvs x update_fresh)
qed

lemma encode_state_ascii:
  shows "encode_state xs = Some kvs \<Longrightarrow> list_all (\<lambda>kv. ascii (fst kv)) xs \<Longrightarrow> json_ascii (JObj kvs)"
proof (induction xs arbitrary: kvs)
  case Nil
  then show ?case by simp
next
  case (Cons x xs)
  obtain k s where x: "x = (k, s)" by (cases x)
  with Cons.prems(1) obtain j js where kvs: "kvs = (k, j) # js" and j: "encode_SignState s = Some j"
    and js: "encode_state xs = Some js" by (auto split: option.splits)
  from Cons.IH [OF js] Cons.prems(2) encode_SignState_obj(1) [OF j] show ?case by (simp add: kvs x)
qed

lemma encode_state_depth: "encode_state xs = Some kvs \<Longrightarrow> json_depth (JObj kvs) \<le> Suc (Suc 0)"
proof (induction xs arbitrary: kvs)
  case Nil
  then show ?case by simp
next
  case (Cons x xs)
  obtain k s where x: "x = (k, s)" by (cases x)
  with Cons.prems(1) obtain j js where kvs: "kvs = (k, j) # js" and j: "encode_SignState s = Some j"
    and js: "encode_state xs = Some js" by (auto split: option.splits)
  from Cons.IH [OF js] encode_SignState_obj(2) [OF j] show ?case by (simp add: kvs json_depth_obj_le del: json_depth.simps)
qed

lemma validate_from_ascii: "validate_from i s \<Longrightarrow> ascii s"
  by (induction i s rule: validate_from.induct)
    (auto simp: lower_hex_def less_eq_char_def split: if_splits)

lemma wf_fsm_id_ascii: "wf_fsm f \<Longrightarrow> ascii (clusterID f)"
  by (auto simp: wf_fsm_def Validate_def intro: validate_from_ascii split: if_splits)

lemma Restore_Snapshot:
  assumes wf: "wf_fsm f" and asc: "ascii_chains f"
    and snap: "Snapshot f = Inr data" and g: "clusterID g = [] \<or> clusterID g = clusterID f"
  shows "Restore g (Some data) = Inr (g\<lparr>clusterID := clusterID f, fstate := sort_key fst (fstate f)\<rparr>)"
proof -
  let ?xs = "sort_key fst (fstate f)"
  from snap obtain kvs where kvs: "encode_state ?xs = Some kvs"
    by (auto simp: Snapshot_def split: option.splits)
  let ?j = "JObj [(''cluster_id'', JStr (clusterID f)), (''state'', JObj kvs)]"
  have data: "data = snapshotMagic @ json_marshal ?j" using snap by (simp add: Snapshot_def kvs)
  have "json_ascii ?j"
    using encode_state_ascii [OF kvs] asc wf_fsm_id_ascii [OF wf]
    by (simp add: ascii_chains_def list_all_iff)
  moreover have "json_depth ?j \<le> Suc (Suc (Suc 0))"
    using encode_state_depth [OF kvs] by (simp add: json_depth_obj_le del: json_depth.simps) simp
  then have "json_depth ?j \<le> 10000" by linarith
  ultimately have parsed: "json_unmarshal (json_marshal ?j) = Some ?j" by (rule json_unmarshal_marshal)
  have st: "decode_state_map (JObj kvs) = Some (Some (map (\<lambda>(k, s). (k, Some s)) ?xs))"
    using decode_encode_state [OF kvs, of "[]"] wf by (simp add: decode_state_map_def wf_fsm_def)
  have "decode_versioned (json_marshal ?j) = Inr (clusterID f, Some (map (\<lambda>(k, s). (k, Some s)) ?xs))"
    using wf by (auto simp: decode_versioned_def parsed decode_struct_def find_field_exact envelope_fields_def
        st wf_fsm_def)
  then have "decode_snapshot data = Inr (clusterID f, Some (map (\<lambda>(k, s). (k, Some s)) ?xs))"
    by (simp add: decode_snapshot_def data snapshotMagic_def snapshotFamily_def)
  then show ?thesis using g
    by (auto simp: Restore_def list_ex_iff comp_def case_prod_beta)
qed

lemma Restore_Snapshot_marks:
  assumes "wf_fsm f" "ascii_chains f" "Snapshot f = Inr data"
    and "clusterID g = [] \<or> clusterID g = clusterID f"
  obtains f' where "Restore g (Some data) = Inr f'" "mark f' = mark f" "clusterID f' = clusterID f"
    "wf_fsm f'"
proof
  let ?f' = "g\<lparr>clusterID := clusterID f, fstate := sort_key fst (fstate f)\<rparr>"
  show "Restore g (Some data) = Inr ?f'" by (rule Restore_Snapshot [OF assms])
  show "mark ?f' = mark f" "clusterID ?f' = clusterID f" "wf_fsm ?f'"
    using assms(1) by (simp_all add: mark_def fun_eq_iff wf_fsm_def map_of_sort_key)
qed

subsection \<open>What a restored state satisfies\<close>

lemma decode_state_distinct:
  "distinct (map fst acc) \<Longrightarrow> decode_state kvs acc = Some st \<Longrightarrow> distinct (map fst st)"
  by (induction kvs acc rule: decode_state.induct)
    (auto simp: distinct_update split: if_splits option.splits)

lemma decode_snapshot_wf:
  assumes "decode_snapshot data = Inr (cid, Some st)"
  shows "distinct (map fst st)" "cid = [] \<or> valid_id cid"
  using assms
  by (auto simp: decode_snapshot_def decode_versioned_def decode_state_map_def
      dest: decode_state_distinct [of "[]", simplified]
      split: if_splits option.splits json.splits)

lemma Restore_ok:
  assumes "Restore f input = Inr f'"
  shows "wf_fsm f'" "clusterID f = [] \<or> clusterID f' = clusterID f"
proof -
  from assms obtain data cid st where d: "decode_snapshot data = Inr (cid, Some st)"
    and f': "f' = f\<lparr>clusterID := cid, fstate := map (\<lambda>kv. (fst kv, the (snd kv))) st\<rparr>"
    and "clusterID f = [] \<or> cid = clusterID f"
    by (auto simp: Restore_def split: option.splits sum.splits if_splits)
  then show "clusterID f = [] \<or> clusterID f' = clusterID f" by simp
  show "wf_fsm f'" using decode_snapshot_wf [OF d] by (simp add: f' wf_fsm_def comp_def)
qed

subsection \<open>The life of a replica\<close>

text \<open>A replica's state changes by log entries and by snapshot installs only, in any order and with
  any bytes. A restore that fails returns before the state is replaced.\<close>

inductive replica_step :: "('p, 'v) canon \<Rightarrow> fsm \<Rightarrow> fsm \<Rightarrow> bool" for cn where
  entry: "replica_step cn f (fst (Apply cn f d))"
| install: "Restore f input = Inr f' \<Longrightarrow> replica_step cn f f'"

inductive_cases replica_stepE: "replica_step cn f f'"

lemma replica_step_wf [inv_intros]: "replica_step cn f f' \<Longrightarrow> wf_fsm f \<Longrightarrow> wf_fsm f'"
  by (erule replica_stepE) (auto intro: inv_intros Restore_ok)

lemma replica_step_clusterID: "replica_step cn f f' \<Longrightarrow> clusterID f \<noteq> [] \<Longrightarrow> clusterID f' = clusterID f"
  by (erule replica_stepE) (auto simp: Apply_clusterID dest: Restore_ok(2))

lemma replica_steps_wf: "(replica_step cn)\<^sup>*\<^sup>* f f' \<Longrightarrow> wf_fsm f \<Longrightarrow> wf_fsm f'"
  by (induction rule: rtranclp_induct) (auto intro: inv_intros)

lemma replica_steps_clusterID:
  "(replica_step cn)\<^sup>*\<^sup>* f f' \<Longrightarrow> clusterID f \<noteq> [] \<Longrightarrow> clusterID f' = clusterID f"
  by (induction rule: rtranclp_induct) (auto simp: replica_step_clusterID)

subsection \<open>Properties\<close>

text \<open>C7: a snapshot restores the state it was taken from. Restoring a snapshot of a well-formed
  state whose chain ids are ASCII over a replica with the same identity, or none, succeeds and gives back every chain's mark,
  with its bytes, signature and timestamp, and the identity.\<close>

theorem snapshot_round_trip:
  assumes "wf_fsm f" and "ascii_chains f" and "Snapshot f = Inr data"
    and "clusterID g = [] \<or> clusterID g = clusterID f"
  shows "\<exists>f'. Restore g (Some data) = Inr f' \<and> mark f' = mark f \<and> clusterID f' = clusterID f \<and> wf_fsm f'"
  using Restore_Snapshot_marks [OF assms] by metis

definition ex_fsm :: fsm where
  "ex_fsm = \<lparr>clusterID = [],
     fstate = [(''c'', \<lparr>Height = 5, Round = 0, Step = 2, SignBytes = ''x'', Signature = ''s'', Timestamp = zero_time\<rparr>)]\<rparr>"

theorem snapshot_round_trip_witness:
  "\<exists>data f'. Snapshot ex_fsm = Inr data \<and> Restore newFSM (Some data) = Inr f' \<and> mark f' = mark ex_fsm"
proof -
  obtain data where d: "Snapshot ex_fsm = Inr data"
    by (simp add: Snapshot_def ex_fsm_def encode_SignState_def format_zero_time)
  have "wf_fsm ex_fsm" "ascii_chains ex_fsm" by (simp_all add: wf_fsm_def ascii_chains_def ex_fsm_def)
  from snapshot_round_trip [OF this d, of newFSM] d show ?thesis by (auto simp: newFSM_def)
qed

text \<open>C8: every replica state is well formed. From the empty state, through any log entries and any
  snapshot installs, a replica holds one mark per chain and no identity or a canonical one; an entry
  it answers with an error changes nothing; and once its identity is set, nothing that follows
  changes it.\<close>

theorem replica_states_well_formed:
  assumes "(replica_step cn)\<^sup>*\<^sup>* newFSM f"
  shows "wf_fsm f \<and> (\<forall>d. err (snd (Apply cn f d)) \<noteq> None \<longrightarrow> fst (Apply cn f d) = f) \<and>
    (clusterID f = [] \<or> (\<forall>f'. (replica_step cn)\<^sup>*\<^sup>* f f' \<longrightarrow> clusterID f' = clusterID f))"
proof (intro conjI)
  show "wf_fsm f" by (rule replica_steps_wf [OF assms wf_newFSM])
  show "\<forall>d. err (snd (Apply cn f d)) \<noteq> None \<longrightarrow> fst (Apply cn f d) = f"
    by (intro allI impI Apply_error_unchanged)
  show "clusterID f = [] \<or> (\<forall>f'. (replica_step cn)\<^sup>*\<^sup>* f f' \<longrightarrow> clusterID f' = clusterID f)"
    by (intro disj_imp [THEN iffD2] impI allI replica_steps_clusterID)
qed

theorem replica_states_well_formed_witness:
  "\<exists>f. (replica_step ex_time_canon)\<^sup>*\<^sup>* newFSM f \<and> wf_fsm f \<and> mark f ''c'' = mark ex_fsm ''c''"
proof -
  obtain data where d: "Snapshot ex_fsm = Inr data"
    by (simp add: Snapshot_def ex_fsm_def encode_SignState_def format_zero_time)
  have "wf_fsm ex_fsm" "ascii_chains ex_fsm" by (simp_all add: wf_fsm_def ascii_chains_def ex_fsm_def)
  from Restore_Snapshot_marks [OF this d, of newFSM] obtain f' where
    r: "Restore newFSM (Some data) = Inr f'" and m: "mark f' = mark ex_fsm" by (auto simp: newFSM_def)
  have "(replica_step ex_time_canon)\<^sup>*\<^sup>* newFSM f'" by (intro r_into_rtranclp replica_step.install [OF r])
  then have "wf_fsm f'" by (rule replica_states_well_formed [THEN conjunct1])
  with \<open>(replica_step ex_time_canon)\<^sup>*\<^sup>* newFSM f'\<close> m show ?thesis by (intro exI [of _ f']) simp
qed

end
