(* ===== verification/RaftStore.thy ===== *)
theory RaftStore
  imports Snapshot
begin

section \<open>The raft-backed store (internal/state/raftstore.go)\<close>

text \<open>
  \<open>raftStore\<close>'s operations over the replicated state machine. The hashicorp/raft library is a
  parameter: an operation receives what the library reports while it runs. For one
  \<^verbatim>\<open>raft.Apply\<close> that is a \<open>raft_outcome\<close>: the entry was committed and applied and its response
  delivered; the call failed and the entry will never be in the log; or the call failed (leadership
  lost, timeout) although the entry is committed. The last two are both errors to the caller, which
  cannot tell them apart. The state threaded through is the state machine at the head of the
  committed log.
\<close>

subsection \<open>Roles and appending entries\<close>

datatype raft_role = Follower | Candidate | Leader | Shutdown

datatype raft_outcome = Committed | NotCommitted go_error | CommittedLost go_error

record raft_env =
  role :: raft_role
  outcome :: raft_outcome

text \<open>\<^verbatim>\<open>(*raftStore).apply\<close>: marshal, append, and read the response.\<close>

definition store_apply ::
  "('p, 'v) canon \<Rightarrow> raft_outcome \<Rightarrow> fsm \<Rightarrow> command \<Rightarrow> fsm \<times> applyResult result" where
  "store_apply cn out f c =
     (case encode_command c of
        None \<Rightarrow> (f, Inl (errors_New ''marshal command''))
      | Some d \<Rightarrow>
       (case out of
          NotCommitted e \<Rightarrow> (f, Inl e)
        | CommittedLost e \<Rightarrow> (fst (Apply cn f d), Inl e)
        | Committed \<Rightarrow>
            (let (f', res) = Apply cn f d in
             (f', case err res of Some e \<Rightarrow> Inl e | None \<Rightarrow> Inr res))))"

definition reserve_command ::
  "string \<Rightarrow> int64 \<Rightarrow> int32 \<Rightarrow> int8 \<Rightarrow> bytes \<Rightarrow> time \<Rightarrow> command" where
  "reserve_command chain h r s b ts =
     zero_command\<lparr>cOp := opReserve, cChainID := chain, cHeight := h, cRound := r, cStep := s,
       cSignBytes := b, cTimestamp := ts\<rparr>"

definition commit_command ::
  "string \<Rightarrow> int64 \<Rightarrow> int32 \<Rightarrow> int8 \<Rightarrow> bytes \<Rightarrow> bytes \<Rightarrow> command" where
  "commit_command chain h r s b sig =
     zero_command\<lparr>cOp := opCommit, cChainID := chain, cHeight := h, cRound := r, cStep := s,
       cSignBytes := b, cSignature := sig\<rparr>"

definition Reserve ::
  "('p, 'v) canon \<Rightarrow> raft_env \<Rightarrow> fsm \<Rightarrow>
   string \<Rightarrow> int64 \<Rightarrow> int32 \<Rightarrow> int8 \<Rightarrow> bytes \<Rightarrow> time \<Rightarrow> fsm \<times> ReserveResult result" where
  "Reserve cn env f chain h r s b ts =
     (if role env \<noteq> Leader then (f, Inl (Sentinel ErrNotLeader))
      else (case store_apply cn (outcome env) f (reserve_command chain h r s b ts) of
          (f', Inl e) \<Rightarrow> (f', Inl e)
        | (f', Inr res) \<Rightarrow>
            (f', Inr \<lparr>Reuse = reuse res, rSignBytes = signBytes res, rSignature = signature res,
                      rTimestamp = timestamp res\<rparr>)))"

definition Commit ::
  "('p, 'v) canon \<Rightarrow> raft_env \<Rightarrow> fsm \<Rightarrow>
   string \<Rightarrow> int64 \<Rightarrow> int32 \<Rightarrow> int8 \<Rightarrow> bytes \<Rightarrow> bytes \<Rightarrow> fsm \<times> go_error option" where
  "Commit cn env f chain h r s b sig =
     (if role env \<noteq> Leader then (f, Some (Sentinel ErrNotLeader))
      else (case store_apply cn (outcome env) f (commit_command chain h r s b sig) of
          (f', Inl e) \<Rightarrow> (f', Some e)
        | (f', Inr res) \<Rightarrow> (f', None)))"

definition Get :: "fsm \<Rightarrow> string \<Rightarrow> SignState result" where
  "Get f chain = (case fsm_get f chain of None \<Rightarrow> Inl (Sentinel ErrNoState) | Some st \<Rightarrow> Inr st)"

definition IsLeader :: "raft_role \<Rightarrow> bool" where
  "IsLeader ro \<longleftrightarrow> ro = Leader"

fun RaftState :: "raft_role \<Rightarrow> string" where
  "RaftState Follower = ''follower''"
| "RaftState Candidate = ''candidate''"
| "RaftState Leader = ''leader''"
| "RaftState Shutdown = ''shutdown''"

subsection \<open>The store's contract\<close>

text \<open>
  What the signer relies on of a \<^verbatim>\<open>StateStore\<close>, whatever the environment argument \<open>'o\<close> (the
  raft library's behaviour during the call) does: marks only move up, whether or not the call
  reports success; a granted reservation leaves the mark at the request and returns what the mark
  holds; a successful commit leaves the mark at the request with that signature; only a commit
  puts a signature into a mark. \<open>admissible\<close> limits the laws about results to the chain ids the
  store can represent.
\<close>

locale sign_gate =
  fixes admissible :: "string \<Rightarrow> bool"
    and gmark :: "'s \<Rightarrow> string \<Rightarrow> SignState option"
    and reserve :: "'o \<Rightarrow> 's \<Rightarrow> string \<Rightarrow> int64 \<Rightarrow> int32 \<Rightarrow> int8 \<Rightarrow> bytes \<Rightarrow> time \<Rightarrow> 's \<times> ReserveResult result"
    and commit :: "'o \<Rightarrow> 's \<Rightarrow> string \<Rightarrow> int64 \<Rightarrow> int32 \<Rightarrow> int8 \<Rightarrow> bytes \<Rightarrow> bytes \<Rightarrow> 's \<times> go_error option"
  assumes reserve_mono: "reserve env s c h r p b ts = (s', out) \<Longrightarrow> mark_le (gmark s k) (gmark s' k)"
    and commit_mono: "commit env s c h r p b sig = (s', e) \<Longrightarrow> mark_le (gmark s k) (gmark s' k)"
    and reserve_granted: "admissible c \<Longrightarrow> reserve env s c h r p b ts = (s', Inr res) \<Longrightarrow>
      \<exists>m. gmark s' c = Some m \<and> mark_hrs m = hrs_of h r p \<and>
        (if Reuse res then rSignature res = Signature m \<and> Signature m \<noteq> []
         else rSignBytes res = SignBytes m \<and> Signature m = [])"
    and commit_done: "admissible c \<Longrightarrow> commit env s c h r p b sig = (s', None) \<Longrightarrow>
      \<exists>m. gmark s' c = Some m \<and> mark_hrs m = hrs_of h r p \<and> SignBytes m = b \<and> Signature m = sig"
    and reserve_keeps_signatures: "admissible c \<Longrightarrow> reserve env s c h r p b ts = (s', out) \<Longrightarrow>
      gmark s' k = Some m' \<Longrightarrow> Signature m' \<noteq> [] \<Longrightarrow> gmark s k = Some m'"
    and commit_signatures: "admissible c \<Longrightarrow> commit env s c h r p b sig = (s', e) \<Longrightarrow>
      gmark s' k = Some m' \<Longrightarrow> Signature m' \<noteq> [] \<Longrightarrow>
      gmark s k = Some m' \<or>
      (k = c \<and> mark_hrs m' = hrs_of h r p \<and> SignBytes m' = b \<and> Signature m' = sig)"

subsection \<open>The raft store keeps the contract\<close>

lemma store_apply_mark_le: "store_apply cn out f c = (f', res) \<Longrightarrow> mark_le (mark f k) (mark f' k)"
  by (auto simp: store_apply_def case_prod_beta Apply_mark_le split: option.splits raft_outcome.splits)

lemma store_apply_wf [inv_intros]:
  "wf_fsm f \<Longrightarrow> store_apply cn out f c = (f', res) \<Longrightarrow> wf_fsm f'"
  by (auto simp: store_apply_def case_prod_beta Apply_wf split: option.splits raft_outcome.splits)

text \<open>Either nothing happened, or the command itself was applied.\<close>

lemma store_apply_cases:
  assumes "ascii_command c" "store_apply cn out f c = (f', res)"
  shows "f' = f \<and> (\<exists>e. res = Inl e) \<or>
    f' = fst (apply_command cn f c) \<and>
    (\<forall>r. res = Inr r \<longrightarrow> r = snd (apply_command cn f c) \<and> err r = None)"
  using assms
  by (auto simp: store_apply_def Apply_encode_command split: option.splits raft_outcome.splits prod.splits)

lemma ascii_store_commands [simp]:
  "ascii_command (reserve_command c h r p b ts) \<longleftrightarrow> ascii c"
  "ascii_command (commit_command c h r p b sig) \<longleftrightarrow> ascii c"
  by (simp_all add: ascii_command_def reserve_command_def commit_command_def zero_command_def
      opReserve_def opCommit_def)

lemma apply_reserve_command [simp]:
  "apply_command cn f (reserve_command c h r p b ts) = applyReserve cn f (reserve_command c h r p b ts)"
  by (simp add: apply_command_def reserve_command_def)

lemma apply_commit_command [simp]:
  "apply_command cn f (commit_command c h r p b sig) = applyCommit f (commit_command c h r p b sig)"
  by (simp add: apply_command_def commit_command_def opReserve_def opCommit_def)

lemma reserve_command_sel [simp]:
  "cChainID (reserve_command c h r p b ts) = c" "cHeight (reserve_command c h r p b ts) = h"
  "cRound (reserve_command c h r p b ts) = r" "cStep (reserve_command c h r p b ts) = p"
  "cSignBytes (reserve_command c h r p b ts) = b" "cTimestamp (reserve_command c h r p b ts) = ts"
  by (simp_all add: reserve_command_def)

lemma commit_command_sel [simp]:
  "cChainID (commit_command c h r p b sig) = c" "cHeight (commit_command c h r p b sig) = h"
  "cRound (commit_command c h r p b sig) = r" "cStep (commit_command c h r p b sig) = p"
  "cSignBytes (commit_command c h r p b sig) = b" "cSignature (commit_command c h r p b sig) = sig"
  by (simp_all add: commit_command_def)

lemma applyReserve_signatures:
  assumes "mark (fst (applyReserve cn f c)) k = Some m'" "Signature m' \<noteq> []"
  shows "mark f k = Some m'"
  using assms
  by (auto simp: applyReserve_def Let_def split: if_splits option.splits prod.splits bool.splits)

lemma applyCommit_signatures:
  assumes "mark (fst (applyCommit f c)) k = Some m'" "Signature m' \<noteq> []"
  shows "mark f k = Some m' \<or> (k = cChainID c \<and> mark_hrs m' = hrs_of (cHeight c) (cRound c) (cStep c) \<and>
    SignBytes m' = cSignBytes c \<and> Signature m' = cSignature c)"
  using assms by (auto simp: applyCommit_def mark_hrs_def split: if_splits option.splits)

lemma Reserve_cases:
  assumes "ascii c" "Reserve cn env f c h r p b ts = (f', out)"
  obtains (nothing) e where "f' = f" "out = Inl e"
  | (lost) e where "f' = fst (applyReserve cn f (reserve_command c h r p b ts))" "out = Inl e"
  | (granted) res where "applyReserve cn f (reserve_command c h r p b ts) = (f', res)" "err res = None"
      "out = Inr \<lparr>Reuse = reuse res, rSignBytes = signBytes res, rSignature = signature res, rTimestamp = timestamp res\<rparr>"
proof (cases "role env = Leader")
  case False
  with assms(2) have "f' = f" "out = Inl (Sentinel ErrNotLeader)" by (simp_all add: Reserve_def)
  then show thesis by (rule that(1))
next
  case True
  obtain f1 x where sa: "store_apply cn (outcome env) f (reserve_command c h r p b ts) = (f1, x)"
    by fastforce
  from assms(1) store_apply_cases [OF _ sa] have cases: "f1 = f \<and> (\<exists>e. x = Inl e) \<or>
      f1 = fst (applyReserve cn f (reserve_command c h r p b ts)) \<and>
      (\<forall>r'. x = Inr r' \<longrightarrow> r' = snd (applyReserve cn f (reserve_command c h r p b ts)) \<and> err r' = None)"
    by simp
  from True sa assms(2) have out: "f' = f1" "out = (case x of Inl e \<Rightarrow> Inl e | Inr res \<Rightarrow>
      Inr \<lparr>Reuse = reuse res, rSignBytes = signBytes res, rSignature = signature res, rTimestamp = timestamp res\<rparr>)"
    by (auto simp: Reserve_def split: sum.splits)
  show thesis
  proof (cases x)
    case (Inl e)
    with cases out that(1,2) show thesis by auto
  next
    case (Inr res)
    with cases out that(3) show thesis by (auto simp: prod_eq_iff)
  qed
qed

lemma Commit_cases:
  assumes "ascii c" "Commit cn env f c h r p b sig = (f', out)"
  obtains (nothing) e where "f' = f" "out = Some e"
  | (lost) e where "f' = fst (applyCommit f (commit_command c h r p b sig))" "out = Some e"
  | (recorded) res where "applyCommit f (commit_command c h r p b sig) = (f', res)" "err res = None"
      "out = None"
proof (cases "role env = Leader")
  case False
  with assms(2) have "f' = f" "out = Some (Sentinel ErrNotLeader)" by (simp_all add: Commit_def)
  then show thesis by (rule that(1))
next
  case True
  obtain f1 x where sa: "store_apply cn (outcome env) f (commit_command c h r p b sig) = (f1, x)"
    by fastforce
  from assms(1) store_apply_cases [OF _ sa] have cases: "f1 = f \<and> (\<exists>e. x = Inl e) \<or>
      f1 = fst (applyCommit f (commit_command c h r p b sig)) \<and>
      (\<forall>r'. x = Inr r' \<longrightarrow> r' = snd (applyCommit f (commit_command c h r p b sig)) \<and> err r' = None)"
    by simp
  from True sa assms(2) have out: "f' = f1" "out = (case x of Inl e \<Rightarrow> Some e | Inr res \<Rightarrow> None)"
    by (auto simp: Commit_def split: sum.splits)
  show thesis
  proof (cases x)
    case (Inl e)
    with cases out that(1,2) show thesis by auto
  next
    case (Inr res)
    with cases out that(3) show thesis by (auto simp: prod_eq_iff)
  qed
qed

lemma Reserve_mark_le: "Reserve cn env f c h r p b ts = (f', out) \<Longrightarrow> mark_le (mark f k) (mark f' k)"
  by (auto simp: Reserve_def intro: store_apply_mark_le split: if_splits prod.splits sum.splits)

lemma Commit_mark_le: "Commit cn env f c h r p b sig = (f', out) \<Longrightarrow> mark_le (mark f k) (mark f' k)"
  by (auto simp: Commit_def intro: store_apply_mark_le split: if_splits prod.splits sum.splits)

lemma Reserve_granted:
  assumes "ascii c" "Reserve cn env f c h r p b ts = (f', Inr res)"
  shows "\<exists>m. mark f' c = Some m \<and> mark_hrs m = hrs_of h r p \<and>
    (if Reuse res then rSignature res = Signature m \<and> Signature m \<noteq> []
     else rSignBytes res = SignBytes m \<and> Signature m = [])"
  using assms
proof (cases rule: Reserve_cases)
  case (granted ar)
  from applyReserve_granted [OF this(1,2)] obtain m where m: "mark f' c = Some m"
    "mark_hrs m = hrs_of h r p" "reuse ar \<Longrightarrow> signature ar = Signature m \<and> Signature m \<noteq> []"
    "\<not> reuse ar \<Longrightarrow> signBytes ar = SignBytes m \<and> Signature m = []" by auto
  from granted(3) have "res = \<lparr>Reuse = reuse ar, rSignBytes = signBytes ar, rSignature = signature ar,
      rTimestamp = timestamp ar\<rparr>" by simp
  with m show ?thesis by (intro exI [of _ m]) simp
qed simp_all

lemma Commit_recorded:
  assumes "ascii c" "Commit cn env f c h r p b sig = (f', None)"
  shows "\<exists>m. mark f' c = Some m \<and> mark_hrs m = hrs_of h r p \<and> SignBytes m = b \<and> Signature m = sig"
  using assms
proof (cases rule: Commit_cases)
  case (recorded res)
  from applyCommit_ok [OF this(1,2)] show ?thesis
    by (metis SignState.select_convs(1-5) SignState.surjective SignState.update_convs(5)
        commit_command_sel mark_hrs_def)
qed simp_all

lemma Reserve_signatures:
  assumes "ascii c" "Reserve cn env f c h r p b ts = (f', out)"
    "mark f' k = Some m'" "Signature m' \<noteq> []"
  shows "mark f k = Some m'"
proof -
  have "f' = f \<or> f' = fst (applyReserve cn f (reserve_command c h r p b ts))"
    using assms(1,2) by (cases rule: Reserve_cases) simp_all
  with assms(3,4) show ?thesis by (auto dest: applyReserve_signatures)
qed

lemma Commit_signatures:
  assumes "ascii c" "Commit cn env f c h r p b sig = (f', out)"
    "mark f' k = Some m'" "Signature m' \<noteq> []"
  shows "mark f k = Some m' \<or> (k = c \<and> mark_hrs m' = hrs_of h r p \<and> SignBytes m' = b \<and> Signature m' = sig)"
proof -
  have "f' = f \<or> f' = fst (applyCommit f (commit_command c h r p b sig))"
    using assms(1,2) by (cases rule: Commit_cases) simp_all
  with assms(3,4) show ?thesis by (auto dest: applyCommit_signatures)
qed

text \<open>On the leader, with the entry committed, a call is the state machine's answer.\<close>

lemma store_apply_committed:
  assumes "ascii_command c" "format_rfc3339 (cTimestamp c) = Some ts"
  shows "store_apply cn Committed f c =
    (fst (apply_command cn f c),
     case err (snd (apply_command cn f c)) of Some e \<Rightarrow> Inl e | None \<Rightarrow> Inr (snd (apply_command cn f c)))"
proof -
  obtain d where d: "encode_command c = Some d" using assms(2) by (simp add: encode_command_def)
  show ?thesis by (simp add: store_apply_def d Apply_encode_command [OF assms(1) d] case_prod_beta)
qed

lemma Reserve_committed:
  assumes "ascii c" "format_rfc3339 ts = Some z" "role env = Leader" "outcome env = Committed"
  shows "Reserve cn env f c h r p b ts =
    (let (f', res) = applyReserve cn f (reserve_command c h r p b ts) in
     (f', case err res of Some e \<Rightarrow> Inl e | None \<Rightarrow>
        Inr \<lparr>Reuse = reuse res, rSignBytes = signBytes res, rSignature = signature res, rTimestamp = timestamp res\<rparr>))"
  using assms by (simp add: Reserve_def store_apply_committed case_prod_beta split: option.split)

lemma Commit_committed:
  assumes "ascii c" "role env = Leader" "outcome env = Committed"
  shows "Commit cn env f c h r p b sig =
    (let (f', res) = applyCommit f (commit_command c h r p b sig) in (f', err res))"
proof -
  have "cTimestamp (commit_command c h r p b sig) = zero_time"
    by (simp add: commit_command_def zero_command_def)
  with format_zero_time have "format_rfc3339 (cTimestamp (commit_command c h r p b sig)) = Some ''0001-01-01T00:00:00Z''"
    by simp
  from store_apply_committed [OF _ this, of cn f] assms show ?thesis
    by (simp add: Commit_def case_prod_beta split: option.split)
qed

interpretation raft_gate: sign_gate ascii mark "Reserve cn" "Commit cn"
  for cn :: "('p, 'v) canon"
  by unfold_locales
    (fact Reserve_mark_le Commit_mark_le Reserve_granted Commit_recorded Reserve_signatures
      Commit_signatures)+

end
