(* ===== verification/Signer.thy ===== *)
theory Signer
  imports RaftStore
begin

section \<open>The gated signer (internal/signer/privval.go)\<close>

text \<open>
  \<open>GatedPrivValidator\<close>: reserve, sign, commit. The store's operations and the key backend are
  arguments (the interfaces \<^verbatim>\<open>StateStore\<close> and \<^verbatim>\<open>KeyBackend\<close> of the code); a call to the
  backend threads a backend state, so that a backend need not be deterministic. CometBFT's
  canonical sign bytes are third-party code and arguments too; \<open>None\<close> stands for the panic
  that \<^verbatim>\<open>recoverToError\<close> turns into an error.

  \<open>SignSystem\<close> and \<open>SignSafety\<close> run any number of these \<^verbatim>\<open>gatedSign\<close> calls at once.
\<close>

subsection \<open>Votes and proposals\<close>

datatype SignedMsgType = UnknownType | PrevoteType | PrecommitType | ProposalType

record 'b Vote =
  vType :: SignedMsgType
  vHeight :: int64
  vRound :: int32
  vBlockID :: 'b
  vTimestamp :: time
  vSignature :: bytes
  vExtension :: bytes
  vExtensionSignature :: bytes

record 'b Proposal =
  pHeight :: int64
  pRound :: int32
  pPolRound :: int32
  pBlockID :: 'b
  pTimestamp :: time
  pSignature :: bytes

text \<open>What the signer calls of CometBFT's types package.\<close>

record 'b comet =
  ProtoBlockIDIsNil :: "'b \<Rightarrow> bool"
  VoteSignBytes :: "string \<Rightarrow> 'b Vote \<Rightarrow> bytes option"
  VoteExtensionSignBytes :: "string \<Rightarrow> 'b Vote \<Rightarrow> bytes option"
  ProposalSignBytes :: "string \<Rightarrow> 'b Proposal \<Rightarrow> bytes option"

text \<open>What the signer calls of the store and of the backend.\<close>

record ('o, 's) store_ops =
  sReserve :: "'o \<Rightarrow> 's \<Rightarrow> string \<Rightarrow> int64 \<Rightarrow> int32 \<Rightarrow> int8 \<Rightarrow> bytes \<Rightarrow> time \<Rightarrow> 's \<times> ReserveResult result"
  sCommit :: "'o \<Rightarrow> 's \<Rightarrow> string \<Rightarrow> int64 \<Rightarrow> int32 \<Rightarrow> int8 \<Rightarrow> bytes \<Rightarrow> bytes \<Rightarrow> 's \<times> go_error option"

record ('pub, 'k) key_ops =
  kPubKey :: "'k \<Rightarrow> 'k \<times> 'pub result"
  kSign :: "'k \<Rightarrow> bytes \<Rightarrow> 'k \<times> bytes result"

record ('o, 's, 'pub, 'k) GatedPrivValidator =
  gBackend :: "('pub, 'k) key_ops"
  gStore :: "('o, 's) store_ops"
  gPub :: 'pub

text \<open>One call runs against the store \<open>fst\<close> and the backend \<open>snd\<close>; the environments are what
  the store's library does during the reservation and during the commit.\<close>

type_synonym ('s, 'k) world = "'s \<times> 'k"
type_synonym 'o envs = "'o \<times> 'o"

subsection \<open>Operations\<close>

definition New_GatedPrivValidator ::
  "('pub, 'k) key_ops \<Rightarrow> ('o, 's) store_ops \<Rightarrow> 'k \<Rightarrow> 'k \<times> ('o, 's, 'pub, 'k) GatedPrivValidator result" where
  "New_GatedPrivValidator b st k =
     (case kPubKey b k of
        (k', Inl e) \<Rightarrow> (k', Inl (Errorf ''get public key'' [e]))
      | (k', Inr pub) \<Rightarrow> (k', Inr \<lparr>gBackend = b, gStore = st, gPub = pub\<rparr>))"

definition GetPubKey :: "('o, 's, 'pub, 'k) GatedPrivValidator \<Rightarrow> 'pub result" where
  "GetPubKey g = Inr (gPub g)"

fun voteToStep :: "SignedMsgType \<Rightarrow> int8 result" where
  "voteToStep PrevoteType = Inr StepPrevote"
| "voteToStep PrecommitType = Inr StepPrecommit"
| "voteToStep _ = Inl (errors_New ''unknown vote type'')"

definition gatedSign ::
  "('o, 's, 'pub, 'k) GatedPrivValidator \<Rightarrow> 'o envs \<Rightarrow> ('s, 'k) world \<Rightarrow>
   string \<Rightarrow> int64 \<Rightarrow> int32 \<Rightarrow> int8 \<Rightarrow> bytes \<Rightarrow> time \<Rightarrow> ('s, 'k) world \<times> (bytes \<times> time) result" where
  "gatedSign g envs w chain h r step b ts =
     (case sReserve (gStore g) (fst envs) (fst w) chain h r step b ts of
        (s1, Inl e) \<Rightarrow> ((s1, snd w), Inl e)
      | (s1, Inr res) \<Rightarrow>
          if Reuse res \<and> rSignature res \<noteq> []
          then ((s1, snd w), Inr (rSignature res, rTimestamp res))
          else (case kSign (gBackend g) (snd w) (rSignBytes res) of
              (k1, Inl e) \<Rightarrow> ((s1, k1), Inl (Errorf ''backend sign'' [e]))
            | (k1, Inr sig) \<Rightarrow>
                (case sCommit (gStore g) (snd envs) s1 chain h r step (rSignBytes res) sig of
                   (s2, Some e) \<Rightarrow> ((s2, k1), Inl (Errorf ''commit signature'' [e]))
                 | (s2, None) \<Rightarrow> ((s2, k1), Inr (sig, rTimestamp res)))))"

definition invalid_request :: go_error where
  "invalid_request = errors_New ''invalid sign request''"

definition nonNilPrecommit :: "'b comet \<Rightarrow> 'b Vote \<Rightarrow> bool" where
  "nonNilPrecommit cm v \<longleftrightarrow> vType v = PrecommitType \<and> \<not> ProtoBlockIDIsNil cm (vBlockID v)"

text \<open>\<open>None\<close> is the nil pointer. The vote is returned as the caller sees it afterwards.\<close>

definition SignVote ::
  "'b comet \<Rightarrow> ('o, 's, 'pub, 'k) GatedPrivValidator \<Rightarrow> 'o envs \<Rightarrow> ('s, 'k) world \<Rightarrow> string \<Rightarrow>
   'b Vote option \<Rightarrow> ('s, 'k) world \<times> 'b Vote option \<times> go_error option" where
  "SignVote cm g envs w chain ov =
     (case ov of
        None \<Rightarrow> (w, None, Some (errors_New ''nil vote''))
      | Some v \<Rightarrow>
     (case voteToStep (vType v) of
        Inl e \<Rightarrow> (w, Some v, Some e)
      | Inr step \<Rightarrow>
        if vExtension v \<noteq> [] \<and> \<not> nonNilPrecommit cm v
        then (w, Some v, Some (errors_New ''unexpected vote extension: extensions are only allowed in non-nil precommits''))
        else
     (case VoteSignBytes cm chain v of
        None \<Rightarrow> (w, Some v, Some invalid_request)
      | Some b \<Rightarrow>
     (case gatedSign g envs w chain (vHeight v) (vRound v) step b (vTimestamp v) of
        (w1, Inl e) \<Rightarrow> (w1, Some v, Some e)
      | (w1, Inr (sig, ts)) \<Rightarrow>
          if nonNilPrecommit cm v then
            (case VoteExtensionSignBytes cm chain v of
               None \<Rightarrow> (w1, Some v, Some invalid_request)
             | Some xb \<Rightarrow>
                 (case kSign (gBackend g) (snd w1) xb of
                    (k2, Inl e) \<Rightarrow> ((fst w1, k2), Some v, Some (Errorf ''sign vote extension'' [e]))
                  | (k2, Inr xsig) \<Rightarrow>
                      ((fst w1, k2),
                       Some (v\<lparr>vTimestamp := ts, vSignature := sig, vExtensionSignature := xsig\<rparr>), None)))
          else (w1, Some (v\<lparr>vTimestamp := ts, vSignature := sig, vExtensionSignature := []\<rparr>), None)))))"

definition SignProposal ::
  "'b comet \<Rightarrow> ('o, 's, 'pub, 'k) GatedPrivValidator \<Rightarrow> 'o envs \<Rightarrow> ('s, 'k) world \<Rightarrow> string \<Rightarrow>
   'b Proposal option \<Rightarrow> ('s, 'k) world \<times> 'b Proposal option \<times> go_error option" where
  "SignProposal cm g envs w chain op =
     (case op of
        None \<Rightarrow> (w, None, Some (errors_New ''nil proposal''))
      | Some p \<Rightarrow>
     (case ProposalSignBytes cm chain p of
        None \<Rightarrow> (w, Some p, Some invalid_request)
      | Some b \<Rightarrow>
     (case gatedSign g envs w chain (pHeight p) (pRound p) StepPropose b (pTimestamp p) of
        (w1, Inl e) \<Rightarrow> (w1, Some p, Some e)
      | (w1, Inr (sig, ts)) \<Rightarrow> (w1, Some (p\<lparr>pTimestamp := ts, pSignature := sig\<rparr>), None))))"

subsection \<open>One request\<close>

lemma voteToStep_cases:
  "voteToStep t = Inr s \<Longrightarrow> (t = PrevoteType \<and> s = StepPrevote) \<or> (t = PrecommitType \<and> s = StepPrecommit)"
  by (cases t) simp_all

text \<open>A refused or failed request leaves the caller's message as it was.\<close>

lemma SignVote_error_unchanged:
  "SignVote cm g envs w chain ov = (w', ov', Some e) \<Longrightarrow> ov' = ov"
  by (auto simp: SignVote_def split: option.splits sum.splits if_splits prod.splits)

lemma SignProposal_error_unchanged:
  "SignProposal cm g envs w chain op = (w', op', Some e) \<Longrightarrow> op' = op"
  by (auto simp: SignProposal_def split: option.splits sum.splits prod.splits)

lemma SignVote_ok:
  assumes "SignVote cm g envs w chain ov = (w', ov', None)"
  obtains v v' step b w1 where "ov = Some v" and "ov' = Some v'"
    and "voteToStep (vType v) = Inr step" and "VoteSignBytes cm chain v = Some b"
    and "gatedSign g envs w chain (vHeight v) (vRound v) step b (vTimestamp v) =
           (w1, Inr (vSignature v', vTimestamp v'))"
    and "v' = v\<lparr>vTimestamp := vTimestamp v', vSignature := vSignature v',
           vExtensionSignature := vExtensionSignature v'\<rparr>"
    and "fst w' = fst w1"
    and "if nonNilPrecommit cm v
         then \<exists>xb. VoteExtensionSignBytes cm chain v = Some xb \<and>
                kSign (gBackend g) (snd w1) xb = (snd w', Inr (vExtensionSignature v'))
         else vExtension v = [] \<and> vExtensionSignature v' = [] \<and> w' = w1"
proof -
  from assms obtain v step b w1 sig ts where h: "ov = Some v" "voteToStep (vType v) = Inr step"
    "VoteSignBytes cm chain v = Some b" "\<not> (vExtension v \<noteq> [] \<and> \<not> nonNilPrecommit cm v)"
    "gatedSign g envs w chain (vHeight v) (vRound v) step b (vTimestamp v) = (w1, Inr (sig, ts))"
    by (auto simp: SignVote_def split: option.splits sum.splits if_splits prod.splits)
  show thesis
  proof (cases "nonNilPrecommit cm v")
    case True
    with assms h obtain xb k2 xsig where x: "VoteExtensionSignBytes cm chain v = Some xb"
      "kSign (gBackend g) (snd w1) xb = (k2, Inr xsig)" "w' = (fst w1, k2)"
      "ov' = Some (v\<lparr>vTimestamp := ts, vSignature := sig, vExtensionSignature := xsig\<rparr>)"
      by (auto simp: SignVote_def split: option.splits sum.splits if_splits prod.splits)
    show thesis by (rule that [OF h(1) x(4) h(2,3)]) (use h x True in simp_all)
  next
    case False
    with assms h have x: "w' = w1"
      "ov' = Some (v\<lparr>vTimestamp := ts, vSignature := sig, vExtensionSignature := []\<rparr>)"
      by (auto simp: SignVote_def split: option.splits sum.splits if_splits prod.splits)
    show thesis by (rule that [OF h(1) x(2) h(2,3)]) (use h x False in simp_all)
  qed
qed

subsection \<open>Properties\<close>

text \<open>C11: a refused vote or proposal comes back untouched. Whenever \<^verbatim>\<open>SignVote\<close> or
  \<^verbatim>\<open>SignProposal\<close> reports an error, also after the gate and the backend have run, the caller's
  message carries no signature, timestamp or extension signature from the attempt.\<close>

theorem refused_message_untouched:
  "(SignVote cm g envs w chain ov = (w', ov', Some e) \<longrightarrow> ov' = ov) \<and>
   (SignProposal cm g envs w chain op = (w2, op', Some e2) \<longrightarrow> op' = op)"
  by (auto dest: SignVote_error_unchanged SignProposal_error_unchanged)

definition ex_refusing :: "(unit, unit, unit, unit) GatedPrivValidator" where
  "ex_refusing = \<lparr>gBackend = \<lparr>kPubKey = (\<lambda>k. (k, Inr ())), kSign = (\<lambda>k b. (k, Inr b))\<rparr>,
     gStore = \<lparr>sReserve = (\<lambda>_ s _ _ _ _ _ _. (s, Inl (Sentinel ErrNotLeader))),
               sCommit = (\<lambda>_ s _ _ _ _ _ _. (s, None))\<rparr>, gPub = ()\<rparr>"

definition ex_comet :: "bool comet" where
  "ex_comet = \<lparr>ProtoBlockIDIsNil = (\<lambda>b. b), VoteSignBytes = (\<lambda>c v. Some c),
     VoteExtensionSignBytes = (\<lambda>c v. Some (c @ vExtension v)), ProposalSignBytes = (\<lambda>c p. Some c)\<rparr>"

definition ex_vote :: "bool Vote" where
  "ex_vote = \<lparr>vType = PrecommitType, vHeight = 5, vRound = 0, vBlockID = False, vTimestamp = 7, vSignature = [],
     vExtension = ''e'', vExtensionSignature = []\<rparr>"

definition ex_proposal :: "bool Proposal" where
  "ex_proposal = \<lparr>pHeight = 5, pRound = 0, pPolRound = 0, pBlockID = False, pTimestamp = 7, pSignature = []\<rparr>"

theorem refused_message_untouched_witness:
  "SignVote ex_comet ex_refusing ((), ()) ((), ()) ''c'' (Some ex_vote) = (((), ()), Some ex_vote, Some (Sentinel ErrNotLeader)) \<and>
   SignProposal ex_comet ex_refusing ((), ()) ((), ()) ''c'' (Some ex_proposal) =
     (((), ()), Some ex_proposal, Some (Sentinel ErrNotLeader))"
proof -
  obtain ov' where v: "SignVote ex_comet ex_refusing ((), ()) ((), ()) ''c'' (Some ex_vote) =
      (((), ()), ov', Some (Sentinel ErrNotLeader))"
    by (simp add: SignVote_def gatedSign_def ex_refusing_def ex_comet_def ex_vote_def nonNilPrecommit_def)
  obtain op' where p: "SignProposal ex_comet ex_refusing ((), ()) ((), ()) ''c'' (Some ex_proposal) =
      (((), ()), op', Some (Sentinel ErrNotLeader))"
    by (simp add: SignProposal_def gatedSign_def ex_refusing_def ex_comet_def ex_proposal_def)
  from v p refused_message_untouched [of ex_comet ex_refusing "((), ())" "((), ())" "''c''" "Some ex_vote" "((), ())" ov'
      "Sentinel ErrNotLeader" "Some ex_proposal" "((), ())" op' "Sentinel ErrNotLeader"]
  show ?thesis by simp
qed

text \<open>C10: extensions only on non-nil precommits. A vote that \<^verbatim>\<open>SignVote\<close> accepts is a prevote or
  a precommit; its signature and timestamp are what the gate returned for its own sign bytes, no
  other field but the extension signature changes, the extension is signed exactly when the vote is
  a precommit for a block, and otherwise the vote has no extension and gets no extension
  signature.\<close>

theorem accepted_vote:
  assumes "SignVote cm g envs w chain (Some v) = (w', ov', None)"
  shows "\<exists>v' step b w1. ov' = Some v' \<and> voteToStep (vType v) = Inr step \<and> vType v \<in> {PrevoteType, PrecommitType} \<and>
    VoteSignBytes cm chain v = Some b \<and>
    gatedSign g envs w chain (vHeight v) (vRound v) step b (vTimestamp v) = (w1, Inr (vSignature v', vTimestamp v')) \<and>
    v' = v\<lparr>vTimestamp := vTimestamp v', vSignature := vSignature v', vExtensionSignature := vExtensionSignature v'\<rparr> \<and>
    (if nonNilPrecommit cm v
     then \<exists>xb. VoteExtensionSignBytes cm chain v = Some xb \<and>
            kSign (gBackend g) (snd w1) xb = (snd w', Inr (vExtensionSignature v'))
     else vExtension v = [] \<and> vExtensionSignature v' = [] \<and> w' = w1)"
  using SignVote_ok [OF assms] voteToStep_cases by (smt (verit) insert_iff option.inject)

definition ex_granting :: "(unit, unit, unit, unit) GatedPrivValidator" where
  "ex_granting = \<lparr>gBackend = \<lparr>kPubKey = (\<lambda>k. (k, Inr ())), kSign = (\<lambda>k b. (k, Inr (''s'' @ b)))\<rparr>,
     gStore = \<lparr>sReserve = (\<lambda>_ s _ _ _ _ b ts. (s, Inr \<lparr>Reuse = False, rSignBytes = b, rSignature = [], rTimestamp = ts\<rparr>)),
               sCommit = (\<lambda>_ s _ _ _ _ _ _. (s, None))\<rparr>, gPub = ()\<rparr>"

theorem accepted_vote_witness:
  "\<exists>v'. SignVote ex_comet ex_granting ((), ()) ((), ()) ''c'' (Some ex_vote) = (((), ()), Some v', None) \<and>
     vExtensionSignature v' = ''sce'' \<and> vSignature v' = ''sc''"
proof -
  obtain w' ov' where v: "SignVote ex_comet ex_granting ((), ()) ((), ()) ''c'' (Some ex_vote) = (w', ov', None)"
    by (simp add: SignVote_def gatedSign_def ex_granting_def ex_comet_def ex_vote_def nonNilPrecommit_def)
  have "w' = ((), ())" by (cases w') simp
  with accepted_vote [OF v] v show ?thesis
    by (auto simp: gatedSign_def ex_granting_def ex_comet_def ex_vote_def nonNilPrecommit_def)
qed

end
