(* ===== verification/SignSystem.thy ===== *)
theory SignSystem
  imports Signer
begin

section \<open>Concurrent signing over one store\<close>

text \<open>
  Any number of \<^verbatim>\<open>gatedSign\<close> calls in flight, on any replica, against the one replicated
  store. A thread is where its call stands; each store call and each backend call is one step.
  The environment may let a reservation or a commit take effect although its caller got an error
  or crashed, at any later time, and may change the store in any way that leaves the marks alone
  (identity entries, no-ops, snapshot installs). The last five fields are history: what was
  granted, handed to the backend, returned by it, sent as a commit, and returned to a node.
\<close>

subsection \<open>States and steps\<close>

record request =
  qChain :: string
  qHeight :: int64
  qRound :: int32
  qStep :: int8
  qBytes :: bytes
  qTime :: time

abbreviation q_hrs :: "request \<Rightarrow> hrs" where
  "q_hrs q \<equiv> hrs_of (qHeight q) (qRound q) (qStep q)"

datatype pc =
    Idle
  | Reserving request
  | Signing request bytes time
  | Committing request bytes bytes time
  | Returned "(bytes \<times> time) result"

record 's sys =
  sstore :: 's
  threads :: "nat \<Rightarrow> pc"
  granted :: "(string \<times> hrs \<times> bytes) set"
  signed :: "(string \<times> hrs \<times> bytes) set"
  produced :: "(bytes \<times> bytes) set"
  attempted :: "(request \<times> bytes \<times> bytes) set"
  released :: "(string \<times> hrs \<times> bytes) set"

abbreviation goto :: "'s sys \<Rightarrow> nat \<Rightarrow> pc \<Rightarrow> nat \<Rightarrow> pc" where
  "goto \<sigma> t p \<equiv> (threads \<sigma>)(t := p)"

definition do_reserve :: "('o, 's) store_ops \<Rightarrow> 'o \<Rightarrow> 's \<Rightarrow> request \<Rightarrow> 's \<times> ReserveResult result" where
  "do_reserve st env s q =
     sReserve st env s (qChain q) (qHeight q) (qRound q) (qStep q) (qBytes q) (qTime q)"

definition do_commit :: "('o, 's) store_ops \<Rightarrow> 'o \<Rightarrow> 's \<Rightarrow> request \<Rightarrow> bytes \<Rightarrow> bytes \<Rightarrow> 's \<times> go_error option" where
  "do_commit st env s q b sig = sCommit st env s (qChain q) (qHeight q) (qRound q) (qStep q) b sig"

definition sys_init :: "'s \<Rightarrow> 's sys" where
  "sys_init s = \<lparr>sstore = s, threads = (\<lambda>_. Idle), granted = {}, signed = {}, produced = {},
     attempted = {}, released = {}\<rparr>"

inductive sign_step ::
  "(string \<Rightarrow> bool) \<Rightarrow> ('s \<Rightarrow> string \<Rightarrow> SignState option) \<Rightarrow> ('o, 's) store_ops \<Rightarrow> 's sys \<Rightarrow> 's sys \<Rightarrow> bool"
  for adm gm st where
  arrive: "threads \<sigma> t = Idle \<Longrightarrow> adm (qChain q) \<Longrightarrow>
    sign_step adm gm st \<sigma> (\<sigma>\<lparr>threads := goto \<sigma> t (Reserving q)\<rparr>)"
| refused: "threads \<sigma> t = Reserving q \<Longrightarrow> do_reserve st env (sstore \<sigma>) q = (s', Inl e) \<Longrightarrow>
    sign_step adm gm st \<sigma> (\<sigma>\<lparr>sstore := s', threads := goto \<sigma> t (Returned (Inl e))\<rparr>)"
| reused: "threads \<sigma> t = Reserving q \<Longrightarrow> do_reserve st env (sstore \<sigma>) q = (s', Inr res) \<Longrightarrow>
    Reuse res \<and> rSignature res \<noteq> [] \<Longrightarrow>
    sign_step adm gm st \<sigma> (\<sigma>\<lparr>sstore := s',
      threads := goto \<sigma> t (Returned (Inr (rSignature res, rTimestamp res))),
      released := insert (qChain q, q_hrs q, rSignature res) (released \<sigma>)\<rparr>)"
| grant: "threads \<sigma> t = Reserving q \<Longrightarrow> do_reserve st env (sstore \<sigma>) q = (s', Inr res) \<Longrightarrow>
    \<not> (Reuse res \<and> rSignature res \<noteq> []) \<Longrightarrow>
    sign_step adm gm st \<sigma> (\<sigma>\<lparr>sstore := s',
      threads := goto \<sigma> t (Signing q (rSignBytes res) (rTimestamp res)),
      granted := insert (qChain q, q_hrs q, rSignBytes res) (granted \<sigma>)\<rparr>)"
| sign_failed: "threads \<sigma> t = Signing q b ts \<Longrightarrow>
    sign_step adm gm st \<sigma> (\<sigma>\<lparr>threads := goto \<sigma> t (Returned (Inl (Errorf ''backend sign'' [e]))),
      signed := insert (qChain q, q_hrs q, b) (signed \<sigma>)\<rparr>)"
| sign_done: "threads \<sigma> t = Signing q b ts \<Longrightarrow>
    sign_step adm gm st \<sigma> (\<sigma>\<lparr>threads := goto \<sigma> t (Committing q b sig ts),
      signed := insert (qChain q, q_hrs q, b) (signed \<sigma>),
      produced := insert (b, sig) (produced \<sigma>), attempted := insert (q, b, sig) (attempted \<sigma>)\<rparr>)"
| commit_failed: "threads \<sigma> t = Committing q b sig ts \<Longrightarrow>
    do_commit st env (sstore \<sigma>) q b sig = (s', Some e) \<Longrightarrow>
    sign_step adm gm st \<sigma> (\<sigma>\<lparr>sstore := s',
      threads := goto \<sigma> t (Returned (Inl (Errorf ''commit signature'' [e])))\<rparr>)"
| commit_ok: "threads \<sigma> t = Committing q b sig ts \<Longrightarrow>
    do_commit st env (sstore \<sigma>) q b sig = (s', None) \<Longrightarrow>
    sign_step adm gm st \<sigma> (\<sigma>\<lparr>sstore := s', threads := goto \<sigma> t (Returned (Inr (sig, ts))),
      released := insert (qChain q, q_hrs q, sig) (released \<sigma>)\<rparr>)"
| crash: "sign_step adm gm st \<sigma> (\<sigma>\<lparr>threads := goto \<sigma> t Idle\<rparr>)"
| late_reserve: "adm (qChain q) \<Longrightarrow> do_reserve st env (sstore \<sigma>) q = (s', out) \<Longrightarrow>
    sign_step adm gm st \<sigma> (\<sigma>\<lparr>sstore := s'\<rparr>)"
| late_commit: "(q, b, sig) \<in> attempted \<sigma> \<Longrightarrow> do_commit st env (sstore \<sigma>) q b sig = (s', out') \<Longrightarrow>
    sign_step adm gm st \<sigma> (\<sigma>\<lparr>sstore := s'\<rparr>)"
| environment: "gm s' = gm (sstore \<sigma>) \<Longrightarrow> sign_step adm gm st \<sigma> (\<sigma>\<lparr>sstore := s'\<rparr>)"

text \<open>The life of a cluster from its first entry on. Restarts and snapshot installs are steps of the
  run (crashes and environment steps), not new runs.\<close>

definition sign_run ::
  "(string \<Rightarrow> bool) \<Rightarrow> ('s \<Rightarrow> string \<Rightarrow> SignState option) \<Rightarrow> ('o, 's) store_ops \<Rightarrow> 's \<Rightarrow> 's sys \<Rightarrow> bool" where
  "sign_run adm gm st s0 \<sigma> \<longleftrightarrow> (\<forall>c. gm s0 c = None) \<and> (sign_step adm gm st)\<^sup>*\<^sup>* (sys_init s0) \<sigma>"

subsection \<open>The invariant\<close>

text \<open>A payload is pinned: the mark is at or past its height, round and step, and while it is
  there it holds that payload. Likewise for a signature.\<close>

definition bytes_pinned :: "SignState option \<Rightarrow> hrs \<Rightarrow> bytes \<Rightarrow> bool" where
  "bytes_pinned om k b \<longleftrightarrow> (\<exists>m. om = Some m \<and> k \<le> mark_hrs m \<and> (k = mark_hrs m \<longrightarrow> SignBytes m = b))"

definition sig_pinned :: "SignState option \<Rightarrow> hrs \<Rightarrow> bytes \<Rightarrow> bool" where
  "sig_pinned om k sig \<longleftrightarrow> (\<exists>m. om = Some m \<and> k \<le> mark_hrs m \<and> (k = mark_hrs m \<longrightarrow> Signature m = sig))"

lemma bytes_pinned_mono: "bytes_pinned om k b \<Longrightarrow> mark_le om om' \<Longrightarrow> bytes_pinned om' k b"
  by (fastforce simp: bytes_pinned_def elim: mark_le_SomeE)

lemma sig_pinned_mono: "sig_pinned om k sig \<Longrightarrow> sig \<noteq> [] \<Longrightarrow> mark_le om om' \<Longrightarrow> sig_pinned om' k sig"
  by (fastforce simp: sig_pinned_def elim: mark_le_SomeE)

definition thread_ok :: "(string \<Rightarrow> bool) \<Rightarrow> 's sys \<Rightarrow> pc \<Rightarrow> bool" where
  "thread_ok adm \<sigma> p =
     (case p of
        Reserving q \<Rightarrow> adm (qChain q)
      | Signing q b ts \<Rightarrow> adm (qChain q) \<and> (qChain q, q_hrs q, b) \<in> granted \<sigma>
      | Committing q b sig ts \<Rightarrow> (q, b, sig) \<in> attempted \<sigma>
      | _ \<Rightarrow> True)"

definition one_payload :: "(string \<times> hrs \<times> bytes) set \<Rightarrow> bool" where
  "one_payload A \<longleftrightarrow> (\<forall>c k b b'. (c, k, b) \<in> A \<longrightarrow> (c, k, b') \<in> A \<longrightarrow> b = b')"

definition history_ok :: "(string \<Rightarrow> bool) \<Rightarrow> 's sys \<Rightarrow> bool" where
  "history_ok adm \<sigma> \<longleftrightarrow>
     signed \<sigma> \<subseteq> granted \<sigma> \<and>
     (\<forall>t. thread_ok adm \<sigma> (threads \<sigma> t)) \<and>
     (\<forall>q b sig. (q, b, sig) \<in> attempted \<sigma> \<longrightarrow>
        adm (qChain q) \<and> (qChain q, q_hrs q, b) \<in> signed \<sigma> \<and> (b, sig) \<in> produced \<sigma>) \<and>
     (\<forall>c k sig. (c, k, sig) \<in> released \<sigma> \<longrightarrow> (\<exists>b. (c, k, b) \<in> signed \<sigma> \<and> (b, sig) \<in> produced \<sigma>))"

definition marks_ok :: "('s \<Rightarrow> string \<Rightarrow> SignState option) \<Rightarrow> 's sys \<Rightarrow> bool" where
  "marks_ok gm \<sigma> \<longleftrightarrow>
     (\<forall>c k b. (c, k, b) \<in> granted \<sigma> \<longrightarrow> bytes_pinned (gm (sstore \<sigma>) c) k b) \<and>
     (\<forall>c k sig. (c, k, sig) \<in> released \<sigma> \<longrightarrow> sig \<noteq> [] \<longrightarrow> sig_pinned (gm (sstore \<sigma>) c) k sig) \<and>
     (\<forall>c m. gm (sstore \<sigma>) c = Some m \<longrightarrow> Signature m \<noteq> [] \<longrightarrow>
        (c, mark_hrs m, SignBytes m) \<in> signed \<sigma> \<and> (SignBytes m, Signature m) \<in> produced \<sigma>)"

definition sign_inv :: "(string \<Rightarrow> bool) \<Rightarrow> ('s \<Rightarrow> string \<Rightarrow> SignState option) \<Rightarrow> 's sys \<Rightarrow> bool" where
  "sign_inv adm gm \<sigma> \<longleftrightarrow> history_ok adm \<sigma> \<and> marks_ok gm \<sigma> \<and>
     one_payload (granted \<sigma>) \<and> one_payload {x \<in> released \<sigma>. snd (snd x) \<noteq> []}"

lemma marks_okD:
  assumes "marks_ok gm \<sigma>"
  shows "(c, k, b) \<in> granted \<sigma> \<Longrightarrow> bytes_pinned (gm (sstore \<sigma>) c) k b"
    and "(c, k, sig) \<in> released \<sigma> \<Longrightarrow> sig \<noteq> [] \<Longrightarrow> sig_pinned (gm (sstore \<sigma>) c) k sig"
    and "gm (sstore \<sigma>) c = Some m \<Longrightarrow> Signature m \<noteq> [] \<Longrightarrow>
      (c, mark_hrs m, SignBytes m) \<in> signed \<sigma> \<and> (SignBytes m, Signature m) \<in> produced \<sigma>"
  using assms unfolding marks_ok_def by blast+

lemma history_okD:
  assumes "history_ok adm \<sigma>"
  shows "signed \<sigma> \<subseteq> granted \<sigma>" and "thread_ok adm \<sigma> (threads \<sigma> t)"
    and "(q, b, sig) \<in> attempted \<sigma> \<Longrightarrow>
      adm (qChain q) \<and> (qChain q, q_hrs q, b) \<in> signed \<sigma> \<and> (b, sig) \<in> produced \<sigma>"
    and "(c, k, sig) \<in> released \<sigma> \<Longrightarrow> \<exists>b. (c, k, b) \<in> signed \<sigma> \<and> (b, sig) \<in> produced \<sigma>"
  using assms unfolding history_ok_def by blast+

text \<open>Moving the store along \<open>mark_le\<close> keeps what is pinned.\<close>

lemma marks_ok_move:
  assumes "marks_ok gm \<sigma>" and "\<And>c. mark_le (gm (sstore \<sigma>) c) (gm s' c)"
    and "\<And>c m. gm s' c = Some m \<Longrightarrow> Signature m \<noteq> [] \<Longrightarrow> gm (sstore \<sigma>) c = Some m \<or>
      (c, mark_hrs m, SignBytes m) \<in> signed \<sigma> \<and> (SignBytes m, Signature m) \<in> produced \<sigma>"
  shows "marks_ok gm (\<sigma>\<lparr>sstore := s'\<rparr>)"
  using assms(3) marks_okD [OF assms(1)] bytes_pinned_mono [OF _ assms(2)] sig_pinned_mono [OF _ _ assms(2)]
  unfolding marks_ok_def by simp blast

text \<open>History only grows.\<close>

lemma thread_ok_mono:
  "thread_ok adm \<sigma> p \<Longrightarrow> granted \<sigma> \<subseteq> granted \<sigma>' \<Longrightarrow> attempted \<sigma> \<subseteq> attempted \<sigma>' \<Longrightarrow> thread_ok adm \<sigma>' p"
  by (auto simp: thread_ok_def split: pc.splits)

lemma history_ok_mono:
  assumes "history_ok adm \<sigma>" and "granted \<sigma> \<subseteq> granted \<sigma>'" and "attempted \<sigma> \<subseteq> attempted \<sigma>'"
    and "signed \<sigma> \<subseteq> signed \<sigma>'" and "produced \<sigma> \<subseteq> produced \<sigma>'" and "signed \<sigma>' \<subseteq> granted \<sigma>'"
    and "threads \<sigma>' = (threads \<sigma>)(t := p)" and "thread_ok adm \<sigma>' p"
    and "\<And>q b sig. (q, b, sig) \<in> attempted \<sigma>' \<Longrightarrow> (q, b, sig) \<notin> attempted \<sigma> \<Longrightarrow>
      adm (qChain q) \<and> (qChain q, q_hrs q, b) \<in> signed \<sigma>' \<and> (b, sig) \<in> produced \<sigma>'"
    and "\<And>c k sig. (c, k, sig) \<in> released \<sigma>' \<Longrightarrow> (c, k, sig) \<notin> released \<sigma> \<Longrightarrow>
      \<exists>b. (c, k, b) \<in> signed \<sigma>' \<and> (b, sig) \<in> produced \<sigma>'"
  shows "history_ok adm \<sigma>'"
  unfolding history_ok_def
proof (intro conjI allI impI)
  show "signed \<sigma>' \<subseteq> granted \<sigma>'" by fact
  show "thread_ok adm \<sigma>' (threads \<sigma>' u)" for u
    using assms(7,8) thread_ok_mono [OF history_okD(2) [OF assms(1)] assms(2,3)] by simp
  fix q b sig assume "(q, b, sig) \<in> attempted \<sigma>'"
  then have "adm (qChain q) \<and> (qChain q, q_hrs q, b) \<in> signed \<sigma>' \<and> (b, sig) \<in> produced \<sigma>'"
    using assms(4,5,9) history_okD(3) [OF assms(1)] by blast
  then show "adm (qChain q)" "(qChain q, q_hrs q, b) \<in> signed \<sigma>'" "(b, sig) \<in> produced \<sigma>'" by simp_all
next
  fix c k sig assume "(c, k, sig) \<in> released \<sigma>'"
  then show "\<exists>b. (c, k, b) \<in> signed \<sigma>' \<and> (b, sig) \<in> produced \<sigma>'"
    using assms(4,5,10) history_okD(4) [OF assms(1)] by blast
qed

lemma history_ok_store: "history_ok adm \<sigma> \<Longrightarrow> history_ok adm (\<sigma>\<lparr>sstore := s'\<rparr>)"
  by (simp add: history_ok_def thread_ok_def cong: pc.case_cong)

lemma one_payloadD: "one_payload A \<Longrightarrow> (c, k, b) \<in> A \<Longrightarrow> (c, k, b') \<in> A \<Longrightarrow> b = b'"
  unfolding one_payload_def by blast

lemma one_payload_insert:
  "one_payload A \<Longrightarrow> (\<And>b'. (c, k, b') \<in> A \<Longrightarrow> b' = b) \<Longrightarrow> one_payload (insert (c, k, b) A)"
  by (auto simp: one_payload_def)

lemma one_payload_subset: "one_payload A \<Longrightarrow> B \<subseteq> A \<Longrightarrow> one_payload B"
  unfolding one_payload_def by blast

subsection \<open>Every store that keeps the contract keeps the invariant\<close>

context sign_gate
begin

abbreviation ops :: "('o, 's) store_ops" where
  "ops \<equiv> \<lparr>sReserve = reserve, sCommit = commit\<rparr>"

lemma reserve_moves:
  assumes "marks_ok gmark \<sigma>" "admissible (qChain q)" "do_reserve ops env (sstore \<sigma>) q = (s', out)"
  shows "marks_ok gmark (\<sigma>\<lparr>sstore := s'\<rparr>)"
  using assms reserve_keeps_signatures
  by (intro marks_ok_move) (auto simp: do_reserve_def intro: reserve_mono)

lemma commit_moves:
  assumes "marks_ok gmark \<sigma>" "history_ok admissible \<sigma>" "(q, b, sig) \<in> attempted \<sigma>"
    "do_commit ops env (sstore \<sigma>) q b sig = (s', out)"
  shows "marks_ok gmark (\<sigma>\<lparr>sstore := s'\<rparr>)"
proof (rule marks_ok_move [OF assms(1)])
  note att = history_okD(3) [OF assms(2,3)]
  note c = assms(4) [unfolded do_commit_def, simplified]
  show "mark_le (gmark (sstore \<sigma>) k) (gmark s' k)" for k by (rule commit_mono [OF c])
  fix k m assume "gmark s' k = Some m" "Signature m \<noteq> []"
  from commit_signatures [OF _ c this] att show "gmark (sstore \<sigma>) k = Some m \<or>
      (k, mark_hrs m, SignBytes m) \<in> signed \<sigma> \<and> (SignBytes m, Signature m) \<in> produced \<sigma>" by auto
qed

lemma reserve_lands:
  assumes "admissible (qChain q)" "do_reserve ops env s q = (s', Inr res)"
  obtains m where "gmark s' (qChain q) = Some m" "mark_hrs m = q_hrs q"
    "Reuse res \<Longrightarrow> rSignature res = Signature m \<and> Signature m \<noteq> []"
    "\<not> Reuse res \<Longrightarrow> rSignBytes res = SignBytes m"
  using reserve_granted [OF assms(1) assms(2) [unfolded do_reserve_def, simplified]] that
  by (auto split: if_splits)

lemma commit_lands:
  assumes "admissible (qChain q)" "do_commit ops env s q b sig = (s', None)"
  obtains m where "gmark s' (qChain q) = Some m" "mark_hrs m = q_hrs q" "SignBytes m = b" "Signature m = sig"
  using commit_done [OF assms(1) assms(2) [unfolded do_commit_def, simplified]] that by auto

text \<open>Steps that release nothing and grant nothing.\<close>

lemma quiet_step_inv:
  assumes "sign_inv admissible gmark \<sigma>" and "marks_ok gmark (\<sigma>\<lparr>sstore := s'\<rparr>)" and "thread_ok admissible \<sigma> p"
  shows "sign_inv admissible gmark (\<sigma>\<lparr>sstore := s', threads := goto \<sigma> t p\<rparr>)"
proof -
  from assms(1) have h: "history_ok admissible \<sigma>" by (simp add: sign_inv_def)
  have "history_ok admissible (\<sigma>\<lparr>sstore := s', threads := goto \<sigma> t p\<rparr>)"
    by (rule history_ok_mono [OF h])
      (use assms(3) history_okD(1) [OF h] in \<open>auto intro: thread_ok_mono\<close>)
  moreover from assms(2) have "marks_ok gmark (\<sigma>\<lparr>sstore := s', threads := goto \<sigma> t p\<rparr>)"
    unfolding marks_ok_def by simp
  ultimately show ?thesis using assms(1) by (simp add: sign_inv_def)
qed

text \<open>A backend call, whether it failed or returned \<open>sig\<close>.\<close>

lemma backend_step_inv:
  assumes inv: "sign_inv admissible gmark \<sigma>" and th: "threads \<sigma> t = Signing q b ts"
    and "P \<subseteq> {(b, sig)}" and "A = (if P = {} then {} else {(q, b, sig)})"
    and "p = Returned r \<or> p = Committing q b sig ts \<and> P \<noteq> {}"
  shows "sign_inv admissible gmark (\<sigma>\<lparr>threads := goto \<sigma> t p, signed := insert (qChain q, q_hrs q, b) (signed \<sigma>),
      produced := P \<union> produced \<sigma>, attempted := A \<union> attempted \<sigma>\<rparr>)" (is "sign_inv _ _ ?\<sigma>'")
proof -
  from inv have h: "history_ok admissible \<sigma>" and m: "marks_ok gmark \<sigma>" by (simp_all add: sign_inv_def)
  from history_okD(2) [OF h, of t] th have g: "admissible (qChain q)" "(qChain q, q_hrs q, b) \<in> granted \<sigma>"
    by (simp_all add: thread_ok_def)
  have "history_ok admissible ?\<sigma>'"
    by (rule history_ok_mono [OF h])
      (use g assms(3-) history_okD(1) [OF h] in \<open>auto simp: thread_ok_def split: if_splits\<close>)
  moreover from m have "marks_ok gmark ?\<sigma>'" unfolding marks_ok_def by auto
  ultimately show ?thesis using inv by (simp add: sign_inv_def)
qed

lemma grant_inv:
  assumes inv: "sign_inv admissible gmark \<sigma>" and th: "threads \<sigma> t = Reserving q"
    and res: "do_reserve ops env (sstore \<sigma>) q = (s', Inr res)" and "\<not> (Reuse res \<and> rSignature res \<noteq> [])"
  shows "sign_inv admissible gmark (\<sigma>\<lparr>sstore := s',
      threads := goto \<sigma> t (Signing q (rSignBytes res) (rTimestamp res)),
      granted := insert (qChain q, q_hrs q, rSignBytes res) (granted \<sigma>)\<rparr>)" (is "sign_inv _ _ ?\<sigma>'")
proof -
  from inv have h: "history_ok admissible \<sigma>" and m: "marks_ok gmark \<sigma>" and p: "one_payload (granted \<sigma>)"
    "one_payload {x \<in> released \<sigma>. snd (snd x) \<noteq> []}" by (simp_all add: sign_inv_def)
  from history_okD(2) [OF h, of t] th have adm: "admissible (qChain q)" by (simp add: thread_ok_def)
  from reserve_lands [OF adm res] assms(4) obtain mk where mk: "gmark s' (qChain q) = Some mk"
    "mark_hrs mk = q_hrs q" "rSignBytes res = SignBytes mk" by metis
  note m' = reserve_moves [OF m adm res]
  have pin: "b' = rSignBytes res" if "(qChain q, q_hrs q, b') \<in> granted \<sigma>" for b'
    using marks_okD(1) [OF m', of "qChain q" "q_hrs q" b'] that mk by (auto simp: bytes_pinned_def)
  have new: "bytes_pinned (gmark s' (qChain q)) (q_hrs q) (rSignBytes res)"
    using mk by (simp add: bytes_pinned_def)
  have "history_ok admissible ?\<sigma>'"
    by (rule history_ok_mono [OF h]) (use adm history_okD(1) [OF h] in \<open>auto simp: thread_ok_def\<close>)
  moreover have "marks_ok gmark ?\<sigma>'"
    using m' new unfolding marks_ok_def by auto
  ultimately show ?thesis
    using p one_payload_insert [OF p(1) pin] by (simp add: sign_inv_def)
qed

lemma release_inv:
  assumes inv: "sign_inv admissible gmark \<sigma>" and m': "marks_ok gmark (\<sigma>\<lparr>sstore := s'\<rparr>)"
    and mk: "gmark s' c = Some mk" "mark_hrs mk = k" "Signature mk = sig"
    and "(c, k, SignBytes mk) \<in> signed \<sigma>" "(SignBytes mk, sig) \<in> produced \<sigma>"
  shows "sign_inv admissible gmark (\<sigma>\<lparr>sstore := s', threads := goto \<sigma> t (Returned r),
      released := insert (c, k, sig) (released \<sigma>)\<rparr>)" (is "sign_inv _ _ ?\<sigma>'")
proof -
  from inv have h: "history_ok admissible \<sigma>" and p: "one_payload (granted \<sigma>)"
    "one_payload {x \<in> released \<sigma>. snd (snd x) \<noteq> []}" by (simp_all add: sign_inv_def)
  have "history_ok admissible ?\<sigma>'"
    by (rule history_ok_mono [OF h]) (use assms history_okD(1) [OF h] in \<open>auto simp: thread_ok_def\<close>)
  moreover have "sig_pinned (gmark s' c) k sig" using mk by (simp add: sig_pinned_def)
  then have "marks_ok gmark ?\<sigma>'" using m' unfolding marks_ok_def by auto
  moreover have "one_payload {x \<in> released ?\<sigma>'. snd (snd x) \<noteq> []}"
  proof -
    have "s2 = sig" if "(c, k, s2) \<in> {x \<in> released \<sigma>. snd (snd x) \<noteq> []}" for s2
      using marks_okD(2) [OF m', of c k s2] that mk by (auto simp: sig_pinned_def)
    from one_payload_insert [OF p(2) this] show ?thesis by (rule one_payload_subset) auto
  qed
  ultimately show ?thesis using p by (simp add: sign_inv_def)
qed

lemma sign_step_inv:
  assumes "sign_step admissible gmark ops \<sigma> \<sigma>'" and inv: "sign_inv admissible gmark \<sigma>"
  shows "sign_inv admissible gmark \<sigma>'"
  using assms(1)
proof cases
  case (grant t q env s' res)
  then show ?thesis using grant_inv [OF inv] by simp
next
  case (reused t q env s' res)
  from inv have h: "history_ok admissible \<sigma>" and m: "marks_ok gmark \<sigma>" by (simp_all add: sign_inv_def)
  from history_okD(2) [OF h, of t] reused(2) have adm: "admissible (qChain q)" by (simp add: thread_ok_def)
  note m' = reserve_moves [OF m adm reused(3)]
  obtain mk where mk: "gmark s' (qChain q) = Some mk" "mark_hrs mk = q_hrs q"
    "rSignature res = Signature mk" "Signature mk \<noteq> []" using reserve_lands [OF adm reused(3)] reused(4) by metis
  from marks_okD(3) [OF m', of "qChain q" mk] mk release_inv [OF inv m', of "qChain q" mk]
  show ?thesis unfolding reused(1) by simp
next
  case (commit_ok t q b sig ts env s')
  from inv have h: "history_ok admissible \<sigma>" and m: "marks_ok gmark \<sigma>" by (simp_all add: sign_inv_def)
  from history_okD(2) [OF h, of t] commit_ok(2) have att: "(q, b, sig) \<in> attempted \<sigma>" by (simp add: thread_ok_def)
  note att' = history_okD(3) [OF h att]
  obtain mk where "gmark s' (qChain q) = Some mk" "mark_hrs mk = q_hrs q" "SignBytes mk = b" "Signature mk = sig"
    using commit_lands [OF _ commit_ok(3)] att' by metis
  with release_inv [OF inv commit_moves [OF m h att commit_ok(3)], of "qChain q" mk] att'
  show ?thesis unfolding commit_ok(1) by simp
next
  case (environment s')
  then show ?thesis using inv by (auto simp: sign_inv_def history_ok_store marks_ok_def)
next
  case (late_reserve q env s' out)
  then show ?thesis using inv by (auto simp: sign_inv_def history_ok_store reserve_moves)
next
  case (late_commit q b sig env s' out)
  then show ?thesis using inv by (auto simp: sign_inv_def history_ok_store commit_moves)
next
  case (crash t)
  then show ?thesis using quiet_step_inv [OF inv, of "sstore \<sigma>" Idle t] inv by (simp add: sign_inv_def thread_ok_def)
next
  case (arrive t q)
  then show ?thesis using quiet_step_inv [OF inv, of "sstore \<sigma>" "Reserving q" t] inv
    by (simp add: sign_inv_def thread_ok_def)
next
  case (refused t q env s' e)
  from inv have h: "history_ok admissible \<sigma>" and m: "marks_ok gmark \<sigma>" by (simp_all add: sign_inv_def)
  from history_okD(2) [OF h, of t] refused(2) have "admissible (qChain q)" by (simp add: thread_ok_def)
  from quiet_step_inv [OF inv reserve_moves [OF m this refused(3)]] refused(1)
  show ?thesis by (simp add: thread_ok_def)
next
  case (sign_failed t q b ts e)
  from backend_step_inv [OF inv this(2), of "{}"] sign_failed(1) show ?thesis by simp
next
  case (sign_done t q b ts sig)
  from backend_step_inv [OF inv this(2), of "{(b, sig)}" sig] sign_done(1) show ?thesis by simp
next
  case (commit_failed t q b sig ts env s' e)
  from inv have h: "history_ok admissible \<sigma>" and m: "marks_ok gmark \<sigma>" by (simp_all add: sign_inv_def)
  from history_okD(2) [OF h, of t] commit_failed(2) have "(q, b, sig) \<in> attempted \<sigma>" by (simp add: thread_ok_def)
  from quiet_step_inv [OF inv commit_moves [OF m h this commit_failed(3)]] commit_failed(1)
  show ?thesis by (simp add: thread_ok_def)
qed

lemma sign_run_inv: "sign_run admissible gmark ops s0 \<sigma> \<Longrightarrow> sign_inv admissible gmark \<sigma>"
proof -
  assume "sign_run admissible gmark ops s0 \<sigma>"
  then have start: "\<forall>c. gmark s0 c = None" and run: "(sign_step admissible gmark ops)\<^sup>*\<^sup>* (sys_init s0) \<sigma>"
    by (simp_all add: sign_run_def)
  from run show ?thesis
  proof induction
    case base
    with start show ?case
      by (simp add: sign_inv_def history_ok_def marks_ok_def one_payload_def thread_ok_def sys_init_def)
  next
    case (step \<sigma>1 \<sigma>2)
    then show ?case by (blast intro: sign_step_inv)
  qed
qed

end

subsection \<open>A call without interference is one run of its thread\<close>

text \<open>The steps of the call for request \<open>q\<close> on thread \<open>t\<close>: those that move the thread forward,
  starting with the arrival of \<open>q\<close>. Crashes, other threads, late entries and the environment are not
  among them.\<close>

definition own_step :: "(string \<Rightarrow> bool) \<Rightarrow> ('s \<Rightarrow> string \<Rightarrow> SignState option) \<Rightarrow> ('o, 's) store_ops \<Rightarrow>
    nat \<Rightarrow> request \<Rightarrow> 's sys \<Rightarrow> 's sys \<Rightarrow> bool" where
  "own_step adm gm st t q \<sigma> \<sigma>' \<longleftrightarrow> sign_step adm gm st \<sigma> \<sigma>' \<and> threads \<sigma>' t \<noteq> threads \<sigma> t \<and>
     threads \<sigma>' t \<noteq> Idle \<and> (threads \<sigma> t = Idle \<longrightarrow> threads \<sigma>' t = Reserving q)"

lemma own_steps_are_steps:
  "(own_step adm gm st t q)\<^sup>*\<^sup>* \<sigma> \<sigma>' \<Longrightarrow> (sign_step adm gm st)\<^sup>*\<^sup>* \<sigma> \<sigma>'"
  by (erule rtranclp_mono [THEN predicate2D, rotated]) (auto simp: own_step_def)

lemma own_stepI:
  "sign_step adm gm st \<sigma> \<sigma>' \<Longrightarrow> threads \<sigma>' t \<noteq> threads \<sigma> t \<Longrightarrow> threads \<sigma>' t \<noteq> Idle \<Longrightarrow>
   (threads \<sigma> t = Idle \<Longrightarrow> threads \<sigma>' t = Reserving q) \<Longrightarrow> own_step adm gm st t q \<sigma> \<sigma>'"
  by (simp add: own_step_def)

text \<open>A signer whose backend keeps the list of its sign calls: the bytes it was handed and its answer.\<close>

type_synonym backend_log = "(bytes \<times> bytes result) list"

definition recording :: "('o, 's, 'pub, 'k) GatedPrivValidator \<Rightarrow> ('o, 's, 'pub, 'k \<times> backend_log) GatedPrivValidator" where
  "recording g = \<lparr>gBackend = \<lparr>
       kPubKey = (\<lambda>(k, calls). case kPubKey (gBackend g) k of (k', r) \<Rightarrow> ((k', calls), r)),
       kSign = (\<lambda>(k, calls) b. case kSign (gBackend g) k b of (k', r) \<Rightarrow> ((k', calls @ [(b, r)]), r))\<rparr>,
     gStore = gStore g, gPub = gPub g\<rparr>"

lemma gStore_recording [simp]: "gStore (recording g) = gStore g"
  by (simp add: recording_def)

lemma kSign_recording [simp]:
  "kSign (gBackend (recording g)) (k, calls) b =
     (case kSign (gBackend g) k b of (k', r) \<Rightarrow> ((k', calls @ [(b, r)]), r))"
  by (simp add: recording_def)

text \<open>What a list of sign calls for request \<open>q\<close> adds to the history of a run.\<close>

definition signed_by :: "request \<Rightarrow> backend_log \<Rightarrow> (string \<times> hrs \<times> bytes) set" where
  "signed_by q calls = (\<lambda>(b, r). (qChain q, q_hrs q, b)) ` set calls"

definition produced_by :: "backend_log \<Rightarrow> (bytes \<times> bytes) set" where
  "produced_by calls = {(b, sig). (b, Inr sig) \<in> set calls}"

lemma signed_by_simps [simp]:
  "signed_by q [] = {}" "signed_by q [(b, r)] = {(qChain q, q_hrs q, b)}"
  by (simp_all add: signed_by_def)

lemma signed_by_set: "signed_by q calls = {(qChain q, q_hrs q, b) |b a. (b, a) \<in> set calls}"
  by (auto simp: signed_by_def)

lemma produced_by_simps [simp]:
  "produced_by [] = {}" "produced_by [(b, Inl e)] = {}" "produced_by [(b, Inr sig)] = {(b, sig)}"
  by (auto simp: produced_by_def)

definition adds_calls :: "request \<Rightarrow> backend_log \<Rightarrow> 's sys \<Rightarrow> 's sys \<Rightarrow> bool" where
  "adds_calls q calls \<sigma> \<sigma>' \<longleftrightarrow>
     signed \<sigma>' = signed \<sigma> \<union> signed_by q calls \<and> produced \<sigma>' = produced \<sigma> \<union> produced_by calls"

text \<open>What a thread standing at \<open>p\<close> may still return, the store it leaves then and the sign calls it
  makes until then.\<close>

definition commit_outcome :: "('o, 's) store_ops \<Rightarrow> 's \<Rightarrow> request \<Rightarrow> bytes \<Rightarrow> bytes \<Rightarrow> time \<Rightarrow>
    's \<Rightarrow> (bytes \<times> time) result \<Rightarrow> bool" where
  "commit_outcome st s q b sig ts s' out \<longleftrightarrow> (\<exists>env rc. do_commit st env s q b sig = (s', rc) \<and>
     out = (case rc of None \<Rightarrow> Inr (sig, ts) | Some e \<Rightarrow> Inl (Errorf ''commit signature'' [e])))"

definition sign_outcome :: "('o, 's) store_ops \<Rightarrow> 's \<Rightarrow> request \<Rightarrow> bytes \<Rightarrow> time \<Rightarrow>
    's \<Rightarrow> (bytes \<times> time) result \<Rightarrow> backend_log \<Rightarrow> bool" where
  "sign_outcome st s q b ts s' out calls \<longleftrightarrow> (\<exists>rs. calls = [(b, rs)] \<and> (case rs of
       Inl e \<Rightarrow> s' = s \<and> out = Inl (Errorf ''backend sign'' [e])
     | Inr sig \<Rightarrow> commit_outcome st s q b sig ts s' out))"

definition reserve_outcome :: "('o, 's) store_ops \<Rightarrow> 's \<Rightarrow> request \<Rightarrow> 's \<Rightarrow> (bytes \<times> time) result \<Rightarrow>
    backend_log \<Rightarrow> bool" where
  "reserve_outcome st s q s' out calls \<longleftrightarrow> (\<exists>env s1 ra. do_reserve st env s q = (s1, ra) \<and> (case ra of
       Inl e \<Rightarrow> s' = s1 \<and> out = Inl e \<and> calls = []
     | Inr rr \<Rightarrow>
         if Reuse rr \<and> rSignature rr \<noteq> []
         then s' = s1 \<and> out = Inr (rSignature rr, rTimestamp rr) \<and> calls = []
         else sign_outcome st s1 q (rSignBytes rr) (rTimestamp rr) s' out calls))"

definition call_outcome :: "('o, 's) store_ops \<Rightarrow> request \<Rightarrow> 's \<Rightarrow> pc \<Rightarrow> 's \<Rightarrow> (bytes \<times> time) result \<Rightarrow>
    backend_log \<Rightarrow> bool" where
  "call_outcome st q0 s p s' out calls =
     (case p of
        Idle \<Rightarrow> reserve_outcome st s q0 s' out calls
      | Reserving q \<Rightarrow> reserve_outcome st s q s' out calls
      | Signing q b ts \<Rightarrow> sign_outcome st s q b ts s' out calls
      | Committing q b sig ts \<Rightarrow> commit_outcome st s q b sig ts s' out \<and> calls = []
      | Returned r \<Rightarrow> s' = s \<and> out = r \<and> calls = [])"

fun pc_request :: "request \<Rightarrow> pc \<Rightarrow> request" where
  "pc_request q0 (Reserving q) = q"
| "pc_request q0 (Signing q b ts) = q"
| "pc_request q0 (Committing q b sig ts) = q"
| "pc_request q0 _ = q0"

definition run_outcome :: "('o, 's) store_ops \<Rightarrow> request \<Rightarrow> nat \<Rightarrow> 's sys \<Rightarrow> 's sys \<Rightarrow>
    (bytes \<times> time) result \<Rightarrow> backend_log \<Rightarrow> bool" where
  "run_outcome st q0 t \<sigma> \<sigma>' out calls \<longleftrightarrow>
     call_outcome st q0 (sstore \<sigma>) (threads \<sigma> t) (sstore \<sigma>') out calls \<and>
     adds_calls (pc_request q0 (threads \<sigma> t)) calls \<sigma> \<sigma>'"

lemmas outcome_defs = run_outcome_def call_outcome_def adds_calls_def

text \<open>Backwards over one step, hence over all of them.\<close>

lemma own_step_outcome:
  assumes "own_step adm gm st t q0 \<sigma> \<sigma>1" and "run_outcome st q0 t \<sigma>1 \<sigma>' out calls"
  shows "\<exists>calls'. run_outcome st q0 t \<sigma> \<sigma>' out calls'"
proof -
  from assms(1) have "sign_step adm gm st \<sigma> \<sigma>1" and n: "threads \<sigma>1 t \<noteq> threads \<sigma> t" "threads \<sigma>1 t \<noteq> Idle"
    "threads \<sigma> t = Idle \<longrightarrow> threads \<sigma>1 t = Reserving q0" by (auto simp: own_step_def)
  from this(1) show ?thesis
  proof cases
    case (arrive u q)
    with n assms(2) show ?thesis by (intro exI [of _ calls]) (auto simp: outcome_defs split: if_splits)
  next
    case (refused u q env s1 e)
    with n have "u = t" by (auto split: if_splits)
    with refused assms(2) show ?thesis
      by (intro exI [of _ "[]"])
        (auto simp: outcome_defs reserve_outcome_def intro!: exI [of _ env] exI [of _ s1] exI [of _ "Inl e"])
  next
    case (reused u q env s1 res)
    with n have "u = t" by (auto split: if_splits)
    with reused assms(2) show ?thesis
      by (intro exI [of _ "[]"])
        (auto simp: outcome_defs reserve_outcome_def intro!: exI [of _ env] exI [of _ s1] exI [of _ "Inr res"])
  next
    case (grant u q env s1 res)
    with n have "u = t" by (auto split: if_splits)
    with grant assms(2) show ?thesis
      by (intro exI [of _ calls])
        (auto simp: outcome_defs reserve_outcome_def intro!: exI [of _ env] exI [of _ s1] exI [of _ "Inr res"])
  next
    case (sign_failed u q b ts e)
    with n have "u = t" by (auto split: if_splits)
    with sign_failed assms(2) show ?thesis
      by (intro exI [of _ "[(b, Inl e)]"]) (auto simp: outcome_defs sign_outcome_def)
  next
    case (sign_done u q b ts sig)
    with n have "u = t" by (auto split: if_splits)
    with sign_done assms(2) show ?thesis
      by (intro exI [of _ "[(b, Inr sig)]"]) (auto simp: outcome_defs sign_outcome_def)
  next
    case (commit_failed u q b sig ts env s1 e)
    with n have "u = t" by (auto split: if_splits)
    with commit_failed assms(2) show ?thesis
      by (intro exI [of _ "[]"]) (auto simp: outcome_defs commit_outcome_def intro!: exI [of _ env])
  next
    case (commit_ok u q b sig ts env s1)
    with n have "u = t" by (auto split: if_splits)
    with commit_ok assms(2) show ?thesis
      by (intro exI [of _ "[]"]) (auto simp: outcome_defs commit_outcome_def intro!: exI [of _ env])
  qed (use n in \<open>auto split: if_splits\<close>)
qed

lemma own_steps_outcome:
  assumes "(own_step adm gm st t q)\<^sup>*\<^sup>* \<sigma> \<sigma>'" and "threads \<sigma>' t = Returned out"
  shows "\<exists>calls. run_outcome st q t \<sigma> \<sigma>' out calls"
  using assms(1)
proof (induction rule: converse_rtranclp_induct)
  case base
  with assms(2) show ?case by (intro exI [of _ "[]"]) (simp add: outcome_defs)
next
  case (step \<sigma>0 \<sigma>1)
  then show ?case by (blast intro: own_step_outcome)
qed

text \<open>Reserve, backend and commit steps in the order of \<^verbatim>\<open>gatedSign\<close> end with its result.\<close>

lemma commit_phase:
  assumes "threads \<sigma> t = Committing q b sig ts" "do_commit st env (sstore \<sigma>) q b sig = (s', rc)"
  shows "\<exists>\<sigma>'. own_step adm gm st t q \<sigma> \<sigma>' \<and> sstore \<sigma>' = s' \<and>
    threads \<sigma>' t = Returned (case rc of None \<Rightarrow> Inr (sig, ts) | Some e \<Rightarrow> Inl (Errorf ''commit signature'' [e])) \<and>
    (rc = None \<longrightarrow> (qChain q, q_hrs q, sig) \<in> released \<sigma>') \<and> adds_calls q [] \<sigma> \<sigma>'"
proof (cases rc)
  case None
  show ?thesis
    by (intro exI conjI, rule own_stepI, rule sign_step.commit_ok [OF assms(1) assms(2) [unfolded None]]) (simp_all add: None assms(1) adds_calls_def)
next
  case (Some e)
  show ?thesis
    by (intro exI conjI, rule own_stepI, rule sign_step.commit_failed [OF assms(1) assms(2) [unfolded Some]]) (simp_all add: Some assms(1) adds_calls_def)
qed

lemma sign_phase:
  assumes "threads \<sigma> t = Signing q b ts"
  shows "\<exists>\<sigma>'. own_step adm gm st t q \<sigma> \<sigma>' \<and> sstore \<sigma>' = sstore \<sigma> \<and>
    threads \<sigma>' t = (case rs of Inr sig \<Rightarrow> Committing q b sig ts | Inl e \<Rightarrow> Returned (Inl (Errorf ''backend sign'' [e]))) \<and>
    adds_calls q [(b, rs)] \<sigma> \<sigma>'"
proof (cases rs)
  case (Inl e)
  show ?thesis by (intro exI conjI, rule own_stepI, rule sign_step.sign_failed [OF assms]) (simp_all add: Inl assms adds_calls_def)
next
  case (Inr sig)
  show ?thesis by (intro exI conjI, rule own_stepI, rule sign_step.sign_done [OF assms]) (simp_all add: Inr assms adds_calls_def)
qed

lemma reserve_phase:
  assumes "threads \<sigma> t = Idle" "adm (qChain q)" "do_reserve st env (sstore \<sigma>) q = (s', ra)"
  shows "\<exists>\<sigma>'. (own_step adm gm st t q)\<^sup>*\<^sup>* \<sigma> \<sigma>' \<and> sstore \<sigma>' = s' \<and>
    threads \<sigma>' t = (case ra of Inl e \<Rightarrow> Returned (Inl e) | Inr rr \<Rightarrow>
      if Reuse rr \<and> rSignature rr \<noteq> [] then Returned (Inr (rSignature rr, rTimestamp rr))
      else Signing q (rSignBytes rr) (rTimestamp rr)) \<and>
    (\<forall>rr. ra = Inr rr \<longrightarrow> Reuse rr \<and> rSignature rr \<noteq> [] \<longrightarrow> (qChain q, q_hrs q, rSignature rr) \<in> released \<sigma>') \<and>
    adds_calls q [] \<sigma> \<sigma>'"
proof -
  let ?\<sigma>1 = "\<sigma>\<lparr>threads := goto \<sigma> t (Reserving q)\<rparr>"
  have r1: "(own_step adm gm st t q)\<^sup>*\<^sup>* \<sigma> ?\<sigma>1" using assms(1,2) by (auto intro!: r_into_rtranclp own_stepI arrive)
  have t1: "threads ?\<sigma>1 t = Reserving q" by simp
  have dr: "do_reserve st env (sstore ?\<sigma>1) q = (s', ra)" using assms(3) by simp
  consider (refused) e where "ra = Inl e" | (reused) rr where "ra = Inr rr" "Reuse rr \<and> rSignature rr \<noteq> []"
    | (granted) rr where "ra = Inr rr" "\<not> (Reuse rr \<and> rSignature rr \<noteq> [])" by (cases ra) auto
  then have "\<exists>\<sigma>'. own_step adm gm st t q ?\<sigma>1 \<sigma>' \<and> sstore \<sigma>' = s' \<and>
    threads \<sigma>' t = (case ra of Inl e \<Rightarrow> Returned (Inl e) | Inr rr \<Rightarrow>
      if Reuse rr \<and> rSignature rr \<noteq> [] then Returned (Inr (rSignature rr, rTimestamp rr))
      else Signing q (rSignBytes rr) (rTimestamp rr)) \<and>
    (\<forall>rr. ra = Inr rr \<longrightarrow> Reuse rr \<and> rSignature rr \<noteq> [] \<longrightarrow> (qChain q, q_hrs q, rSignature rr) \<in> released \<sigma>') \<and>
    adds_calls q [] \<sigma> \<sigma>'"
  proof cases
    case (refused e)
    show ?thesis by (intro exI conjI, rule own_stepI, rule sign_step.refused [OF t1 dr [unfolded refused]]) (simp_all add: refused adds_calls_def)
  next
    case (reused rr)
    show ?thesis
      by (intro exI conjI, rule own_stepI, rule sign_step.reused [OF t1 dr [unfolded reused(1)] reused(2)]) (use reused in \<open>simp_all add: adds_calls_def\<close>)
  next
    case (granted rr)
    show ?thesis
      by (intro exI conjI, rule own_stepI, rule sign_step.grant [OF t1 dr [unfolded granted(1)] granted(2)])
        (use granted in \<open>auto simp: adds_calls_def\<close>)
  qed
  then show ?thesis using rtranclp.rtrancl_into_rtrancl [OF r1] by blast
qed

lemma gatedSign_recording:
  assumes "gatedSign (recording g) envs (s, (k, cs)) c h r p b ts = ((s', (k', calls)), out)"
  shows "gatedSign g envs (s, k) c h r p b ts = ((s', k'), out)"
  using assms by (auto simp: gatedSign_def split: prod.splits sum.splits option.splits if_splits)

text \<open>The call, its thread's steps, and the sign calls it makes: what the backend is handed is what the
  steps record as signed, what it answers is what they record as produced.\<close>

lemma own_gatedSign_steps:
  assumes g: "gatedSign g envs (sstore \<sigma>, k) (qChain q) (qHeight q) (qRound q) (qStep q) (qBytes q) (qTime q) = ((s', k'), out)"
    and "threads \<sigma> t = Idle" and "adm (qChain q)"
  shows "\<exists>\<sigma>' calls. (own_step adm gm (gStore g) t q)\<^sup>*\<^sup>* \<sigma> \<sigma>' \<and> sstore \<sigma>' = s' \<and> threads \<sigma>' t = Returned out \<and>
    (\<forall>sig ts'. out = Inr (sig, ts') \<longrightarrow> (qChain q, q_hrs q, sig) \<in> released \<sigma>') \<and> adds_calls q calls \<sigma> \<sigma>' \<and>
    gatedSign (recording g) envs (sstore \<sigma>, (k, [])) (qChain q) (qHeight q) (qRound q) (qStep q) (qBytes q) (qTime q) =
      ((s', (k', calls)), out)"
proof -
  obtain sa ra where res: "sReserve (gStore g) (fst envs) (sstore \<sigma>) (qChain q) (qHeight q) (qRound q) (qStep q) (qBytes q) (qTime q) = (sa, ra)" by fastforce
  then have dr: "do_reserve (gStore g) (fst envs) (sstore \<sigma>) q = (sa, ra)" by (simp add: do_reserve_def)
  from reserve_phase [OF assms(2), of adm q "gStore g" "fst envs" sa ra gm] dr assms(3) obtain \<sigma>1 where
    r1: "(own_step adm gm (gStore g) t q)\<^sup>*\<^sup>* \<sigma> \<sigma>1" and s1: "sstore \<sigma>1 = sa" and
    t1: "threads \<sigma>1 t = (case ra of Inl e \<Rightarrow> Returned (Inl e) | Inr rr \<Rightarrow>
      if Reuse rr \<and> rSignature rr \<noteq> [] then Returned (Inr (rSignature rr, rTimestamp rr))
      else Signing q (rSignBytes rr) (rTimestamp rr))" and
    l1: "\<forall>rr. ra = Inr rr \<longrightarrow> Reuse rr \<and> rSignature rr \<noteq> [] \<longrightarrow> (qChain q, q_hrs q, rSignature rr) \<in> released \<sigma>1" and
    a1: "adds_calls q [] \<sigma> \<sigma>1"
    by auto
  show ?thesis
  proof (cases "\<exists>rr. ra = Inr rr \<and> \<not> (Reuse rr \<and> rSignature rr \<noteq> [])")
    case False
    then have "s' = sa \<and> threads \<sigma>1 t = Returned out \<and>
        (\<forall>sig ts'. out = Inr (sig, ts') \<longrightarrow> (qChain q, q_hrs q, sig) \<in> released \<sigma>1) \<and>
        gatedSign (recording g) envs (sstore \<sigma>, (k, [])) (qChain q) (qHeight q) (qRound q) (qStep q) (qBytes q) (qTime q) =
          ((s', (k', [])), out)"
      using g t1 l1 by (auto simp: gatedSign_def res split: sum.splits)
    with r1 s1 a1 show ?thesis by blast
  next
    case True
    then obtain rr where ra: "ra = Inr rr" and n: "\<not> (Reuse rr \<and> rSignature rr \<noteq> [])" by blast
    obtain k1 rs where sg: "kSign (gBackend g) k (rSignBytes rr) = (k1, rs)" by fastforce
    from t1 ra n have "threads \<sigma>1 t = Signing q (rSignBytes rr) (rTimestamp rr)" by auto
    from sign_phase [OF this, of adm gm "gStore g" rs] s1 obtain \<sigma>2 where
      "own_step adm gm (gStore g) t q \<sigma>1 \<sigma>2" and s2: "sstore \<sigma>2 = sa" and t2: "threads \<sigma>2 t = (case rs of
        Inr sig \<Rightarrow> Committing q (rSignBytes rr) sig (rTimestamp rr) | Inl e \<Rightarrow> Returned (Inl (Errorf ''backend sign'' [e])))"
      and a2: "adds_calls q [(rSignBytes rr, rs)] \<sigma>1 \<sigma>2"
      by blast
    then have r2: "(own_step adm gm (gStore g) t q)\<^sup>*\<^sup>* \<sigma> \<sigma>2" using r1 by (simp add: rtranclp.rtrancl_into_rtrancl)
    from a1 a2 have a: "adds_calls q [(rSignBytes rr, rs)] \<sigma> \<sigma>2" by (simp add: adds_calls_def)
    show ?thesis
    proof (cases rs)
      case (Inl e)
      with g res ra n sg have "s' = sa" "out = Inl (Errorf ''backend sign'' [e])"
        "gatedSign (recording g) envs (sstore \<sigma>, (k, [])) (qChain q) (qHeight q) (qRound q) (qStep q) (qBytes q) (qTime q) =
          ((s', (k', [(rSignBytes rr, rs)])), out)" by (auto simp: gatedSign_def)
      with r2 s2 t2 a Inl show ?thesis by (intro exI [of _ \<sigma>2] exI [of _ "[(rSignBytes rr, rs)]"]) simp
    next
      case (Inr sig)
      obtain sb rc where cm: "sCommit (gStore g) (snd envs) sa (qChain q) (qHeight q) (qRound q) (qStep q) (rSignBytes rr) sig = (sb, rc)" by fastforce
      then have dc: "do_commit (gStore g) (snd envs) (sstore \<sigma>2) q (rSignBytes rr) sig = (sb, rc)"
        by (simp add: do_commit_def s2)
      from t2 Inr have "threads \<sigma>2 t = Committing q (rSignBytes rr) sig (rTimestamp rr)" by simp
      from commit_phase [OF this dc, of adm gm] obtain \<sigma>3 where "own_step adm gm (gStore g) t q \<sigma>2 \<sigma>3"
        and s3: "sstore \<sigma>3 = sb" and t3: "threads \<sigma>3 t = Returned (case rc of None \<Rightarrow> Inr (sig, rTimestamp rr)
          | Some e \<Rightarrow> Inl (Errorf ''commit signature'' [e]))"
        and l3: "rc = None \<longrightarrow> (qChain q, q_hrs q, sig) \<in> released \<sigma>3" and a3: "adds_calls q [] \<sigma>2 \<sigma>3" by auto
      then have "(own_step adm gm (gStore g) t q)\<^sup>*\<^sup>* \<sigma> \<sigma>3" using r2 by (simp add: rtranclp.rtrancl_into_rtrancl)
      moreover from a a3 have "adds_calls q [(rSignBytes rr, rs)] \<sigma> \<sigma>3" by (simp add: adds_calls_def)
      moreover from g res ra n sg Inr cm have "s' = sb" "out = (case rc of None \<Rightarrow> Inr (sig, rTimestamp rr)
          | Some e \<Rightarrow> Inl (Errorf ''commit signature'' [e]))" by (auto simp: gatedSign_def split: option.splits)
      moreover from g res ra n sg Inr cm have
        "gatedSign (recording g) envs (sstore \<sigma>, (k, [])) (qChain q) (qHeight q) (qRound q) (qStep q) (qBytes q) (qTime q) =
          ((s', (k', [(rSignBytes rr, rs)])), out)" by (auto simp: gatedSign_def split: option.splits)
      ultimately show ?thesis using s3 t3 l3
        by (intro exI [of _ \<sigma>3] exI [of _ "[(rSignBytes rr, rs)]"]) (auto split: option.splits)
    qed
  qed
qed

lemma gatedSign_steps:
  assumes "gatedSign g envs (sstore \<sigma>, k) c h r p b ts = ((s', k'), out)"
    and "threads \<sigma> t = Idle" and "adm c"
  shows "\<exists>\<sigma>' calls. (sign_step adm gm (gStore g))\<^sup>*\<^sup>* \<sigma> \<sigma>' \<and> sstore \<sigma>' = s' \<and> threads \<sigma>' t = Returned out \<and>
    (\<forall>sig ts'. out = Inr (sig, ts') \<longrightarrow> (c, hrs_of h r p, sig) \<in> released \<sigma>') \<and>
    gatedSign (recording g) envs (sstore \<sigma>, (k, [])) c h r p b ts = ((s', (k', calls)), out) \<and>
    signed \<sigma>' = signed \<sigma> \<union> {(c, hrs_of h r p, b') |b' a. (b', a) \<in> set calls} \<and>
    produced \<sigma>' = produced \<sigma> \<union> {(b', sig). (b', Inr sig) \<in> set calls}"
proof -
  let ?q = "\<lparr>qChain = c, qHeight = h, qRound = r, qStep = p, qBytes = b, qTime = ts\<rparr>"
  from own_gatedSign_steps [of g envs \<sigma> k ?q s' k' out t adm gm] assms obtain \<sigma>' calls where
    "(own_step adm gm (gStore g) t ?q)\<^sup>*\<^sup>* \<sigma> \<sigma>'" "sstore \<sigma>' = s'" "threads \<sigma>' t = Returned out"
    "\<forall>sig ts'. out = Inr (sig, ts') \<longrightarrow> (c, hrs_of h r p, sig) \<in> released \<sigma>'" "adds_calls ?q calls \<sigma> \<sigma>'"
    "gatedSign (recording g) envs (sstore \<sigma>, (k, [])) c h r p b ts = ((s', (k', calls)), out)"
    by auto
  then show ?thesis
    by (intro exI [of _ \<sigma>'] exI [of _ calls])
      (auto simp: adds_calls_def signed_by_set produced_by_def dest: own_steps_are_steps)
qed

text \<open>Every outcome of a call is a result of \<^verbatim>\<open>gatedSign\<close> for some backend.\<close>

lemma reserve_outcome_gatedSign:
  fixes g :: "('o, 's, 'pub, 'k) GatedPrivValidator"
  assumes "reserve_outcome (gStore g) s q s' out calls"
  shows "\<exists>envs bk k'. gatedSign (recording (g\<lparr>gBackend := bk\<rparr>)) envs (s, (k, []))
    (qChain q) (qHeight q) (qRound q) (qStep q) (qBytes q) (qTime q) = ((s', (k', calls)), out)"
proof -
  from assms obtain env s1 ra where
    res: "sReserve (gStore g) env s (qChain q) (qHeight q) (qRound q) (qStep q) (qBytes q) (qTime q) = (s1, ra)"
    and ra: "case ra of Inl e \<Rightarrow> s' = s1 \<and> out = Inl e \<and> calls = []
     | Inr rr \<Rightarrow> if Reuse rr \<and> rSignature rr \<noteq> []
         then s' = s1 \<and> out = Inr (rSignature rr, rTimestamp rr) \<and> calls = []
         else sign_outcome (gStore g) s1 q (rSignBytes rr) (rTimestamp rr) s' out calls"
    by (auto simp: reserve_outcome_def do_reserve_def)
  show ?thesis
  proof (cases "\<exists>rr. ra = Inr rr \<and> \<not> (Reuse rr \<and> rSignature rr \<noteq> [])")
    case False
    with res ra show ?thesis
      by (intro exI [of _ "(env, env)"] exI [of _ "gBackend g"] exI [of _ k])
        (auto simp: gatedSign_def split: sum.splits)
  next
    case True
    then obtain rr where rr: "ra = Inr rr" "\<not> (Reuse rr \<and> rSignature rr \<noteq> [])" by blast
    with ra obtain rs where calls: "calls = [(rSignBytes rr, rs)]"
      and rs: "case rs of Inl e \<Rightarrow> s' = s1 \<and> out = Inl (Errorf ''backend sign'' [e])
       | Inr sig \<Rightarrow> commit_outcome (gStore g) s1 q (rSignBytes rr) sig (rTimestamp rr) s' out"
      by (auto simp: sign_outcome_def)
    have run: "gatedSign (recording (g\<lparr>gBackend := \<lparr>kPubKey = kPubKey (gBackend g), kSign = (\<lambda>k _. (k, rs))\<rparr>\<rparr>)) (env, env') (s, (k, []))
        (qChain q) (qHeight q) (qRound q) (qStep q) (qBytes q) (qTime q) = (case rs of
          Inl e \<Rightarrow> ((s1, (k, calls)), Inl (Errorf ''backend sign'' [e]))
        | Inr sig \<Rightarrow> (case do_commit (gStore g) env' s1 q (rSignBytes rr) sig of
            (s2, Some e) \<Rightarrow> ((s2, (k, calls)), Inl (Errorf ''commit signature'' [e]))
          | (s2, None) \<Rightarrow> ((s2, (k, calls)), Inr (sig, rTimestamp rr))))" for env'
      using rr(2) by (cases rs) (auto simp: gatedSign_def res rr(1) calls do_commit_def split: prod.split option.split)
    show ?thesis
    proof (cases rs)
      case (Inl e)
      with rs run [of env] show ?thesis by auto
    next
      case (Inr sig)
      with rs obtain env' rc where "do_commit (gStore g) env' s1 q (rSignBytes rr) sig = (s', rc)"
        "out = (case rc of None \<Rightarrow> Inr (sig, rTimestamp rr) | Some e \<Rightarrow> Inl (Errorf ''commit signature'' [e]))"
        by (auto simp: commit_outcome_def)
      with Inr run [of env'] show ?thesis by (cases rc) auto
    qed
  qed
qed

end
