(* ===== verification/SignSafety.thy ===== *)
theory SignSafety
  imports SignSystem
begin

section \<open>Double-sign safety of the cluster\<close>

text \<open>
  The runs of \<open>SignSystem\<close> over the raft store: what may be handed to the key backend and what may
  be returned to a node, whatever the interleaving, the leadership changes, the lost replies and the
  backend do. The facts come from the interpretation of the gate's contract in \<open>RaftStore\<close>.
\<close>

subsection \<open>The raft store as the signer's store\<close>

definition raft_ops :: "('p, 'v) canon \<Rightarrow> (raft_env, fsm) store_ops" where
  "raft_ops cn = \<lparr>sReserve = Reserve cn, sCommit = Commit cn\<rparr>"

lemma raft_run_inv: "sign_run ascii mark (raft_ops cn) s0 \<sigma> \<Longrightarrow> sign_inv ascii mark \<sigma>"
  unfolding raft_ops_def by (rule raft_gate.sign_run_inv)

lemma raft_run_payload:
  "sign_run ascii mark (raft_ops cn) s0 \<sigma> \<Longrightarrow> (c, k, b) \<in> signed \<sigma> \<Longrightarrow> (c, k, b') \<in> signed \<sigma> \<Longrightarrow> b = b'"
  by (drule raft_run_inv) (meson history_okD(1) one_payloadD sign_inv_def subsetD)

subsection \<open>What a call hands to its backend\<close>

text \<open>What was handed to the backend in a run, and where a returned signature comes from.\<close>

lemma run_pinned:
  assumes "sign_run ascii mark (raft_ops cn) s0 \<sigma>" and "(c, hrs, b) \<in> signed \<sigma>"
  shows "bytes_pinned (mark (sstore \<sigma>) c) hrs b"
proof -
  from raft_run_inv [OF assms(1)] have h: "history_ok ascii \<sigma>" and m: "marks_ok mark \<sigma>"
    by (simp_all add: sign_inv_def)
  with assms(2) history_okD(1) [OF h] show ?thesis by (blast intro: marks_okD(1) [OF m])
qed

lemma run_provenance:
  assumes "sign_run ascii mark (raft_ops cn) s0 \<sigma>" and "(c, hrs, sig) \<in> released \<sigma>"
  shows "\<exists>b. (c, hrs, b) \<in> signed \<sigma> \<and> (b, sig) \<in> produced \<sigma> \<and> bytes_pinned (mark (sstore \<sigma>) c) hrs b"
proof -
  from raft_run_inv [OF assms(1)] have "history_ok ascii \<sigma>" by (simp add: sign_inv_def)
  from history_okD(4) [OF this assms(2)] show ?thesis by (blast intro: run_pinned [OF assms(1)])
qed

text \<open>A call after a run continues the run, on a thread that a crash has made idle.\<close>

lemma call_continues_run:
  assumes "sign_run ascii mark (raft_ops cn) s0 \<sigma>" and "ascii chain" and "gStore g = raft_ops cn"
    and "gatedSign (recording g) envs (sstore \<sigma>, (k, [])) chain h r step b ts = ((s', (k', calls)), out)"
  obtains \<sigma>' where "sign_run ascii mark (raft_ops cn) s0 \<sigma>'" and "sstore \<sigma>' = s'"
    and "\<And>sig ts'. out = Inr (sig, ts') \<Longrightarrow> (chain, hrs_of h r step, sig) \<in> released \<sigma>'"
    and "signed \<sigma>' = signed \<sigma> \<union> {(chain, hrs_of h r step, b') |b' a. (b', a) \<in> set calls}"
    and "produced \<sigma>' = produced \<sigma> \<union> {(b', sig). (b', Inr sig) \<in> set calls}"
proof -
  let ?\<sigma> = "\<sigma>\<lparr>threads := goto \<sigma> 0 Idle\<rparr>"
  have run: "sign_run ascii mark (raft_ops cn) s0 ?\<sigma>"
    using assms(1) sign_step.crash [of ascii mark "raft_ops cn" \<sigma> 0]
    by (auto simp: sign_run_def intro: rtranclp.rtrancl_into_rtrancl)
  have "gatedSign g envs (sstore ?\<sigma>, k) chain h r step b ts = ((s', k'), out)"
    using gatedSign_recording [OF assms(4)] by simp
  from gatedSign_steps [OF this, of 0 ascii mark] assms(2,3) obtain \<sigma>' calls' where
    "(sign_step ascii mark (raft_ops cn))\<^sup>*\<^sup>* ?\<sigma> \<sigma>'" and r: "sstore \<sigma>' = s'"
    "\<forall>sig ts'. out = Inr (sig, ts') \<longrightarrow> (chain, hrs_of h r step, sig) \<in> released \<sigma>'"
    "gatedSign (recording g) envs (sstore \<sigma>, (k, [])) chain h r step b ts = ((s', (k', calls')), out)"
    "signed \<sigma>' = signed \<sigma> \<union> {(chain, hrs_of h r step, b') |b' a. (b', a) \<in> set calls'}"
    "produced \<sigma>' = produced \<sigma> \<union> {(b', sig). (b', Inr sig) \<in> set calls'}" by auto
  then have "sign_run ascii mark (raft_ops cn) s0 \<sigma>'"
    using run by (auto simp: sign_run_def intro: rtranclp_trans)
  with r assms(4) show thesis by (intro that [of \<sigma>']) simp_all
qed

lemma gatedSign_calls:
  assumes "gatedSign (recording g) envs (s, (k, [])) chain h r step b ts = ((s', (k', calls)), out)"
  shows "length calls \<le> 1"
    and "out = Inr (sig, ts') \<Longrightarrow> calls \<noteq> [] \<Longrightarrow> \<exists>b'. calls = [(b', Inr sig)]"
  using assms by (auto simp: gatedSign_def split: prod.splits sum.splits option.splits if_splits)

lemma call_provenance:
  assumes "sign_run ascii mark (raft_ops cn) s0 \<sigma>" and "ascii chain" and "gStore g = raft_ops cn"
    and "gatedSign (recording g) envs (sstore \<sigma>, (k, [])) chain h r step b ts = ((s', (k', calls)), out)"
  shows "length calls \<le> 1 \<and>
    (\<forall>(b', a) \<in> set calls. bytes_pinned (mark s' chain) (hrs_of h r step) b' \<and>
       (\<forall>b''. (chain, hrs_of h r step, b'') \<in> signed \<sigma> \<longrightarrow> b'' = b')) \<and>
    (\<forall>sig ts'. out = Inr (sig, ts') \<longrightarrow> (\<exists>b'. bytes_pinned (mark s' chain) (hrs_of h r step) b' \<and>
       ((b', Inr sig) \<in> set calls \<or> (chain, hrs_of h r step, b') \<in> signed \<sigma> \<and> (b', sig) \<in> produced \<sigma>)))"
proof -
  obtain \<sigma>' where run: "sign_run ascii mark (raft_ops cn) s0 \<sigma>'" and s': "sstore \<sigma>' = s'"
    and rel: "\<And>sig ts'. out = Inr (sig, ts') \<Longrightarrow> (chain, hrs_of h r step, sig) \<in> released \<sigma>'"
    and sg: "signed \<sigma>' = signed \<sigma> \<union> {(chain, hrs_of h r step, b') |b' a. (b', a) \<in> set calls}"
    and pr: "produced \<sigma>' = produced \<sigma> \<union> {(b', sig). (b', Inr sig) \<in> set calls}"
    using call_continues_run [OF assms] by blast
  have handed: "bytes_pinned (mark s' chain) (hrs_of h r step) b' \<and>
      (\<forall>b''. (chain, hrs_of h r step, b'') \<in> signed \<sigma> \<longrightarrow> b'' = b')" if "(b', a) \<in> set calls" for b' a
  proof -
    have "(chain, hrs_of h r step, b') \<in> signed \<sigma>'" using that sg by blast
    then show ?thesis using run_pinned [OF run] raft_run_payload [OF run] s' sg by blast
  qed
  have "\<exists>b'. bytes_pinned (mark s' chain) (hrs_of h r step) b' \<and>
      ((b', Inr sig) \<in> set calls \<or> (chain, hrs_of h r step, b') \<in> signed \<sigma> \<and> (b', sig) \<in> produced \<sigma>)"
    if out: "out = Inr (sig, ts')" for sig ts'
  proof (cases "calls = []")
    case True
    from run_provenance [OF run rel [OF out]] s' sg pr True show ?thesis by auto
  next
    case False
    from gatedSign_calls(2) [OF assms(4) out False] handed show ?thesis by auto
  qed
  with gatedSign_calls(1) [OF assms(4)] handed show ?thesis by blast
qed

subsection \<open>A concrete run\<close>

text \<open>One signature at height 5 of chain \<open>c\<close>, on a leader whose entries are committed.\<close>

definition ex_msg :: "unit canon_msg" where
  "ex_msg = \<lparr>unmarshal = (\<lambda>_. None), msg_timestamp = (\<lambda>_. zero_time), with_timestamp = (\<lambda>_ m. m),
     proto_equal = (\<lambda>_ _. False)\<rparr>"

definition ex_canon :: "(unit, unit) canon" where
  "ex_canon = \<lparr>canon_proposal = ex_msg, canon_vote = ex_msg\<rparr>"

definition ex_env :: raft_env where
  "ex_env = \<lparr>role = Leader, outcome = Committed\<rparr>"

definition ex_signer :: "(raft_env, fsm, unit, unit) GatedPrivValidator" where
  "ex_signer = \<lparr>gBackend = \<lparr>kPubKey = (\<lambda>k. (k, Inr ())), kSign = (\<lambda>k b. (k, Inr (''sig:'' @ b)))\<rparr>,
     gStore = raft_ops ex_canon, gPub = ()\<rparr>"

lemma ex_gatedSign:
  obtains s' k' where "gatedSign ex_signer (ex_env, ex_env) (sstore (sys_init newFSM), ()) ''c'' 5 0 StepPrevote ''x'' zero_time =
     ((s', k'), Inr (''sig:x'', zero_time))"
  by (simp add: sys_init_def gatedSign_def ex_signer_def raft_ops_def ex_env_def Reserve_committed [OF _ format_zero_time]
      Commit_committed applyReserve_def applyCommit_def zero_applyResult_def Let_def mark_hrs_def)

lemma ex_recorded:
  obtains s' k' where "gatedSign (recording ex_signer) (ex_env, ex_env) (sstore (sys_init newFSM), ((), [])) ''c'' 5 0 StepPrevote
     ''x'' zero_time = ((s', (k', [(''x'', Inr ''sig:x'')])), Inr (''sig:x'', zero_time))"
  by (simp add: sys_init_def gatedSign_def ex_signer_def recording_def raft_ops_def ex_env_def
      Reserve_committed [OF _ format_zero_time] Commit_committed applyReserve_def applyCommit_def
      zero_applyResult_def Let_def mark_hrs_def)

lemma ex_run:
  obtains \<sigma> where "sign_run ascii mark (raft_ops ex_canon) newFSM \<sigma>"
    and "(''c'', hrs_of 5 0 StepPrevote, ''sig:x'') \<in> released \<sigma>"
proof -
  obtain s' k' where "gatedSign ex_signer (ex_env, ex_env) (sstore (sys_init newFSM), ()) ''c'' 5 0 StepPrevote ''x'' zero_time =
      ((s', k'), Inr (''sig:x'', zero_time))" by (rule ex_gatedSign)
  from gatedSign_steps [OF this, of 0 ascii mark] obtain \<sigma> where
    "(sign_step ascii mark (raft_ops ex_canon))\<^sup>*\<^sup>* (sys_init newFSM) \<sigma>"
    "(''c'', hrs_of 5 0 StepPrevote, ''sig:x'') \<in> released \<sigma>"
    by (auto simp: sys_init_def ex_signer_def)
  then show thesis using that [of \<sigma>] by (simp add: sign_run_def)
qed

subsection \<open>Properties\<close>

text \<open>C1: no two payloads. Whatever signing requests arrive for ASCII chain ids, in whatever interleaving over the
  replicas, with lost or late raft entries and crashed calls, the key backend is handed at most one
  set of vote or proposal bytes per chain, height, round and step.\<close>

theorem backend_gets_one_payload:
  assumes "sign_run ascii mark (raft_ops cn) s0 \<sigma>"
    and "(chain, hrs, b) \<in> signed \<sigma>" and "(chain, hrs, b') \<in> signed \<sigma>"
  shows "b = b'"
  using assms by (rule raft_run_payload)

theorem backend_gets_one_payload_witness:
  "\<exists>\<sigma> b. sign_run ascii mark (raft_ops ex_canon) newFSM \<sigma> \<and> (''c'', hrs_of 5 0 StepPrevote, b) \<in> signed \<sigma> \<and>
     (\<forall>b'. (''c'', hrs_of 5 0 StepPrevote, b') \<in> signed \<sigma> \<longrightarrow> b' = b)"
proof -
  obtain \<sigma> where r: "sign_run ascii mark (raft_ops ex_canon) newFSM \<sigma>"
    and "(''c'', hrs_of 5 0 StepPrevote, ''sig:x'') \<in> released \<sigma>" by (rule ex_run)
  then obtain b where b: "(''c'', hrs_of 5 0 StepPrevote, b) \<in> signed \<sigma>"
    using raft_run_inv [OF r] by (auto simp: sign_inv_def dest: history_okD(4))
  with r show ?thesis
    using backend_gets_one_payload [OF r _ b] by (intro exI [of _ \<sigma>] exI [of _ b]) blast
qed

text \<open>C2: no two signatures. At most one non-empty signature is ever returned to the nodes for an
  ASCII chain id, height, round and step, even if the backend signs the same bytes differently each time.\<close>

theorem one_signature_released:
  assumes "sign_run ascii mark (raft_ops cn) s0 \<sigma>"
    and "(chain, hrs, sig) \<in> released \<sigma>" and "(chain, hrs, sig') \<in> released \<sigma>" and "sig \<noteq> []" and "sig' \<noteq> []"
  shows "sig = sig'"
  by (rule one_payloadD [of "{x \<in> released \<sigma>. snd (snd x) \<noteq> []}" chain hrs])
    (use raft_run_inv [OF assms(1)] assms(2-) in \<open>simp_all add: sign_inv_def\<close>)

theorem one_signature_released_witness:
  "\<exists>\<sigma>. sign_run ascii mark (raft_ops ex_canon) newFSM \<sigma> \<and>
     (''c'', hrs_of 5 0 StepPrevote, ''sig:x'') \<in> released \<sigma> \<and>
     (\<forall>sig. (''c'', hrs_of 5 0 StepPrevote, sig) \<in> released \<sigma> \<longrightarrow> sig \<noteq> [] \<longrightarrow> sig = ''sig:x'')"
proof -
  obtain \<sigma> where r: "sign_run ascii mark (raft_ops ex_canon) newFSM \<sigma>"
    and s: "(''c'', hrs_of 5 0 StepPrevote, ''sig:x'') \<in> released \<sigma>" by (rule ex_run)
  with one_signature_released [OF r _ s] show ?thesis by (intro exI [of _ \<sigma>]) blast
qed

text \<open>C3: sign only what is reserved, return only what was signed. After any run of the cluster, let a
  \<^verbatim>\<open>gatedSign\<close> call for an ASCII chain id end in any way, with the calls its backend received recorded.
  At most one call is made; the bytes handed to the backend are pinned by the committed mark of the chain
  the call leaves, which stands at or past the request, and they are the only bytes ever signed there. A
  returned signature is the backend's answer for such pinned bytes, in this call or earlier in the run;
  so is every signature the run had returned before.\<close>

theorem released_signature_provenance:
  assumes "sign_run ascii mark (raft_ops cn) s0 \<sigma>" and "ascii chain" and "gStore g = raft_ops cn"
    and "gatedSign (recording g) envs (sstore \<sigma>, (k, [])) chain h r step b ts = ((s', (k', calls)), out)"
  shows "length calls \<le> 1 \<and>
    (\<forall>(b', a) \<in> set calls. bytes_pinned (mark s' chain) (hrs_of h r step) b' \<and>
       (\<forall>b''. (chain, hrs_of h r step, b'') \<in> signed \<sigma> \<longrightarrow> b'' = b')) \<and>
    (\<forall>sig ts'. out = Inr (sig, ts') \<longrightarrow> (\<exists>b'. bytes_pinned (mark s' chain) (hrs_of h r step) b' \<and>
       ((b', Inr sig) \<in> set calls \<or> (chain, hrs_of h r step, b') \<in> signed \<sigma> \<and> (b', sig) \<in> produced \<sigma>))) \<and>
    (\<forall>c hrs sig. (c, hrs, sig) \<in> released \<sigma> \<longrightarrow> (\<exists>b'. (c, hrs, b') \<in> signed \<sigma> \<and> (b', sig) \<in> produced \<sigma> \<and>
       bytes_pinned (mark (sstore \<sigma>) c) hrs b'))"
  using call_provenance [OF assms] run_provenance [OF assms(1)] by blast

theorem released_signature_provenance_witness:
  "\<exists>\<sigma> s' k' calls sig. sign_run ascii mark (raft_ops ex_canon) newFSM \<sigma> \<and>
     gatedSign (recording ex_signer) (ex_env, ex_env) (sstore \<sigma>, ((), [])) ''c'' 5 0 StepPrevote ''x'' zero_time =
       ((s', (k', calls)), Inr (sig, zero_time)) \<and> calls = [(''x'', Inr sig)] \<and>
     bytes_pinned (mark s' ''c'') (hrs_of 5 0 StepPrevote) ''x''"
proof -
  obtain s' k' where g: "gatedSign (recording ex_signer) (ex_env, ex_env) (sstore (sys_init newFSM), ((), []))
      ''c'' 5 0 StepPrevote ''x'' zero_time = ((s', (k', [(''x'', Inr ''sig:x'')])), Inr (''sig:x'', zero_time))"
    by (rule ex_recorded)
  have r: "sign_run ascii mark (raft_ops ex_canon) newFSM (sys_init newFSM)" by (simp add: sign_run_def)
  from released_signature_provenance [OF r _ _ g]
  have "bytes_pinned (mark s' ''c'') (hrs_of 5 0 StepPrevote) ''x''" by (auto simp: ex_signer_def)
  with r g show ?thesis by blast
qed

text \<open>C12: the steps are the code's. A \<^verbatim>\<open>gatedSign\<close> call that runs without interference from
  an idle thread is a run of the step system that ends with the same store and the same result; a
  signature it returns is recorded as returned, the bytes it hands to the backend are what the run adds
  to the signed payloads, and the backend's answers are what it adds to the produced signatures.\<close>

theorem gatedSign_is_a_run:
  assumes "gatedSign g envs (sstore \<sigma>, k) chain h r step b ts = ((s', k'), out)"
    and "threads \<sigma> t = Idle" and "adm chain"
  shows "\<exists>\<sigma>' calls. (sign_step adm gm (gStore g))\<^sup>*\<^sup>* \<sigma> \<sigma>' \<and> sstore \<sigma>' = s' \<and> threads \<sigma>' t = Returned out \<and>
    (\<forall>sig ts'. out = Inr (sig, ts') \<longrightarrow> (chain, hrs_of h r step, sig) \<in> released \<sigma>') \<and>
    gatedSign (recording g) envs (sstore \<sigma>, (k, [])) chain h r step b ts = ((s', (k', calls)), out) \<and>
    signed \<sigma>' = signed \<sigma> \<union> {(chain, hrs_of h r step, b') |b' a. (b', a) \<in> set calls} \<and>
    produced \<sigma>' = produced \<sigma> \<union> {(b', sig). (b', Inr sig) \<in> set calls}"
  using assms by (rule gatedSign_steps)

theorem gatedSign_is_a_run_witness:
  "\<exists>\<sigma>'. (sign_step ascii mark (raft_ops ex_canon))\<^sup>*\<^sup>* (sys_init newFSM) \<sigma>' \<and>
     threads \<sigma>' 0 = Returned (Inr (''sig:x'', zero_time))"
proof -
  obtain s' k' where g: "gatedSign ex_signer (ex_env, ex_env) (sstore (sys_init newFSM), ()) ''c'' 5 0 StepPrevote ''x'' zero_time =
      ((s', k'), Inr (''sig:x'', zero_time))" by (rule ex_gatedSign)
  show ?thesis using gatedSign_is_a_run [OF g, of 0 ascii mark] by (auto simp: sys_init_def ex_signer_def)
qed

text \<open>C13: the step system adds nothing to a call and misses nothing. Over all raft outcomes and all
  answers of the backend, the stores, results, payloads handed to the backend and signatures answered by
  it that a \<^verbatim>\<open>gatedSign\<close> call for a request can end with are those its thread's own steps reach
  from idle.\<close>

theorem gatedSign_iff_own_steps:
  fixes g :: "('o, 's, 'pub, 'k) GatedPrivValidator"
  assumes "threads \<sigma> t = Idle" and "adm (qChain q)"
  shows "(\<exists>envs bk k' calls. gatedSign (recording (g\<lparr>gBackend := bk\<rparr>)) envs (sstore \<sigma>, (k, []))
        (qChain q) (qHeight q) (qRound q) (qStep q) (qBytes q) (qTime q) = ((s', (k', calls)), out) \<and>
        A = signed \<sigma> \<union> {(qChain q, q_hrs q, b) |b a. (b, a) \<in> set calls} \<and>
        B = produced \<sigma> \<union> {(b, sig). (b, Inr sig) \<in> set calls}) \<longleftrightarrow>
    (\<exists>\<sigma>'. (own_step adm gm (gStore g) t q)\<^sup>*\<^sup>* \<sigma> \<sigma>' \<and> sstore \<sigma>' = s' \<and> threads \<sigma>' t = Returned out \<and>
        signed \<sigma>' = A \<and> produced \<sigma>' = B)"
    (is "?call \<longleftrightarrow> ?steps")
proof
  assume ?call
  then obtain envs bk k' calls where
    c: "gatedSign (recording (g\<lparr>gBackend := bk\<rparr>)) envs (sstore \<sigma>, (k, []))
      (qChain q) (qHeight q) (qRound q) (qStep q) (qBytes q) (qTime q) = ((s', (k', calls)), out)"
    and AB: "A = signed \<sigma> \<union> signed_by q calls" "B = produced \<sigma> \<union> produced_by calls"
    by (auto simp: signed_by_set produced_by_def)
  from own_gatedSign_steps [where adm = adm and gm = gm, OF gatedSign_recording [OF c] assms] c AB
  show ?steps by (auto simp: adds_calls_def)
next
  assume ?steps
  then obtain \<sigma>' where s: "(own_step adm gm (gStore g) t q)\<^sup>*\<^sup>* \<sigma> \<sigma>'" "threads \<sigma>' t = Returned out"
    and s': "sstore \<sigma>' = s'" "signed \<sigma>' = A" "produced \<sigma>' = B" by blast
  from own_steps_outcome [OF s] obtain calls where "run_outcome (gStore g) q t \<sigma> \<sigma>' out calls" by blast
  with assms(1) s' have "reserve_outcome (gStore g) (sstore \<sigma>) q s' out calls"
    and "A = signed \<sigma> \<union> signed_by q calls" "B = produced \<sigma> \<union> produced_by calls" by (auto simp: outcome_defs)
  with reserve_outcome_gatedSign [of g "sstore \<sigma>" q s' out calls k] show ?call
    unfolding signed_by_set produced_by_def by blast
qed

theorem gatedSign_iff_own_steps_witness:
  "\<exists>s' \<sigma>'. (own_step ascii mark (raft_ops ex_canon) 0 \<lparr>qChain = ''c'', qHeight = 5, qRound = 0,
       qStep = StepPrevote, qBytes = ''x'', qTime = zero_time\<rparr>)\<^sup>*\<^sup>* (sys_init newFSM) \<sigma>' \<and>
     sstore \<sigma>' = s' \<and> threads \<sigma>' 0 = Returned (Inr (''sig:x'', zero_time)) \<and>
     signed \<sigma>' = {(''c'', hrs_of 5 0 StepPrevote, ''x'')} \<and> produced \<sigma>' = {(''x'', ''sig:x'')}"
proof -
  let ?q = "\<lparr>qChain = ''c'', qHeight = 5, qRound = 0, qStep = StepPrevote, qBytes = ''x'', qTime = zero_time\<rparr>"
  obtain s' k' where "gatedSign (recording ex_signer) (ex_env, ex_env) (sstore (sys_init newFSM), ((), [])) ''c'' 5 0 StepPrevote
      ''x'' zero_time = ((s', (k', [(''x'', Inr ''sig:x'')])), Inr (''sig:x'', zero_time))" by (rule ex_recorded)
  then have "\<exists>envs bk k' calls. gatedSign (recording (ex_signer\<lparr>gBackend := bk\<rparr>)) envs (sstore (sys_init newFSM), ((), []))
      (qChain ?q) (qHeight ?q) (qRound ?q) (qStep ?q) (qBytes ?q) (qTime ?q) = ((s', (k', calls)), Inr (''sig:x'', zero_time)) \<and>
      {(''c'', hrs_of 5 0 StepPrevote, ''x'')} = signed (sys_init newFSM) \<union> {(qChain ?q, q_hrs ?q, b) |b a. (b, a) \<in> set calls} \<and>
      {(''x'', ''sig:x'')} = produced (sys_init newFSM) \<union> {(b, sig). (b, Inr sig) \<in> set calls}"
    by (intro exI [of _ "(ex_env, ex_env)"] exI [of _ "gBackend ex_signer"] exI [of _ k'] exI [of _ "[(''x'', Inr ''sig:x'')]"])
      (auto simp: sys_init_def)
  moreover have "threads (sys_init newFSM) 0 = Idle" "ascii (qChain ?q)" by (simp_all add: sys_init_def)
  ultimately show ?thesis
    using gatedSign_iff_own_steps [of "sys_init newFSM" 0 ascii ?q ex_signer "()" s' "Inr (''sig:x'', zero_time)"
        "{(''c'', hrs_of 5 0 StepPrevote, ''x'')}" "{(''x'', ''sig:x'')}" mark]
    by (auto simp: ex_signer_def)
qed

end
