(* ===== verification/Nodes.thy ===== *)
theory Nodes
  imports Prelude
begin

section \<open>Addresses and target nodes (internal/server/nodes.go)\<close>

text \<open>
  \<^verbatim>\<open>net.SplitHostPort\<close> and \<^verbatim>\<open>net.JoinHostPort\<close> as the code uses them, and the two node
  sources. DNS is an argument: what \<^verbatim>\<open>LookupHost\<close> answered.
\<close>

subsection \<open>Splitting and joining host and port\<close>

fun index_of :: "char \<Rightarrow> string \<Rightarrow> nat option" where
  "index_of c [] = None"
| "index_of c (x # xs) = (if x = c then Some 0 else map_option Suc (index_of c xs))"

definition last_index_of :: "char \<Rightarrow> string \<Rightarrow> nat option" where
  "last_index_of c s = map_option (\<lambda>i. length s - 1 - i) (index_of c (rev s))"

definition has_byte :: "char \<Rightarrow> string \<Rightarrow> bool" where
  "has_byte c s \<longleftrightarrow> c \<in> set s"

definition addr_err :: "string \<Rightarrow> (string \<times> string) result" where
  "addr_err why = Inl (errors_New why)"

definition SplitHostPort :: "string \<Rightarrow> (string \<times> string) result" where
  "SplitHostPort hp =
     (case last_index_of (CHR '':'') hp of
        None \<Rightarrow> addr_err ''missing port in address''
      | Some i \<Rightarrow>
          if hp ! 0 = CHR ''['' then
            (case index_of (CHR '']'') hp of
               None \<Rightarrow> addr_err ''missing ']' in address''
             | Some e \<Rightarrow>
                 if e + 1 = length hp then addr_err ''missing port in address''
                 else if e + 1 \<noteq> i then
                   addr_err (if hp ! (e + 1) = CHR '':'' then ''too many colons in address''
                             else ''missing port in address'')
                 else if has_byte (CHR ''['') (drop 1 hp) then addr_err ''unexpected '[' in address''
                 else if has_byte (CHR '']'') (drop (e + 1) hp) then addr_err ''unexpected ']' in address''
                 else Inr (drop 1 (take e hp), drop (i + 1) hp))
          else if has_byte (CHR '':'') (take i hp) then addr_err ''too many colons in address''
          else if has_byte (CHR ''['') hp then addr_err ''unexpected '[' in address''
          else if has_byte (CHR '']'') hp then addr_err ''unexpected ']' in address''
          else Inr (take i hp, drop (i + 1) hp))"

definition JoinHostPort :: "string \<Rightarrow> string \<Rightarrow> string" where
  "JoinHostPort host port =
     (if has_byte (CHR '':'') host then ''['' @ host @ '']:'' @ port else host @ '':'' @ port)"

lemma index_of_append: "c \<notin> set xs \<Longrightarrow> index_of c (xs @ c # ys) = Some (length xs)"
  by (induction xs) auto

lemma last_index_of_append: "c \<notin> set ys \<Longrightarrow> last_index_of c (xs @ c # ys) = Some (length xs)"
  by (simp add: last_index_of_def index_of_append)

lemma SplitHostPort_Join:
  assumes "CHR ''['' \<notin> set h" "CHR '']'' \<notin> set h" "CHR ''['' \<notin> set p" "CHR '']'' \<notin> set p" "CHR '':'' \<notin> set p"
  shows "SplitHostPort (JoinHostPort h p) = Inr (h, p)"
proof (cases "CHR '':'' \<in> set h")
  case True
  have l: "last_index_of (CHR '':'') (''['' @ h @ '']:'' @ p) = Some (length h + 2)"
    using last_index_of_append [OF assms(5), of "''['' @ h @ '']''"] by simp
  have e: "index_of (CHR '']'') (''['' @ h @ '']:'' @ p) = Some (length h + 1)"
    using index_of_append [of "CHR '']''" "''['' @ h" "'':'' @ p"] assms(2) by simp
  from True have j: "JoinHostPort h p = ''['' @ h @ '']:'' @ p" by (simp add: JoinHostPort_def has_byte_def)
  show ?thesis unfolding j SplitHostPort_def l e
    using assms by (simp add: has_byte_def nth_append)
next
  case False
  have l: "last_index_of (CHR '':'') (h @ '':'' @ p) = Some (length h)"
    using last_index_of_append [OF assms(5), of h] by simp
  from False have j: "JoinHostPort h p = h @ '':'' @ p" by (simp add: JoinHostPort_def has_byte_def)
  have "(h @ '':'' @ p) ! 0 \<noteq> CHR ''[''" using assms(1) by (cases h) auto
  then show ?thesis unfolding j SplitHostPort_def l
    using assms False by (simp add: has_byte_def)
qed

subsection \<open>Node sources\<close>

record HeadlessServiceNodes =
  hHost :: string
  hPort :: string

datatype NodeSource = StaticNodes "string list" | Headless HeadlessServiceNodes

definition NewHeadlessServiceNodes :: "string \<Rightarrow> HeadlessServiceNodes result" where
  "NewHeadlessServiceNodes hostPort =
     (case SplitHostPort hostPort of
        Inl e \<Rightarrow> Inl (Errorf ''invalid node-service (want host:port)'' [e])
      | Inr (host, port) \<Rightarrow>
          if host = [] \<or> port = [] then Inl (errors_New ''invalid node-service (want host:port)'')
          else Inr \<lparr>hHost = host, hPort = port\<rparr>)"

definition headless_nodes :: "(string \<Rightarrow> string list result) \<Rightarrow> HeadlessServiceNodes \<Rightarrow> string list result" where
  "headless_nodes lookup h =
     (case lookup (hHost h) of
        Inl e \<Rightarrow> Inl (Errorf ''resolve'' [e])
      | Inr ips \<Rightarrow> Inr (sort (map (\<lambda>ip. JoinHostPort ip (hPort h)) ips)))"

fun source_nodes :: "(string \<Rightarrow> string list result) \<Rightarrow> NodeSource \<Rightarrow> string list result" where
  "source_nodes lookup (StaticNodes xs) = Inr xs"
| "source_nodes lookup (Headless h) = headless_nodes lookup h"

subsection \<open>Properties\<close>

text \<open>Every discovered address can be dialled back apart. For a resolver that answers with
  addresses without brackets, the nodes of a headless service are sorted, one per answer, and
  splitting each gives back an address of the answer and the service's port, IPv6 literals
  included.\<close>

theorem headless_nodes_addresses:
  assumes "lookup (hHost h) = Inr ips" and "\<forall>ip\<in>set ips. CHR ''['' \<notin> set ip \<and> CHR '']'' \<notin> set ip"
    and "\<forall>c\<in>set (hPort h). c \<notin> set ''[]:''"
  shows "\<exists>addrs. headless_nodes lookup h = Inr addrs \<and> sorted addrs \<and> length addrs = length ips \<and>
    (\<forall>a\<in>set addrs. \<exists>ip\<in>set ips. SplitHostPort a = Inr (ip, hPort h))"
proof -
  have "CHR ''['' \<notin> set (hPort h)" "CHR '']'' \<notin> set (hPort h)" "CHR '':'' \<notin> set (hPort h)" using assms(3) by auto
  then show ?thesis using assms(1,2) by (auto simp: headless_nodes_def SplitHostPort_Join)
qed

theorem headless_nodes_addresses_witness:
  "\<exists>addrs. headless_nodes (\<lambda>_. Inr [''fd00::1'', ''10.0.0.1'']) \<lparr>hHost = ''svc'', hPort = ''26659''\<rparr> = Inr addrs \<and>
     length addrs = 2 \<and>
     (\<forall>a\<in>set addrs. \<exists>ip\<in>set [''fd00::1'', ''10.0.0.1'']. SplitHostPort a = Inr (ip, ''26659''))"
  using headless_nodes_addresses [of "\<lambda>_. Inr [''fd00::1'', ''10.0.0.1'']" "\<lparr>hHost = ''svc'', hPort = ''26659''\<rparr>"
      "[''fd00::1'', ''10.0.0.1'']"] by (auto simp: numeral_2_eq_2)

end
