(* ===== verification/RaftNode.thy ===== *)
theory RaftNode
  imports RaftStore Nodes
begin

section \<open>Starting, running and stopping the embedded raft node (internal/state/raftstore.go)\<close>

text \<open>
  The rest of \<^verbatim>\<open>raftStore\<close>: construction with its checks and its clean-up on failure,
  \<^verbatim>\<open>EnsureClusterID\<close>, membership, leadership transfer and \<^verbatim>\<open>Close\<close>. Each wait on a
  \<^verbatim>\<open>select\<close> receives which case fired; loops consume a list with one observation per round and
  return \<open>None\<close> when the observations end before the loop does. The committed log is a list of
  entries; a replica has applied some prefix of it.
\<close>

subsection \<open>Configuration\<close>

record Member =
  mID :: string
  mAddress :: string

record TLSConfig =
  CertFile :: string
  KeyFile :: string
  CAFile :: string

record RaftConfig =
  rNodeID :: string
  rBindAddr :: string
  rAdvertise :: string
  rDataDir :: string
  rBootstrap :: bool
  rSingleNode :: bool
  rInsecure :: bool
  rMembers :: "Member list"
  rApplyTimeout :: int
  rTLS :: TLSConfig

definition TLS_Enabled :: "TLSConfig \<Rightarrow> bool" where
  "TLS_Enabled t \<longleftrightarrow> CertFile t \<noteq> [] \<and> KeyFile t \<noteq> [] \<and> CAFile t \<noteq> []"

definition tls_files :: "TLSConfig \<Rightarrow> nat" where
  "tls_files t = length (filter (\<lambda>p. p \<noteq> []) [CertFile t, KeyFile t, CAFile t])"

fun collect_servers :: "string \<Rightarrow> Member list \<Rightarrow> bool \<Rightarrow> (string \<times> string) list \<Rightarrow> ((string \<times> string) list \<times> bool) result" where
  "collect_servers local [] found acc = Inr (acc, found)"
| "collect_servers local (m # ms) found acc =
     (if mID m = [] \<or> mAddress m = [] then Inl (errors_New ''raft member needs both id and address'')
      else collect_servers local ms (found \<or> mID m = local) (acc @ [(mID m, mAddress m)]))"

definition bootstrapServers :: "RaftConfig \<Rightarrow> string \<Rightarrow> string \<Rightarrow> (string \<times> string) list result" where
  "bootstrapServers cfg local localAddr =
     (if rMembers cfg = [] then
        (if \<not> rSingleNode cfg
         then Inl (errors_New ''raft bootstrap with empty members requires explicit single-node opt-in'')
         else Inr [(local, localAddr)])
      else (case collect_servers local (rMembers cfg) False [] of
          Inl e \<Rightarrow> Inl e
        | Inr (servers, found) \<Rightarrow>
            if found then Inr servers else Inl (errors_New ''raft node-id is not in the member list'')))"

lemma collect_servers_iff:
  "collect_servers local ms found acc =
     (if list_all (\<lambda>m. mID m \<noteq> [] \<and> mAddress m \<noteq> []) ms
      then Inr (acc @ map (\<lambda>m. (mID m, mAddress m)) ms, found \<or> list_ex (\<lambda>m. mID m = local) ms)
      else Inl (errors_New ''raft member needs both id and address''))"
  by (induction local ms found acc rule: collect_servers.induct) auto

lemma bootstrapServers_ok:
  "bootstrapServers cfg local addr = Inr servers \<longleftrightarrow>
     (if rMembers cfg = [] then rSingleNode cfg \<and> servers = [(local, addr)]
      else list_all (\<lambda>m. mID m \<noteq> [] \<and> mAddress m \<noteq> []) (rMembers cfg) \<and>
        list_ex (\<lambda>m. mID m = local) (rMembers cfg) \<and> servers = map (\<lambda>m. (mID m, mAddress m)) (rMembers cfg))"
  by (auto simp: bootstrapServers_def collect_servers_iff)

subsection \<open>Resolving the advertised address\<close>

text \<open>
  The resolver and the IP parser of the platform: the port lookup, whether a host is an IP
  literal (\<open>Some True\<close> for IPv4), and per attempt what \<^verbatim>\<open>LookupIPAddr\<close> answered, whether the
  context had ended after it, and whether it ended during the wait before the next attempt.
\<close>

record resolver =
  LookupPort :: "string \<Rightarrow> int result"
  parse_ip :: "string \<Rightarrow> bool option"

record attempt =
  answer :: "string list result"
  ended :: bool
  ended_waiting :: bool

definition check_zone :: "resolver \<Rightarrow> string \<Rightarrow> go_error option" where
  "check_zone rv host =
     (case last_index_of (CHR ''%'') host of
        None \<Rightarrow> None
      | Some i \<Rightarrow>
       (case parse_ip rv (take i host) of
          None \<Rightarrow> None
        | Some True \<Rightarrow> Some (errors_New ''advertise address has a zone on an IPv4 literal; zones apply to IPv6 only'')
        | Some False \<Rightarrow>
            if drop (i + 1) host = []
            then Some (errors_New ''advertise address has an empty IPv6 zone; name an interface or omit the %'')
            else None))"

fun resolve_loop :: "attempt list \<Rightarrow> int \<Rightarrow> (string \<times> int) result option" where
  "resolve_loop [] port = None"
| "resolve_loop (a # as) port =
     (case answer a of
        Inr (ip # _) \<Rightarrow> Some (Inr (ip, port))
      | res \<Rightarrow>
          let e = (case res of Inl e \<Rightarrow> e | Inr _ \<Rightarrow> errors_New ''no addresses for host'') in
          if ended a \<or> ended_waiting a then Some (Inl (Errorf ''resolve advertise address'' [e]))
          else resolve_loop as port)"

definition resolveAdvertise :: "resolver \<Rightarrow> attempt list \<Rightarrow> string \<Rightarrow> (string \<times> int) result option" where
  "resolveAdvertise rv as advertise =
     (case SplitHostPort advertise of
        Inl e \<Rightarrow> Some (Inl (Errorf ''parse advertise address'' [e]))
      | Inr (host, portStr) \<Rightarrow>
       (case LookupPort rv portStr of
          Inl e \<Rightarrow> Some (Inl (Errorf ''parse advertise port'' [e]))
        | Inr port \<Rightarrow>
            if host = []
            then Some (Inl (errors_New ''advertise address has no host; peers cannot reach an unspecified address''))
            else (case check_zone rv host of
                Some e \<Rightarrow> Some (Inl e)
              | None \<Rightarrow> resolve_loop as port)))"

lemma resolve_loop_returns: "list_ex (\<lambda>a. ended a) as \<Longrightarrow> \<exists>r. resolve_loop as port = Some r"
  by (induction as port rule: resolve_loop.induct) (auto split: sum.splits list.splits)

lemma resolve_loop_ok:
  "resolve_loop as port = Some (Inr (ip, p)) \<Longrightarrow> p = port \<and> (\<exists>a\<in>set as. \<exists>ips. answer a = Inr (ip # ips))"
  by (induction as port rule: resolve_loop.induct) (auto simp: Let_def split: sum.splits list.splits if_splits)

subsection \<open>Construction\<close>

text \<open>\<^verbatim>\<open>newTLSStreamLayer\<close> (transport.go): the key pair, the CA bundle, whether the bundle holds a
  certificate, and the listener.\<close>

record tls_env =
  keypair_err :: "go_error option"
  ca_pem :: "bytes result"
  has_certs :: "bytes \<Rightarrow> bool"
  listen_err :: "go_error option"

definition newTLSStreamLayer :: "tls_env \<Rightarrow> go_error option" where
  "newTLSStreamLayer te =
     (case keypair_err te of
        Some e \<Rightarrow> Some (Errorf ''load raft TLS keypair'' [e])
      | None \<Rightarrow>
     (case ca_pem te of
        Inl e \<Rightarrow> Some (Errorf ''read raft TLS CA'' [e])
      | Inr pem \<Rightarrow>
          if \<not> has_certs te pem then Some (errors_New ''no certificates found in raft TLS CA'')
          else map_option (\<lambda>e. Errorf ''raft TLS listen'' [e]) (listen_err te)))"

text \<open>The name a dialled peer's certificate is verified against (\<^verbatim>\<open>tlsStreamLayer.Dial\<close>).\<close>

definition dial_server_name :: "string \<Rightarrow> string \<Rightarrow> string" where
  "dial_server_name configured address =
     (case SplitHostPort address of Inr (host, _) \<Rightarrow> host | Inl _ \<Rightarrow> configured)"

text \<open>What the file system, the bolt store and the raft library answer during construction.\<close>

record node_env =
  mkdir_err :: "go_error option"
  bolt_err :: "go_error option"
  snaps_err :: "go_error option"
  has_state :: "bool result"
  resolve_env :: resolver
  attempts :: "attempt list"
  tls_files_env :: tls_env
  tcp_err :: "go_error option"
  local_addr :: string
  newraft_err :: "go_error option"
  bootstrap_err :: "go_error option"

datatype node_call = OpenBolt | OpenTransport | StartRaft | BootstrapCluster "(string \<times> string) list"
  | ShutdownRaft | CloseTransport | CloseBolt

definition check_transport :: "RaftConfig \<Rightarrow> go_error option" where
  "check_transport cfg =
     (let n = tls_files (rTLS cfg) in
      if n \<noteq> 0 \<and> n \<noteq> 3
      then Some (errors_New ''raft transport configuration requires TLS certificate, key, and CA together'')
      else if rInsecure cfg \<and> n \<noteq> 0
      then Some (errors_New ''raft transport configuration cannot enable both mTLS and insecure mode'')
      else if n = 0 \<and> \<not> rInsecure cfg
      then Some (errors_New ''raft transport requires mTLS or explicit insecure opt-out'')
      else None)"

definition fill_defaults :: "RaftConfig \<Rightarrow> RaftConfig" where
  "fill_defaults cfg =
     cfg\<lparr>rApplyTimeout := (if rApplyTimeout cfg \<le> 0 then 10000000000 else rApplyTimeout cfg),
         rAdvertise := (if rAdvertise cfg = [] then rBindAddr cfg else rAdvertise cfg)\<rparr>"

text \<open>After the raft instance has started.\<close>

definition bootstrap_phase :: "node_env \<Rightarrow> RaftConfig \<Rightarrow> bool \<Rightarrow> node_call list \<times> go_error option" where
  "bootstrap_phase env cfg hasState =
     (let undo = [ShutdownRaft, CloseTransport, CloseBolt] in
      if rBootstrap cfg \<and> \<not> hasState then
        (case bootstrapServers cfg (rNodeID cfg) (local_addr env) of
           Inl e \<Rightarrow> (undo, Some e)
         | Inr servers \<Rightarrow>
             (case bootstrap_err env of
                Some e \<Rightarrow> (BootstrapCluster servers # undo, Some (Errorf ''bootstrap cluster'' [e]))
              | None \<Rightarrow> ([BootstrapCluster servers], None)))
      else ([], None))"

text \<open>After the bolt store is open: \<open>None\<close> while the address is still being resolved.\<close>

definition transport_phase :: "node_env \<Rightarrow> RaftConfig \<Rightarrow> (node_call list \<times> go_error option) option" where
  "transport_phase env cfg =
     (case snaps_err env of
        Some e \<Rightarrow> Some ([CloseBolt], Some (Errorf ''snapshot store'' [e]))
      | None \<Rightarrow>
     (case has_state env of
        Inl e \<Rightarrow> Some ([CloseBolt], Some (Errorf ''check existing state'' [e]))
      | Inr hasState \<Rightarrow>
     (case resolveAdvertise (resolve_env env) (attempts env) (rAdvertise cfg) of
        None \<Rightarrow> None
      | Some (Inl e) \<Rightarrow> Some ([CloseBolt], Some e)
      | Some (Inr _) \<Rightarrow>
     (case (if TLS_Enabled (rTLS cfg) then newTLSStreamLayer (tls_files_env env)
            else map_option (\<lambda>e. Errorf ''tcp transport'' [e]) (tcp_err env)) of
        Some e \<Rightarrow> Some ([CloseBolt], Some e)
      | None \<Rightarrow>
     (case newraft_err env of
        Some e \<Rightarrow> Some ([OpenTransport, CloseTransport, CloseBolt], Some (Errorf ''new raft'' [e]))
      | None \<Rightarrow>
          let (cs, oe) = bootstrap_phase env cfg hasState in
          Some (OpenTransport # StartRaft # cs, oe))))))"

definition NewRaftStoreContext :: "node_env \<Rightarrow> RaftConfig \<Rightarrow> (node_call list \<times> RaftConfig result) option" where
  "NewRaftStoreContext env cfg0 =
     (case check_transport cfg0 of
        Some e \<Rightarrow> Some ([], Inl e)
      | None \<Rightarrow>
     (let cfg = fill_defaults cfg0 in
      case (if rBootstrap cfg
            then (case bootstrapServers cfg (rNodeID cfg) (rAdvertise cfg) of Inl e \<Rightarrow> Some e | Inr _ \<Rightarrow> None)
            else None) of
        Some e \<Rightarrow> Some ([], Inl e)
      | None \<Rightarrow>
     (case mkdir_err env of
        Some e \<Rightarrow> Some ([], Inl (Errorf ''create data dir'' [e]))
      | None \<Rightarrow>
     (case bolt_err env of
        Some e \<Rightarrow> Some ([], Inl (Errorf ''bolt store'' [e]))
      | None \<Rightarrow>
          map_option (\<lambda>(cs, oe). (OpenBolt # cs, case oe of Some e \<Rightarrow> Inl e | None \<Rightarrow> Inr cfg))
            (transport_phase env cfg)))))"

definition torn_down :: "node_call list \<Rightarrow> bool" where
  "torn_down cs \<longleftrightarrow> (OpenBolt \<in> set cs \<longrightarrow> CloseBolt \<in> set cs) \<and> (OpenTransport \<in> set cs \<longrightarrow> CloseTransport \<in> set cs) \<and>
     (StartRaft \<in> set cs \<longrightarrow> ShutdownRaft \<in> set cs)"

definition all_open :: "node_call list \<Rightarrow> bool" where
  "all_open cs \<longleftrightarrow> {OpenBolt, OpenTransport, StartRaft} \<subseteq> set cs \<and>
     CloseBolt \<notin> set cs \<and> CloseTransport \<notin> set cs \<and> ShutdownRaft \<notin> set cs"

lemma bootstrap_phase_cases:
  "bootstrap_phase env cfg hasState = (cs, oe) \<Longrightarrow>
   (case oe of Some e \<Rightarrow> {ShutdownRaft, CloseTransport, CloseBolt} \<subseteq> set cs
    | None \<Rightarrow> if rBootstrap cfg \<and> \<not> hasState
        then \<exists>servers. bootstrapServers cfg (rNodeID cfg) (local_addr env) = Inr servers \<and> cs = [BootstrapCluster servers]
        else cs = [])"
  by (auto simp: bootstrap_phase_def Let_def split: if_splits sum.splits option.splits)

lemma transport_phase_failed:
  "transport_phase env cfg = Some (cs, Some e) \<Longrightarrow> torn_down (OpenBolt # cs)"
  by (auto simp: transport_phase_def torn_down_def Let_def split: option.splits sum.splits prod.splits if_splits
      dest!: bootstrap_phase_cases)

lemma transport_phase_ok:
  assumes "transport_phase env cfg = Some (cs, None)"
  obtains hasState addr boot where "has_state env = Inr hasState"
    "resolveAdvertise (resolve_env env) (attempts env) (rAdvertise cfg) = Some (Inr addr)"
    "cs = OpenTransport # StartRaft # boot" "bootstrap_phase env cfg hasState = (boot, None)"
  using assms that
  by (auto simp: transport_phase_def Let_def split: option.splits sum.splits prod.splits if_splits)

lemma NewRaftStoreContext_failed:
  "NewRaftStoreContext env cfg = Some (cs, Inl e) \<Longrightarrow> torn_down cs"
  by (auto simp: NewRaftStoreContext_def Let_def torn_down_def split: option.splits prod.splits if_splits sum.splits
      dest: transport_phase_failed [unfolded torn_down_def])

lemma NewRaftStoreContext_ok:
  assumes "NewRaftStoreContext env cfg0 = Some (cs, Inr cfg)"
  obtains hasState addr boot where "cfg = fill_defaults cfg0" "check_transport cfg0 = None" "has_state env = Inr hasState"
    "resolveAdvertise (resolve_env env) (attempts env) (rAdvertise cfg) = Some (Inr addr)"
    "cs = OpenBolt # OpenTransport # StartRaft # boot" "bootstrap_phase env cfg hasState = (boot, None)"
  using assms that
  by (auto simp: NewRaftStoreContext_def Let_def split: option.splits prod.splits if_splits sum.splits
      elim!: transport_phase_ok)

subsection \<open>The committed log and EnsureClusterID\<close>

text \<open>The committed log as a list of entries; appending one and reading its response.\<close>

definition log_head :: "('p, 'v) canon \<Rightarrow> bytes list \<Rightarrow> fsm" where
  "log_head cn lg = run_log cn newFSM lg"

definition log_apply :: "('p, 'v) canon \<Rightarrow> raft_outcome \<Rightarrow> bytes list \<Rightarrow> command \<Rightarrow> bytes list \<times> applyResult result" where
  "log_apply cn out lg c =
     (case encode_command c of
        None \<Rightarrow> (lg, Inl (errors_New ''marshal command''))
      | Some d \<Rightarrow>
       (case out of
          NotCommitted e \<Rightarrow> (lg, Inl e)
        | CommittedLost e \<Rightarrow> (lg @ [d], Inl e)
        | Committed \<Rightarrow>
            (let res = snd (Apply cn (log_head cn lg) d) in
             (lg @ [d], case err res of Some e \<Rightarrow> Inl e | None \<Rightarrow> Inr res))))"

text \<open>Which case of a \<^verbatim>\<open>select\<close> on the work, the context and the closed channel fired.\<close>

datatype select_case = WorkDone | CtxDone go_error | StoreClosed

definition store_closed :: go_error where
  "store_closed = errors_New ''raft store is closed''"

definition applyContext ::
  "('p, 'v) canon \<Rightarrow> select_case \<Rightarrow> raft_outcome \<Rightarrow> bytes list \<Rightarrow> command \<Rightarrow> bytes list \<times> applyResult result" where
  "applyContext cn sel out lg c =
     (case log_apply cn out lg c of
        (lg', res) \<Rightarrow>
          (case sel of WorkDone \<Rightarrow> (lg', res) | CtxDone e \<Rightarrow> (lg', Inl e) | StoreClosed \<Rightarrow> (lg', Inl store_closed)))"

text \<open>
  One round of \<^verbatim>\<open>EnsureClusterID\<close>: entries other nodes committed meanwhile, how much of the log
  this replica has applied, the three polls (\<open>WorkDone\<close> is the default case or the ticker), the
  role, the random source and the raft library's outcome.
\<close>

record ensure_obs =
  others :: "bytes list"
  applied :: nat
  poll1 :: select_case
  obs_role :: raft_role
  obs_rand :: "byte list option"
  apply_sel :: select_case
  obs_outcome :: raft_outcome
  poll2 :: select_case
  poll3 :: select_case

definition retryable :: "go_error \<Rightarrow> bool" where
  "retryable e \<longleftrightarrow> errors_is e RaftNotLeader \<or> errors_is e RaftLeadershipLost \<or>
     errors_is e RaftLeadershipTransferInProgress \<or> errors_is e RaftEnqueueTimeout"

definition select_error :: "select_case \<Rightarrow> go_error option" where
  "select_error s = (case s of WorkDone \<Rightarrow> None | CtxDone e \<Rightarrow> Some e | StoreClosed \<Rightarrow> Some store_closed)"

definition init_command :: "string \<Rightarrow> command" where
  "init_command cid = zero_command\<lparr>cOp := opInitCluster, cClusterID := cid\<rparr>"

text \<open>The leader's part of a round: the new log, the candidate, and a result if the call returns.\<close>

definition ensure_leader ::
  "('p, 'v) canon \<Rightarrow> ensure_obs \<Rightarrow> bytes list \<Rightarrow> string \<Rightarrow> bytes list \<times> string \<times> string result option" where
  "ensure_leader cn ob lg candidate =
     (if obs_role ob \<noteq> Leader then (lg, candidate, None)
      else (case (if candidate = [] then New (obs_rand ob) else Inr candidate) of
          Inl e \<Rightarrow> (lg, candidate, Some (Inl e))
        | Inr cid \<Rightarrow>
           (case applyContext cn (apply_sel ob) (obs_outcome ob) lg (init_command cid) of
              (lg', Inr res) \<Rightarrow> (lg', cid, Some (Inr (resClusterID res)))
            | (lg', Inl e) \<Rightarrow>
               (case select_error (poll2 ob) of
                  Some e2 \<Rightarrow> (lg', cid, Some (Inl e2))
                | None \<Rightarrow>
                    if retryable e then (lg', cid, None)
                    else (lg', cid, Some (Inl (Errorf ''initialize cluster ID'' [e])))))))"

fun EnsureClusterID ::
  "('p, 'v) canon \<Rightarrow> ensure_obs list \<Rightarrow> bytes list \<Rightarrow> string \<Rightarrow> bytes list \<times> string result option" where
  "EnsureClusterID cn [] lg candidate = (lg, None)"
| "EnsureClusterID cn (ob # obs) lg0 candidate =
     (let lg = lg0 @ others ob; seen = clusterIDValue (log_head cn (take (applied ob) lg)) in
      if seen \<noteq> [] then (lg, Some (Inr seen))
      else (case select_error (poll1 ob) of
          Some e \<Rightarrow> (lg, Some (Inl e))
        | None \<Rightarrow>
           (case ensure_leader cn ob lg candidate of
              (lg', cid, Some r) \<Rightarrow> (lg', Some r)
            | (lg', cid, None) \<Rightarrow>
               (case select_error (poll3 ob) of
                  Some e \<Rightarrow> (lg', Some (Inl e))
                | None \<Rightarrow> EnsureClusterID cn obs lg' cid))))"

text \<open>The log view and the state view of the store agree.\<close>

lemma store_apply_log:
  "store_apply cn out (log_head cn lg) c = (log_head cn (fst (log_apply cn out lg c)), snd (log_apply cn out lg c))"
  by (auto simp: store_apply_def log_apply_def log_head_def run_log_append case_prod_beta Let_def
      split: option.splits raft_outcome.splits)

lemma log_apply_extends: "\<exists>es. fst (log_apply cn out lg c) = lg @ es"
  by (auto simp: log_apply_def Let_def split: option.splits raft_outcome.splits)

lemma log_head_wf: "wf_fsm (log_head cn lg)"
  by (simp add: log_head_def run_log_wf wf_newFSM)

lemma log_head_prefix_id:
  assumes "clusterID (log_head cn (take n lg)) \<noteq> []"
  shows "clusterID (log_head cn lg) = clusterID (log_head cn (take n lg))"
proof -
  have "log_head cn lg = run_log cn (log_head cn (take n lg)) (drop n lg)"
    unfolding log_head_def by (metis append_take_drop_id run_log_append)
  then show ?thesis using run_log_clusterID [OF assms] by simp
qed

lemma log_head_append_id:
  "clusterID (log_head cn lg) \<noteq> [] \<Longrightarrow> clusterID (log_head cn (lg @ es)) = clusterID (log_head cn lg)"
  by (simp add: log_head_def run_log_append run_log_clusterID)

lemma hex_encode_ascii: "ascii (hex_encode bs)"
proof -
  have "lower_hex c \<Longrightarrow> (of_char c :: nat) < 128" for c by (auto simp: lower_hex_def less_eq_char_def)
  then show ?thesis
    by (induction bs) (auto simp: hex_encode_def nibbles_less lower_hex_digit)
qed

lemma New_ascii: "New rand = Inr cid \<Longrightarrow> ascii cid"
  by (auto simp: New_def uuid_encode_def hex_encode_ascii split: option.splits)

lemma init_command_ok:
  assumes "ascii cid" "log_apply cn out lg (init_command cid) = (lg', Inr res)"
  shows "resClusterID res = clusterID (log_head cn lg')" "valid_id (resClusterID res)"
proof -
  have asc: "ascii_command (init_command cid)"
    using assms(1) by (simp add: ascii_command_def init_command_def zero_command_def opInitCluster_def)
  have sa: "store_apply cn out (log_head cn lg) (init_command cid) = (log_head cn lg', Inr res)"
    by (simp add: store_apply_log assms(2))
  have op: "apply_command cn f (init_command cid) = applyInitCluster f (init_command cid)" for f
    by (simp add: apply_command_def init_command_def opInitCluster_def opReserve_def opCommit_def)
  from store_apply_cases [OF asc sa] have r: "log_head cn lg' = fst (applyInitCluster (log_head cn lg) (init_command cid))"
    "res = snd (applyInitCluster (log_head cn lg) (init_command cid))" "err res = None"
    by (auto simp: op)
  then show id: "resClusterID res = clusterID (log_head cn lg')"
    by (auto simp: applyInitCluster_def Let_def zero_applyResult_def split: option.splits)
  have "clusterID (log_head cn lg') \<noteq> []"
    using r valid_id_nonempty by (auto simp: applyInitCluster_def Let_def zero_applyResult_def split: option.splits if_splits)
  with id show "valid_id (resClusterID res)" using log_head_wf [of cn lg'] by (simp add: wf_fsm_def)
qed

lemma applyContext_cases:
  assumes "applyContext cn sel out lg c = (lg', r)"
  shows "\<exists>es. lg' = lg @ es" "r = Inr res \<Longrightarrow> log_apply cn out lg c = (lg', Inr res)"
  using assms log_apply_extends [of cn out lg c]
  by (auto simp: applyContext_def split: prod.splits select_case.splits)

lemma ensure_leader_log: "ensure_leader cn ob lg cand = (lg', cid, r) \<Longrightarrow> \<exists>es. lg' = lg @ es"
  by (auto simp: ensure_leader_def split: if_splits sum.splits prod.splits option.splits dest!: applyContext_cases(1))

lemma ensure_leader_candidate: "ensure_leader cn ob lg cand = (lg', cid, r) \<Longrightarrow> ascii cand \<Longrightarrow> ascii cid"
  by (auto simp: ensure_leader_def split: if_splits sum.splits prod.splits option.splits dest: New_ascii)

lemma ensure_leader_ok:
  assumes "ensure_leader cn ob lg cand = (lg', cid, Some (Inr i))" "ascii cand"
  shows "valid_id i \<and> clusterID (log_head cn lg') = i"
proof -
  from assms(1) obtain res where "applyContext cn (apply_sel ob) (obs_outcome ob) lg (init_command cid) = (lg', Inr res)"
    "i = resClusterID res"
    by (auto simp: ensure_leader_def split: if_splits sum.splits prod.splits option.splits)
  with init_command_ok [OF ensure_leader_candidate [OF assms] applyContext_cases(2)] show ?thesis by metis
qed

lemma EnsureClusterID_ok:
  "EnsureClusterID cn obs lg cand = (lg', Some (Inr i)) \<Longrightarrow> ascii cand \<Longrightarrow>
   valid_id i \<and> clusterID (log_head cn lg') = i \<and> (\<exists>es. lg' = lg @ es)"
proof (induction cn obs lg cand rule: EnsureClusterID.induct)
  case (2 cn ob obs lg0 cand)
  define lg where "lg = lg0 @ others ob"
  define seen where "seen = clusterIDValue (log_head cn (take (applied ob) lg))"
  note eqs = 2(2) [unfolded EnsureClusterID.simps Let_def, folded lg_def, folded seen_def]
  show ?case
  proof (cases "seen = []")
    case False
    with eqs have "i = seen" "lg' = lg" by simp_all
    moreover have "clusterID (log_head cn lg) = seen" using log_head_prefix_id [of cn "applied ob" lg] False
      by (simp add: seen_def clusterIDValue_def)
    ultimately show ?thesis using log_head_wf [of cn lg] False by (auto simp: wf_fsm_def lg_def)
  next
    case True
    with eqs have p1: "select_error (poll1 ob) = None" by (auto split: option.splits)
    obtain lg1 cid r where el: "ensure_leader cn ob lg cand = (lg1, cid, r)" by (cases "ensure_leader cn ob lg cand")
    note l1 = ensure_leader_log [OF el] and c1 = ensure_leader_candidate [OF el 2(3)]
    show ?thesis
    proof (cases r)
      case (Some x)
      with eqs True p1 el have "lg' = lg1" "x = Inr i" by simp_all
      with ensure_leader_ok [of cn ob lg cand lg1 cid i] el Some 2(3) l1 show ?thesis by (auto simp: lg_def)
    next
      case None
      with eqs True p1 el have "select_error (poll3 ob) = None" "EnsureClusterID cn obs lg1 cid = (lg', Some (Inr i))"
        by (auto split: option.splits)
      then have "valid_id i \<and> clusterID (log_head cn lg') = i \<and> (\<exists>es. lg' = lg1 @ es)"
        using 2(1) [OF lg_def seen_def] True p1 el None c1 by simp
      then show ?thesis using l1 by (auto simp: lg_def)
    qed
  qed
qed simp

text \<open>The call over more rounds is the call over the first ones, continued where it has not returned.\<close>

lemma EnsureClusterID_append:
  assumes "lg1 = fst (EnsureClusterID cn pre lg cand)" and "ascii cand"
  shows "(\<exists>r. EnsureClusterID cn pre lg cand = (lg1, Some r) \<and> EnsureClusterID cn (pre @ post) lg cand = (lg1, Some r)) \<or>
    (\<exists>cand'. ascii cand' \<and> EnsureClusterID cn (pre @ post) lg cand = EnsureClusterID cn post lg1 cand')"
  using assms
proof (induction cn pre lg cand arbitrary: lg1 rule: EnsureClusterID.induct)
  case (1 cn lg cand)
  then show ?case by auto
next
  case (2 cn ob obs lg0 cand)
  define lg where "lg = lg0 @ others ob"
  define seen where "seen = clusterIDValue (log_head cn (take (applied ob) lg))"
  obtain lg2 cid r where el: "ensure_leader cn ob lg cand = (lg2, cid, r)" by (cases "ensure_leader cn ob lg cand")
  note step = EnsureClusterID.simps(2) [of cn ob _ lg0 cand, unfolded Let_def, folded lg_def, folded seen_def]
  show ?case
  proof (cases "seen \<noteq> [] \<or> select_error (poll1 ob) \<noteq> None \<or> r \<noteq> None \<or> select_error (poll3 ob) \<noteq> None")
    case True
    then show ?thesis using 2(2) el by (auto simp: step simp del: EnsureClusterID.simps split: option.splits)
  next
    case False
    with el have e: "EnsureClusterID cn (ob # os) lg0 cand = EnsureClusterID cn os lg2 cid" for os
      by (simp add: step del: EnsureClusterID.simps)
    with 2(2) have "lg1 = fst (EnsureClusterID cn obs lg2 cid)" by metis
    with 2(1) [OF lg_def seen_def] False el ensure_leader_candidate [OF el 2(3)] have "(\<exists>r. EnsureClusterID cn obs lg2 cid = (lg1, Some r) \<and> EnsureClusterID cn (obs @ post) lg2 cid = (lg1, Some r)) \<or>
      (\<exists>cand'. ascii cand' \<and> EnsureClusterID cn (obs @ post) lg2 cid = EnsureClusterID cn post lg1 cand')"
      by simp
    then show ?thesis by (simp add: e del: EnsureClusterID.simps)
  qed
qed

text \<open>A leader whose entry commits and whose wait is not cut short returns.\<close>

lemma init_command_committed:
  assumes "ascii cid"
  shows "\<exists>lg' r. log_apply cn Committed lg (init_command cid) = (lg', r) \<and> (\<forall>e. r = Inl e \<longrightarrow> \<not> retryable e)"
proof -
  have ts: "format_rfc3339 (cTimestamp (init_command cid)) = Some ''0001-01-01T00:00:00Z''"
    using format_zero_time by (simp add: init_command_def zero_command_def)
  then obtain d where d: "encode_command (init_command cid) = Some d" by (auto simp: encode_command_def)
  have "ascii_command (init_command cid)"
    using assms by (simp add: ascii_command_def init_command_def zero_command_def opInitCluster_def)
  then have "Apply cn f d = applyInitCluster f (init_command cid)" for f
    using Apply_encode_command [OF _ d]
    by (simp add: apply_command_def init_command_def opInitCluster_def opReserve_def opCommit_def)
  then show ?thesis
    by (auto simp: log_apply_def d Let_def applyInitCluster_def Validate_def zero_applyResult_def retryable_def
        split: option.splits if_splits)
qed

definition round_ends :: "ensure_obs \<Rightarrow> bool" where
  "round_ends ob \<longleftrightarrow> poll1 ob \<noteq> WorkDone \<or> poll3 ob \<noteq> WorkDone \<or>
     obs_role ob = Leader \<and> apply_sel ob = WorkDone \<and> obs_outcome ob = Committed"

lemma ensure_leader_returns:
  assumes "obs_role ob = Leader" "apply_sel ob = WorkDone" "obs_outcome ob = Committed" "ascii cand"
  shows "\<exists>lg' cid r. ensure_leader cn ob lg cand = (lg', cid, Some r)"
proof (cases "if cand = [] then New (obs_rand ob) else Inr cand")
  case (Inl e)
  then show ?thesis using assms(1) by (auto simp: ensure_leader_def)
next
  case (Inr cid)
  then have "ascii cid" using assms(4) New_ascii by (auto split: if_splits)
  from init_command_committed [OF this, of cn lg] obtain lg' r where
    "log_apply cn Committed lg (init_command cid) = (lg', r)" "\<forall>e. r = Inl e \<longrightarrow> \<not> retryable e" by blast
  then show ?thesis using Inr assms(1-3)
    by (cases r) (auto simp: ensure_leader_def applyContext_def split: option.splits)
qed

lemma EnsureClusterID_round:
  assumes "ascii cand"
    and "round_ends ob \<or> clusterID (log_head cn (take (applied ob) (lg @ others ob))) \<noteq> []"
  shows "\<exists>r. snd (EnsureClusterID cn (ob # obs) lg cand) = Some r"
proof (cases "obs_role ob = Leader \<and> apply_sel ob = WorkDone \<and> obs_outcome ob = Committed")
  case True
  with ensure_leader_returns [OF _ _ _ assms(1), of ob cn "lg @ others ob"] show ?thesis
    by (auto simp: Let_def split: option.splits)
next
  case False
  with assms(2) show ?thesis
    by (auto simp: round_ends_def Let_def clusterIDValue_def select_error_def
        split: option.splits prod.splits select_case.splits)
qed

lemma EnsureClusterID_returns:
  assumes "round_ends ob \<or> clusterID (log_head cn (take (applied ob) (fst (EnsureClusterID cn pre lg []) @ others ob))) \<noteq> []"
  shows "\<exists>r. snd (EnsureClusterID cn (pre @ ob # post) lg []) = Some r"
proof -
  have "ascii []" by simp
  from EnsureClusterID_append [OF refl this, of cn pre lg "ob # post"] EnsureClusterID_round assms
  show ?thesis by (metis snd_conv)
qed

subsection \<open>Membership, leadership transfer and shutdown\<close>

record RaftMembership =
  Members :: nat
  Voters :: nat

text \<open>A server of raft's configuration: its id and whether it votes.\<close>

definition count_members :: "(string \<times> bool) list \<Rightarrow> RaftMembership" where
  "count_members servers = \<lparr>Members = length servers, Voters = length (filter snd servers)\<rparr>"

definition raft_membership ::
  "go_error option \<Rightarrow> select_case \<Rightarrow> (string \<times> bool) list result \<Rightarrow> RaftMembership result" where
  "raft_membership expired sel conf =
     (case expired of
        Some e \<Rightarrow> Inl e
      | None \<Rightarrow>
       (case sel of
          CtxDone e \<Rightarrow> Inl e
        | StoreClosed \<Rightarrow> Inl store_closed
        | WorkDone \<Rightarrow>
           (case conf of
              Inl e \<Rightarrow> Inl (Errorf ''read Raft configuration'' [e])
            | Inr servers \<Rightarrow> Inr (count_members servers))))"

text \<open>Waiting for another leader: the leader id seen per round and how the wait ended.\<close>

fun await_leader :: "string \<Rightarrow> (string \<times> select_case) list \<Rightarrow> go_error option option" where
  "await_leader local [] = None"
| "await_leader local ((leader, sel) # obs) =
     (if leader \<noteq> [] \<and> leader \<noteq> local then Some None
      else (case sel of
          WorkDone \<Rightarrow> await_leader local obs
        | CtxDone e \<Rightarrow> Some (Some (Errorf ''observe new raft leader'' [e]))
        | StoreClosed \<Rightarrow> Some (Some store_closed)))"

text \<open>The result is \<open>None\<close> while waiting, \<open>Some None\<close> for nil.\<close>

definition TransferLeadership ::
  "raft_role \<Rightarrow> string \<Rightarrow> RaftMembership result \<Rightarrow> select_case \<Rightarrow> go_error option \<Rightarrow>
   (string \<times> select_case) list \<Rightarrow> go_error option option" where
  "TransferLeadership ro local membership sel transfer obs =
     (if ro \<noteq> Leader then Some None
      else (case membership of
          Inl e \<Rightarrow> Some (Some (Errorf ''transfer raft leadership'' [e]))
        | Inr m \<Rightarrow>
            if Voters m < 2 then Some None
            else (case sel of
                CtxDone e \<Rightarrow> Some (Some (Errorf ''transfer raft leadership'' [e]))
              | StoreClosed \<Rightarrow> Some (Some store_closed)
              | WorkDone \<Rightarrow>
                 (case transfer of
                    Some e \<Rightarrow> if errors_is e RaftNotLeader then await_leader local obs
                              else Some (Some (Errorf ''transfer raft leadership'' [e]))
                  | None \<Rightarrow> await_leader local obs))))"

text \<open>\<^verbatim>\<open>Close\<close> runs its body once; later calls return the first result.\<close>

definition store_close ::
  "go_error option \<Rightarrow> go_error option option \<Rightarrow> go_error option \<Rightarrow> go_error option option \<Rightarrow>
   go_error option option \<times> node_call list \<times> go_error option" where
  "store_close shutdown transport bolt once =
     (case once of
        Some r \<Rightarrow> (once, [], r)
      | None \<Rightarrow>
          let r = errors_Join
            [map_option (\<lambda>e. Errorf ''raft shutdown'' [e]) shutdown,
             (case transport of None \<Rightarrow> None | Some t \<Rightarrow> map_option (\<lambda>e. Errorf ''close raft transport'' [e]) t),
             map_option (\<lambda>e. Errorf ''close raft store'' [e]) bolt]
          in (Some r,
              ShutdownRaft # (case transport of None \<Rightarrow> [] | Some _ \<Rightarrow> [CloseTransport]) @ [CloseBolt], r))"

lemma await_leader_ok:
  "await_leader local obs = Some None \<Longrightarrow> \<exists>l sel. (l, sel) \<in> set obs \<and> l \<noteq> [] \<and> l \<noteq> local"
  by (induction local obs rule: await_leader.induct) (auto split: if_splits select_case.splits)

subsection \<open>Properties\<close>

text \<open>C17: the identity returned is the replicated one. Whatever other nodes commit meanwhile, however
  far this replica lags, and whether its own attempts commit, get lost or are retried, an identity
  that \<^verbatim>\<open>EnsureClusterID\<close> returns is a canonical version 4 UUID and is the identity at the head of
  the committed log, which the call only extends. Whatever entries are committed after, it stays the
  identity of every replica that has applied this log.\<close>

theorem ensured_identity_is_replicated:
  assumes "EnsureClusterID cn obs lg [] = (lg', Some (Inr cid))"
  shows "valid_id cid \<and> clusterID (log_head cn lg') = cid \<and> (\<exists>es. lg' = lg @ es) \<and>
    (\<forall>more. clusterID (log_head cn (lg' @ more)) = cid)"
  using EnsureClusterID_ok [OF assms] log_head_append_id [of cn lg'] valid_id_nonempty by auto

definition ex_ensure :: ensure_obs where
  "ex_ensure = \<lparr>others = [], applied = 0, poll1 = WorkDone, obs_role = Leader,
     obs_rand = Some [0,1,2,3,4,5,6,7,8,9,10,11,12,13,14,15], apply_sel = WorkDone, obs_outcome = Committed,
     poll2 = WorkDone, poll3 = WorkDone\<rparr>"

definition ex_uuid :: string where
  "ex_uuid = ''00010203-0405-4607-8809-0a0b0c0d0e0f''"

lemma ex_uuid_New: "New (obs_rand ex_ensure) = Inr ex_uuid"
  by code_simp

lemma ex_uuid_valid: "valid_id ex_uuid"
  by code_simp

lemma ex_ensured: "\<exists>lg'. EnsureClusterID ex_time_canon [ex_ensure] [] [] = (lg', Some (Inr ex_uuid))"
proof -
  have c: "ascii_command (init_command ex_uuid)" "format_rfc3339 (cTimestamp (init_command ex_uuid)) = Some ''0001-01-01T00:00:00Z''"
    using format_zero_time by (simp_all add: ascii_command_def init_command_def zero_command_def opInitCluster_def ex_uuid_def)
  have "apply_command ex_time_canon newFSM (init_command ex_uuid) = applyInitCluster newFSM (init_command ex_uuid)"
    by (simp add: apply_command_def init_command_def opInitCluster_def opReserve_def opCommit_def)
  moreover have "applyInitCluster newFSM (init_command ex_uuid) =
      (newFSM\<lparr>clusterID := ex_uuid\<rparr>, zero_applyResult\<lparr>resClusterID := ex_uuid\<rparr>)"
    using ex_uuid_valid by (simp add: applyInitCluster_def init_command_def newFSM_def)
  ultimately have "snd (store_apply ex_time_canon Committed (log_head ex_time_canon []) (init_command ex_uuid)) =
      Inr (zero_applyResult\<lparr>resClusterID := ex_uuid\<rparr>)"
    using store_apply_committed [OF c, of ex_time_canon newFSM] by (simp add: log_head_def zero_applyResult_def)
  then have "snd (log_apply ex_time_canon Committed [] (init_command ex_uuid)) = Inr (zero_applyResult\<lparr>resClusterID := ex_uuid\<rparr>)"
    by (simp add: store_apply_log)
  then obtain lg' where "log_apply ex_time_canon Committed [] (init_command ex_uuid) = (lg', Inr (zero_applyResult\<lparr>resClusterID := ex_uuid\<rparr>))"
    by (metis prod.collapse)
  moreover have "New (Some [0,1,2,3,4,5,6,7,8,9,10,11,12,13,14,15]) = Inr ex_uuid"
    using ex_uuid_New by (simp add: ex_ensure_def)
  ultimately show ?thesis
    by (simp add: ensure_leader_def ex_ensure_def applyContext_def log_head_def clusterIDValue_def newFSM_def
        select_error_def zero_applyResult_def)
qed

theorem ensured_identity_is_replicated_witness:
  "\<exists>lg'. EnsureClusterID ex_time_canon [ex_ensure] [] [] = (lg', Some (Inr ex_uuid)) \<and>
     (\<forall>more. clusterID (log_head ex_time_canon (lg' @ more)) = ex_uuid)"
proof -
  obtain lg' where e: "EnsureClusterID ex_time_canon [ex_ensure] [] [] = (lg', Some (Inr ex_uuid))"
    using ex_ensured by blast
  from ensured_identity_is_replicated [OF e] e show ?thesis by blast
qed

text \<open>C18: waiting for an identity ends. \<^verbatim>\<open>EnsureClusterID\<close> has returned by a round in which
  its context has ended or the store is closed, or in which this replica has applied an identity from
  the log as it stands then, whoever committed it, or in which this node is the leader and its own
  entry is committed and answered.\<close>

theorem ensure_cluster_id_returns:
  assumes "poll1 ob \<noteq> WorkDone \<or> poll3 ob \<noteq> WorkDone \<or>
      clusterID (log_head cn (take (applied ob) (fst (EnsureClusterID cn pre lg []) @ others ob))) \<noteq> [] \<or>
      obs_role ob = Leader \<and> apply_sel ob = WorkDone \<and> obs_outcome ob = Committed"
  shows "\<exists>lg' r. EnsureClusterID cn (pre @ ob # post) lg [] = (lg', Some r)"
  using EnsureClusterID_returns [of ob cn pre lg post] assms unfolding round_ends_def by (metis prod.collapse)

theorem ensure_cluster_id_returns_witness:
  "\<exists>lg' r. EnsureClusterID ex_time_canon ([ex_ensure\<lparr>obs_role := Follower\<rparr>] @ ex_ensure # []) [] [] = (lg', Some r)"
  using ensure_cluster_id_returns [of ex_ensure ex_time_canon "[ex_ensure\<lparr>obs_role := Follower\<rparr>]" "[]" "[]"]
  by (simp add: ex_ensure_def)

text \<open>C19: a failed start leaves nothing open, a successful one everything. If constructing the store
  fails at any point, every resource it had opened is released: the bolt store, the transport and
  the raft instance. If it succeeds, all three are open, the transport settings were consistent,
  and the cluster was bootstrapped exactly when that was requested and no state existed, with the
  configured members including this node.\<close>

theorem construction_cleans_up:
  assumes "NewRaftStoreContext env cfg0 = Some (cs, r)"
  shows "case r of
      Inl e \<Rightarrow> torn_down cs
    | Inr cfg \<Rightarrow> all_open cs \<and> check_transport cfg0 = None \<and>
        (\<exists>hasState boot. has_state env = Inr hasState \<and> cs = [OpenBolt, OpenTransport, StartRaft] @ boot \<and>
          (if rBootstrap cfg \<and> \<not> hasState
           then \<exists>servers. boot = [BootstrapCluster servers] \<and> rNodeID cfg \<in> fst ` set servers
           else boot = []))"
proof (cases r)
  case (Inl e)
  with assms NewRaftStoreContext_failed show ?thesis by auto
next
  case (Inr cfg)
  with assms obtain hasState addr boot where ok: "check_transport cfg0 = None" "has_state env = Inr hasState"
    "cs = OpenBolt # OpenTransport # StartRaft # boot" "bootstrap_phase env cfg hasState = (boot, None)"
    by (auto elim: NewRaftStoreContext_ok)
  have self: "rNodeID cfg \<in> fst ` set servers" if "bootstrapServers cfg (rNodeID cfg) a = Inr servers" for servers a
    using that unfolding bootstrapServers_ok by (force simp: list_ex_iff split: if_splits)
  from bootstrap_phase_cases [OF ok(4)] ok self show ?thesis by (auto simp: Inr all_open_def split: if_splits)
qed

definition ex_raft_config :: RaftConfig where
  "ex_raft_config = \<lparr>rNodeID = ''n1'', rBindAddr = ''10.0.0.1:7070'', rAdvertise = [], rDataDir = ''d'', rBootstrap = True,
     rSingleNode = True, rInsecure = True, rMembers = [], rApplyTimeout = 0,
     rTLS = \<lparr>CertFile = [], KeyFile = [], CAFile = []\<rparr>\<rparr>"

definition ex_node_env :: node_env where
  "ex_node_env = \<lparr>mkdir_err = None, bolt_err = None, snaps_err = None, has_state = Inr False,
     resolve_env = \<lparr>LookupPort = (\<lambda>_. Inr 7070), parse_ip = (\<lambda>_. Some True)\<rparr>,
     attempts = [\<lparr>answer = Inr [''10.0.0.1''], ended = False, ended_waiting = False\<rparr>],
     tls_files_env = \<lparr>keypair_err = None, ca_pem = Inr [], has_certs = (\<lambda>_. True), listen_err = None\<rparr>,
     tcp_err = None, local_addr = ''10.0.0.1:7070'', newraft_err = None, bootstrap_err = None\<rparr>"

theorem construction_cleans_up_witness:
  "\<exists>cs cfg. NewRaftStoreContext ex_node_env ex_raft_config = Some (cs, Inr cfg) \<and> all_open cs \<and>
     BootstrapCluster [(''n1'', ''10.0.0.1:7070'')] \<in> set cs"
proof -
  obtain cs cfg where r: "NewRaftStoreContext ex_node_env ex_raft_config = Some (cs, Inr cfg)"
    "cs = [OpenBolt, OpenTransport, StartRaft, BootstrapCluster [(''n1'', ''10.0.0.1:7070'')]]"
    by (simp add: NewRaftStoreContext_def ex_node_env_def ex_raft_config_def check_transport_def tls_files_def fill_defaults_def
        bootstrapServers_def transport_phase_def bootstrap_phase_def resolveAdvertise_def SplitHostPort_def last_index_of_def
        has_byte_def check_zone_def TLS_Enabled_def Let_def)
  from construction_cleans_up [OF r(1)] r show ?thesis by auto
qed

text \<open>Leadership is handed over before shutdown goes on. When \<^verbatim>\<open>TransferLeadership\<close> returns
  without an error, this node was not the leader, or the cluster has fewer than two voters, or
  another node has been seen as the leader.\<close>

theorem leadership_handed_over:
  assumes "TransferLeadership ro local membership sel transfer obs = Some None"
  shows "ro \<noteq> Leader \<or> (\<exists>m. membership = Inr m \<and> Voters m < 2) \<or>
    (\<exists>l s. (l, s) \<in> set obs \<and> l \<noteq> [] \<and> l \<noteq> local)"
  using assms await_leader_ok
  by (auto simp: TransferLeadership_def split: if_splits sum.splits select_case.splits option.splits)

theorem leadership_handed_over_witness:
  "TransferLeadership Leader ''n1'' (raft_membership None WorkDone (Inr [(''n1'', True), (''n2'', True)])) WorkDone None
     [([], WorkDone), (''n2'', WorkDone)] = Some None \<and>
   (\<exists>l s. (l, s) \<in> set [([], WorkDone), (''n2'', WorkDone)] \<and> l \<noteq> [] \<and> l \<noteq> ''n1'')"
proof -
  have t: "TransferLeadership Leader ''n1'' (raft_membership None WorkDone (Inr [(''n1'', True), (''n2'', True)])) WorkDone None
     [([], WorkDone), (''n2'', WorkDone)] = Some None"
    by (simp add: TransferLeadership_def raft_membership_def count_members_def)
  from leadership_handed_over [OF t] t show ?thesis by (simp add: raft_membership_def count_members_def)
qed

text \<open>Closing is idempotent and complete. The first \<^verbatim>\<open>Close\<close> shuts raft down, then closes the
  transport, then the log store, in that order and whatever fails, and reports exactly the failures;
  a second call does nothing and returns the same result.\<close>

theorem close_once:
  "case store_close shutdown (Some transport) bolt None of
     (once, cs, r) \<Rightarrow> cs = [ShutdownRaft, CloseTransport, CloseBolt] \<and>
       (r = None \<longleftrightarrow> shutdown = None \<and> transport = None \<and> bolt = None) \<and>
       store_close shutdown' transport' bolt' once = (once, [], r)"
  by (simp add: store_close_def Let_def errors_Join_None_iff)

end
