(* ===== verification/GoStrings.thy ===== *)
theory GoStrings
  imports JsonText
begin

section \<open>The standard library's string functions (strings, encoding/hex)\<close>

text \<open>
  The functions of \<^verbatim>\<open>strings\<close> and \<^verbatim>\<open>encoding/hex\<close> that configuration and resource names go
  through. \<open>TrimSpace\<close> knows the whole Unicode white space set, by the UTF-8 bytes of its members.
\<close>

subsection \<open>Definitions\<close>

fun Split :: "char \<Rightarrow> string \<Rightarrow> string list" where
  "Split sep [] = [[]]"
| "Split sep (c # s) =
     (if c = sep then [] # Split sep s
      else (case Split sep s of [] \<Rightarrow> [[c]] | p # ps \<Rightarrow> (c # p) # ps))"

fun Join :: "char \<Rightarrow> string list \<Rightarrow> string" where
  "Join sep [] = []"
| "Join sep [p] = p"
| "Join sep (p # q # ps) = p @ sep # Join sep (q # ps)"

definition HasPrefix :: "string \<Rightarrow> string \<Rightarrow> bool" where
  "HasPrefix s p \<longleftrightarrow> take (length p) s = p"

definition Trim :: "char \<Rightarrow> string \<Rightarrow> string" where
  "Trim c s = rev (dropWhile (\<lambda>x. x = c) (rev (dropWhile (\<lambda>x. x = c) s)))"

definition TrimRight :: "string \<Rightarrow> string \<Rightarrow> string" where
  "TrimRight s cutset = rev (dropWhile (\<lambda>x. x \<in> set cutset) (rev s))"

definition space_runes :: "string list" where
  "space_runes =
     map (\<lambda>n. [char_of (n :: nat)]) [0x09, 0x0A, 0x0B, 0x0C, 0x0D, 0x20] @
     map utf8_encode ([0x85, 0xA0, 0x1680, 0x2028, 0x2029, 0x202F, 0x205F, 0x3000] @ [0x2000..<0x200B])"

fun strip_left :: "string list \<Rightarrow> nat \<Rightarrow> string \<Rightarrow> string" where
  "strip_left runes 0 s = s"
| "strip_left runes (Suc n) s =
     (case find (\<lambda>r. r \<noteq> [] \<and> HasPrefix s r) runes of
        None \<Rightarrow> s
      | Some r \<Rightarrow> strip_left runes n (drop (length r) s))"

text \<open>Every round drops at least one byte, so the length of the string bounds the rounds.\<close>

definition TrimSpace :: "string \<Rightarrow> string" where
  "TrimSpace s =
     (let l = strip_left space_runes (length s) s
      in rev (strip_left (map rev space_runes) (length l) (rev l)))"

text \<open>\<^verbatim>\<open>strings.Cut\<close> at the first separator.\<close>

definition Cut :: "char \<Rightarrow> string \<Rightarrow> string \<times> string \<times> bool" where
  "Cut sep s =
     (let before = takeWhile (\<lambda>c. c \<noteq> sep) s in
      if before = s then (s, [], False) else (before, drop (Suc (length before)) s, True))"

text \<open>\<^verbatim>\<open>hex.DecodeString\<close>: \<open>None\<close> on an odd length or a character that is not a hexadecimal digit.\<close>

fun hex_decode :: "string \<Rightarrow> bytes option" where
  "hex_decode [] = Some []"
| "hex_decode [c] = None"
| "hex_decode (a # b # s) =
     (case (hex_val a, hex_val b, hex_decode s) of
        (Some x, Some y, Some r) \<Rightarrow> Some (char_of (16 * x + y) # r)
      | _ \<Rightarrow> None)"

subsection \<open>Splitting and joining\<close>

lemma Split_nonempty [simp]: "Split sep s \<noteq> []"
  by (induction sep s rule: Split.induct) (auto split: list.splits)

lemma Join_Cons: "ps \<noteq> [] \<Longrightarrow> Join sep (p # ps) = p @ sep # Join sep ps"
  by (cases ps) auto

lemma Join_Split [simp]: "Join sep (Split sep s) = s"
proof (induction sep s rule: Split.induct)
  case (2 sep c s)
  show ?case
  proof (cases "c = sep")
    case True
    with 2 show ?thesis by (simp add: Join_Cons)
  next
    case False
    obtain p ps where ps: "Split sep s = p # ps" by (meson Split_nonempty neq_Nil_conv)
    with 2 False have "Join sep (p # ps) = s" by simp
    then show ?thesis using False ps by (cases ps) auto
  qed
qed simp

lemma Split_no_sep: "p \<in> set (Split sep s) \<Longrightarrow> sep \<notin> set p"
  by (induction sep s arbitrary: p rule: Split.induct) (auto split: list.splits if_splits)

lemma Split_append: "sep \<notin> set p \<Longrightarrow> Split sep (p @ sep # s) = p # Split sep s"
  by (induction p) (auto split: list.split)

lemma Split_single: "sep \<notin> set p \<Longrightarrow> Split sep p = [p]"
  by (induction p) auto

lemma Split_Join: "ps \<noteq> [] \<Longrightarrow> (\<And>p. p \<in> set ps \<Longrightarrow> sep \<notin> set p) \<Longrightarrow> Split sep (Join sep ps) = ps"
  by (induction sep ps rule: Join.induct) (simp_all add: Split_append Split_single)

subsection \<open>Trimming\<close>

lemma TrimSpace_Nil [simp]: "TrimSpace [] = []"
  by (simp add: TrimSpace_def)

lemma Trim_idem_ends:
  assumes "Trim c s = t" "t \<noteq> []"
  shows "hd t \<noteq> c" "last t \<noteq> c"
proof -
  let ?u = "dropWhile (\<lambda>x. x = c) s"
  have t: "t = rev (dropWhile (\<lambda>x. x = c) (rev ?u))" using assms(1) by (simp add: Trim_def)
  then have d: "dropWhile (\<lambda>x. x = c) (rev ?u) \<noteq> []" using assms(2) by auto
  have "last t = hd (dropWhile (\<lambda>x. x = c) (rev ?u))" using d by (simp add: t last_rev)
  then show "last t \<noteq> c" using hd_dropWhile [OF d] by simp
  have u: "?u \<noteq> []" using d by (metis dropWhile.simps(1) rev.simps(1))
  have "t = take (length t) ?u" unfolding t
    by (metis append_eq_conv_conj rev_append rev_rev_ident takeWhile_dropWhile_id)
  then have "hd t = hd ?u" using assms(2) u by (metis hd_take length_greater_0_conv)
  then show "hd t \<noteq> c" using hd_dropWhile [OF u] by simp
qed

lemma graphic_prefix:
  assumes "s \<noteq> []" "33 \<le> (of_char (hd s) :: nat)" "(of_char (hd s) :: nat) \<le> 126" "rs = space_runes \<or> rs = map rev space_runes"
  shows "strip_left rs n s = s"
proof -
  have "list_all (\<lambda>r. r \<noteq> [] \<and> \<not> (33 \<le> (of_char (hd r) :: nat) \<and> (of_char (hd r) :: nat) \<le> 126)) rs"
    using assms(4) by (auto simp: space_runes_def utf8_encode_def upt_rec)
  then have "\<not> (r \<noteq> [] \<and> HasPrefix s r)" if "r \<in> set rs" for r
    using that assms(1,2,3) by (cases r; cases s) (auto simp: list_all_iff HasPrefix_def)
  then have "find (\<lambda>r. r \<noteq> [] \<and> HasPrefix s r) rs = None" by (simp add: find_None_iff)
  then show ?thesis by (cases n) auto
qed

lemma TrimSpace_graphic:
  assumes "s \<noteq> []" "33 \<le> (of_char (hd s) :: nat)" "(of_char (hd s) :: nat) \<le> 126" "33 \<le> (of_char (last s) :: nat)" "(of_char (last s) :: nat) \<le> 126"
  shows "TrimSpace s = s"
  using assms graphic_prefix [of s space_runes "length s"] graphic_prefix [of "rev s" "map rev space_runes" "length s"]
  by (simp add: TrimSpace_def hd_rev)

end
