(* ===== verification/Config.thy ===== *)
theory Config
  imports RaftNode GoStrings
begin

section \<open>Configuration (internal/config, backend.Config, the command-line overlay)\<close>

text \<open>
  The configuration structs, \<open>Validate\<close>, the layering of \<^verbatim>\<open>Load\<close> and the flag overlays. The
  defaults, YAML and environment decoders are third-party libraries and arguments of \<open>Load\<close>. A
  sequence of guarded early returns is \<open>first_error\<close> of the guards in source order.
\<close>

subsection \<open>Structs\<close>

record VaultConfig =
  vcAddress :: string
  vcTokenFile :: string
  vcMount :: string
  vcBindingMount :: string
  vcKeyName :: string
  vcKeyVersion :: int
  vcNamespace :: string
  vcTLSCACert :: string
  vcClaimTokenFile :: string

record GCPKMSConfig =
  gcKeyVersion :: string
  gcCredentialsFile :: string
  gcClaimCredentialsFile :: string
  gcTimeout :: int

record AWSKMSConfig =
  acKeyID :: string
  acRegion :: string
  acClaimRoleARN :: string
  assumeRoleARN :: string
  acTimeout :: int

record PKCS11Config =
  pcModule :: string
  pcTokenLabel :: string
  pcSlot :: "nat option"
  pcKeyLabel :: string
  pcKeyID :: string
  pcPINFile :: string
  pcBindingFile :: string

record BackendConfig =
  bType :: string
  bSoftwareKeyFile :: string
  bSoftwareBindingFile :: string
  bVault :: VaultConfig
  bGCPKMS :: GCPKMSConfig
  bAWSKMS :: AWSKMSConfig
  bPKCS11 :: PKCS11Config

record RaftSection =
  rsNodeID :: string
  rsBindAddr :: string
  rsAdvertise :: string
  rsDataDir :: string
  rsBootstrap :: bool
  rsSingleNode :: bool
  rsMembers :: "Member list"
  rsInsecure :: bool
  rsTLSCert :: string
  rsTLSKey :: string
  rsTLSCA :: string

record Config =
  ChainID :: string
  ExpectedPublicKey :: string
  NodeAddrs :: "string list"
  NodeService :: string
  ConnKey :: string
  StateDir :: string
  LogLevel :: string
  ClaimIfUnclaimed :: bool
  HTTPAddr :: string
  ReconcileInterval :: int
  TimeoutReadWrite :: int
  RetryWait :: int
  StaleConnTimeout :: int
  Backend :: BackendConfig
  Raft :: RaftSection

definition TypeSoftware :: string where "TypeSoftware = ''software''"
definition TypeVault :: string where "TypeVault = ''vault''"
definition TypeGCPKMS :: string where "TypeGCPKMS = ''gcpkms''"
definition TypeAWSKMS :: string where "TypeAWSKMS = ''awskms''"
definition TypePKCS11 :: string where "TypePKCS11 = ''pkcs11''"

lemmas backend_types = TypeSoftware_def TypeVault_def TypeGCPKMS_def TypeAWSKMS_def TypePKCS11_def

subsection \<open>Guards\<close>

definition check :: "bool \<Rightarrow> string \<Rightarrow> go_error option" where
  "check bad msg = (if bad then Some (errors_New msg) else None)"

fun first_error :: "go_error option list \<Rightarrow> go_error option" where
  "first_error [] = None"
| "first_error (Some e # es) = Some e"
| "first_error (None # es) = first_error es"

lemma first_error_None [simp]: "first_error es = None \<longleftrightarrow> (\<forall>e\<in>set es. e = None)"
  by (induction es rule: first_error.induct) auto

lemma check_None [simp]: "check bad msg = None \<longleftrightarrow> \<not> bad"
  by (simp add: check_def)

subsection \<open>Vault addressing (vault_binding.go)\<close>

definition ambiguous :: "string \<Rightarrow> bool" where
  "ambiguous c \<longleftrightarrow> c = [] \<or> c = ''.'' \<or> c = ''..'' \<or> TrimSpace c \<noteq> c"

definition normalizeVaultMount :: "string \<Rightarrow> string result" where
  "normalizeVaultMount value0 =
     (let value = Trim (CHR ''/'') value0 in
      if value = [] then Inl (errors_New ''vault mount is required'')
      else if list_ex ambiguous (Split (CHR ''/'') value)
      then Inl (errors_New ''vault mount contains an ambiguous path component'')
      else Inr value)"

definition normalizeVaultKeyName :: "string \<Rightarrow> string result" where
  "normalizeVaultKeyName value =
     (if value = [] then Inl (errors_New ''vault backend requires a key name'')
      else if CHR ''/'' \<in> set value \<or> value = ''.'' \<or> value = ''..'' \<or> TrimSpace value \<noteq> value
      then Inl (errors_New ''vault key name contains an ambiguous path component'')
      else Inr value)"

definition result_error :: "'a result \<Rightarrow> go_error option" where
  "result_error r = (case r of Inl e \<Rightarrow> Some e | Inr _ \<Rightarrow> None)"

definition ValidateVaultAddressing :: "string \<Rightarrow> string \<Rightarrow> string \<Rightarrow> go_error option" where
  "ValidateVaultAddressing transitMount bindingMount keyName =
     first_error [result_error (normalizeVaultMount transitMount), result_error (normalizeVaultMount bindingMount),
                  result_error (normalizeVaultKeyName keyName)]"

subsection \<open>PKCS#11 selectors (pkcs11.go)\<close>

definition ValidatePKCS11Config :: "PKCS11Config \<Rightarrow> go_error option" where
  "ValidatePKCS11Config cfg =
     first_error
       [check (pcModule cfg = []) ''pkcs11 backend requires backend.pkcs11.module'',
        check (pcPINFile cfg = []) ''pkcs11 backend requires backend.pkcs11.pin_file'',
        check (pcBindingFile cfg = []) ''pkcs11 backend requires backend.pkcs11.binding_file'',
        check ((pcTokenLabel cfg = []) = (pcSlot cfg = None)) ''pkcs11 backend requires exactly one of token_label or slot'',
        check (pcKeyLabel cfg = [] \<and> pcKeyID cfg = []) ''pkcs11 backend requires key_label or key_id'',
        check (pcKeyID cfg \<noteq> [] \<and> hex_decode (pcKeyID cfg) = None) ''pkcs11 key_id must be hexadecimal'']"

subsection \<open>Config.Validate\<close>

definition validate_backend :: "BackendConfig \<Rightarrow> go_error option" where
  "validate_backend b =
     (if bType b = TypeSoftware \<or> bType b = [] then
        check (bSoftwareKeyFile b = []) ''software backend requires backend.key_file''
      else if bType b = TypeVault then
        first_error
          [check (vcKeyName (bVault b) = []) ''vault backend requires backend.vault.key_name'',
           check (vcTokenFile (bVault b) = []) ''vault backend requires backend.vault.token_file'',
           check (vcKeyVersion (bVault b) < 0) ''vault backend key version must be zero or greater'',
           ValidateVaultAddressing (vcMount (bVault b)) (vcBindingMount (bVault b)) (vcKeyName (bVault b))]
      else if bType b = TypeAWSKMS then check (acKeyID (bAWSKMS b) = []) ''awskms backend requires backend.aws.key_id''
      else if bType b = TypePKCS11 then ValidatePKCS11Config (bPKCS11 b)
      else if bType b = TypeGCPKMS then check (gcKeyVersion (bGCPKMS b) = []) ''gcpkms backend requires backend.gcp.key_version''
      else Some (errors_New ''unknown backend type''))"

definition validate_members :: "RaftSection \<Rightarrow> go_error option" where
  "validate_members r =
     (if \<not> list_all (\<lambda>m. mID m \<noteq> [] \<and> mAddress m \<noteq> []) (rsMembers r)
      then Some (errors_New ''raft member needs both id and address'')
      else check (\<not> list_ex (\<lambda>m. mID m = rsNodeID r) (rsMembers r)) ''raft.node_id is not in raft.members'')"

definition validate_raft :: "RaftSection \<Rightarrow> go_error option" where
  "validate_raft r =
     (let n = length (filter (\<lambda>f. f \<noteq> []) [rsTLSCert r, rsTLSKey r, rsTLSCA r]) in
      first_error
        [check (rsNodeID r = []) ''raft.node_id is required'',
         check (rsBindAddr r = []) ''raft.bind_addr is required'',
         check (rsDataDir r = []) ''raft.data_dir is required'',
         check (rsBootstrap r \<and> rsMembers r = [] \<and> \<not> rsSingleNode r)
           ''raft.bootstrap with empty raft.members requires explicit raft.single_node: true (--raft-single-node)'',
         (if rsBootstrap r \<and> rsMembers r \<noteq> [] then validate_members r else None),
         check (n \<noteq> 0 \<and> n \<noteq> 3) ''raft TLS requires raft.tls_cert, raft.tls_key and raft.tls_ca together'',
         check (rsInsecure r \<and> n \<noteq> 0) ''raft transport cannot enable both mTLS and raft.insecure'',
         check (n = 0 \<and> \<not> rsInsecure r) ''raft transport requires mTLS or explicit insecure opt-out''])"

definition Config_Validate :: "Config \<Rightarrow> go_error option" where
  "Config_Validate c =
     first_error
       [check (ChainID c = []) ''chain_id is required'',
        check (NodeAddrs c = [] \<and> NodeService c = []) ''set either nodes (static list) or node_service (headless service)'',
        check (NodeAddrs c \<noteq> [] \<and> NodeService c \<noteq> []) ''nodes and node_service are mutually exclusive'',
        validate_backend (Backend c),
        check (\<not> ClaimIfUnclaimed c \<and> (vcClaimTokenFile (bVault (Backend c)) \<noteq> [] \<or>
               gcClaimCredentialsFile (bGCPKMS (Backend c)) \<noteq> []))
          ''claim credentials are only used with claim_if_unclaimed: true (--claim-if-unclaimed)'',
        check (vcClaimTokenFile (bVault (Backend c)) \<noteq> [] \<and> bType (Backend c) \<noteq> TypeVault)
          ''backend.vault.claim_token_file requires the vault backend'',
        check (gcClaimCredentialsFile (bGCPKMS (Backend c)) \<noteq> [] \<and> bType (Backend c) \<noteq> TypeGCPKMS)
          ''backend.gcp.claim_credentials_file requires the gcpkms backend'',
        validate_raft (Raft c)]"

subsection \<open>Defaults\<close>

text \<open>The \<^verbatim>\<open>default\<close> tags of the configuration structs; every other field is its zero value.\<close>

definition Defaults :: Config where
  "Defaults =
     \<lparr>ChainID = [], ExpectedPublicKey = [], NodeAddrs = [], NodeService = [], ConnKey = ''./data/conn_key.json'',
      StateDir = ''./data'', LogLevel = ''info'', ClaimIfUnclaimed = False, HTTPAddr = [], ReconcileInterval = 5000000000,
      TimeoutReadWrite = 3000000000, RetryWait = 100000000, StaleConnTimeout = 15000000000,
      Backend = \<lparr>bType = TypeSoftware, bSoftwareKeyFile = [], bSoftwareBindingFile = [],
        bVault = \<lparr>vcAddress = [], vcTokenFile = [], vcMount = ''transit'', vcBindingMount = ''cosmosigner'', vcKeyName = [],
          vcKeyVersion = 0, vcNamespace = [], vcTLSCACert = [], vcClaimTokenFile = []\<rparr>,
        bGCPKMS = \<lparr>gcKeyVersion = [], gcCredentialsFile = [], gcClaimCredentialsFile = [], gcTimeout = 10000000000\<rparr>,
        bAWSKMS = \<lparr>acKeyID = [], acRegion = [], acClaimRoleARN = [], assumeRoleARN = [], acTimeout = 10000000000\<rparr>,
        bPKCS11 = \<lparr>pcModule = [], pcTokenLabel = [], pcSlot = None, pcKeyLabel = [], pcKeyID = [], pcPINFile = [],
          pcBindingFile = []\<rparr>\<rparr>,
      Raft = \<lparr>rsNodeID = ''node-1'', rsBindAddr = ''127.0.0.1:7070'', rsAdvertise = [], rsDataDir = ''./data/raft'',
        rsBootstrap = False, rsSingleNode = False, rsMembers = [], rsInsecure = False, rsTLSCert = [], rsTLSKey = [],
        rsTLSCA = []\<rparr>\<rparr>"

text \<open>The chain, the nodes, the key file and the transport are what has to be set, and are enough; in
  particular plain TCP between the replicas is never a default.\<close>

lemma defaults_complete:
  assumes "chain \<noteq> []" "nodes \<noteq> []" "key \<noteq> []"
  shows "Config_Validate (Defaults\<lparr>ChainID := chain, NodeAddrs := nodes,
      Backend := (Backend Defaults)\<lparr>bSoftwareKeyFile := key\<rparr>,
      Raft := (Raft Defaults)\<lparr>rsInsecure := insecure, rsTLSCert := cert, rsTLSKey := tkey, rsTLSCA := ca\<rparr>\<rparr>) = None \<longleftrightarrow>
    (if insecure then cert = [] \<and> tkey = [] \<and> ca = [] else cert \<noteq> [] \<and> tkey \<noteq> [] \<and> ca \<noteq> [])"
  using assms
  by (simp add: Config_Validate_def Defaults_def validate_backend_def validate_raft_def validate_members_def backend_types Let_def)

subsection \<open>Loading\<close>

text \<open>The YAML decoder sees the file once for the struct and once more for the end of the input.\<close>

datatype yaml_rest = YamlEOF | YamlMore | YamlError go_error

definition loadYAML ::
  "(string \<Rightarrow> bytes result) \<Rightarrow> (bytes \<Rightarrow> Config \<Rightarrow> (Config \<times> yaml_rest) result) \<Rightarrow> string \<Rightarrow> Config \<Rightarrow> Config result" where
  "loadYAML readfile decode path c =
     (case readfile path of
        Inl e \<Rightarrow> Inl (Errorf ''read config'' [e])
      | Inr data \<Rightarrow>
       (case decode data c of
          Inl e \<Rightarrow> Inl (Errorf ''parse config'' [e])
        | Inr (c', YamlEOF) \<Rightarrow> Inr c'
        | Inr (c', YamlError e) \<Rightarrow> Inl (Errorf ''parse config'' [e])
        | Inr (c', YamlMore) \<Rightarrow> Inl (errors_New ''parse config: multiple YAML documents are not allowed'')))"

record config_sources =
  set_defaults :: "Config result"
  read_file :: "string \<Rightarrow> bytes result"
  decode_yaml :: "bytes \<Rightarrow> Config \<Rightarrow> (Config \<times> yaml_rest) result"
  parse_env :: "Config \<Rightarrow> Config result"

definition Load :: "config_sources \<Rightarrow> string \<Rightarrow> (Config \<Rightarrow> Config result) option \<Rightarrow> Config result" where
  "Load src path overlay =
     (case set_defaults src of
        Inl e \<Rightarrow> Inl (Errorf ''apply defaults'' [e])
      | Inr c0 \<Rightarrow>
     (case (if path \<noteq> [] then loadYAML (read_file src) (decode_yaml src) path c0 else Inr c0) of
        Inl e \<Rightarrow> Inl e
      | Inr c1 \<Rightarrow>
     (case parse_env src c1 of
        Inl e \<Rightarrow> Inl (Errorf ''parse environment'' [e])
      | Inr c2 \<Rightarrow>
     (case (case overlay of None \<Rightarrow> Inr c2 | Some ov \<Rightarrow> ov c2) of
        Inl e \<Rightarrow> Inl e
      | Inr c3 \<Rightarrow> (case Config_Validate c3 of Some e \<Rightarrow> Inl e | None \<Rightarrow> Inr c3)))))"

definition LoadBackend ::
  "BackendConfig result \<Rightarrow> (BackendConfig \<Rightarrow> BackendConfig result) \<Rightarrow> (BackendConfig \<Rightarrow> BackendConfig) option \<Rightarrow>
   BackendConfig result" where
  "LoadBackend defaults env overlay =
     (case defaults of
        Inl e \<Rightarrow> Inl (Errorf ''apply defaults'' [e])
      | Inr c0 \<Rightarrow>
     (case env c0 of
        Inl e \<Rightarrow> Inl (Errorf ''parse environment'' [e])
      | Inr c1 \<Rightarrow> Inr (case overlay of None \<Rightarrow> c1 | Some ov \<Rightarrow> ov c1)))"

subsection \<open>Command-line overlays (start.go, backendflags.go)\<close>

text \<open>The flags the user set, with their values; an absent name is an unchanged flag.\<close>

datatype flag_value = FString string | FStrings "string list" | FBool bool | FInt int

type_synonym flags = "string \<rightharpoonup> flag_value"

definition on_string :: "flags \<Rightarrow> string \<Rightarrow> (string \<Rightarrow> 'c \<Rightarrow> 'c) \<Rightarrow> 'c \<Rightarrow> 'c" where
  "on_string f name put c = (case f name of Some (FString v) \<Rightarrow> put v c | _ \<Rightarrow> c)"

definition on_bool :: "flags \<Rightarrow> string \<Rightarrow> (bool \<Rightarrow> 'c \<Rightarrow> 'c) \<Rightarrow> 'c \<Rightarrow> 'c" where
  "on_bool f name put c = (case f name of Some (FBool v) \<Rightarrow> put v c | _ \<Rightarrow> c)"

definition on_int :: "flags \<Rightarrow> string \<Rightarrow> (int \<Rightarrow> 'c \<Rightarrow> 'c) \<Rightarrow> 'c \<Rightarrow> 'c" where
  "on_int f name put c = (case f name of Some (FInt v) \<Rightarrow> put v c | _ \<Rightarrow> c)"

definition set_vault :: "(VaultConfig \<Rightarrow> VaultConfig) \<Rightarrow> BackendConfig \<Rightarrow> BackendConfig" where
  "set_vault u b = b\<lparr>bVault := u (bVault b)\<rparr>"

definition set_gcp :: "(GCPKMSConfig \<Rightarrow> GCPKMSConfig) \<Rightarrow> BackendConfig \<Rightarrow> BackendConfig" where
  "set_gcp u b = b\<lparr>bGCPKMS := u (bGCPKMS b)\<rparr>"

definition set_aws :: "(AWSKMSConfig \<Rightarrow> AWSKMSConfig) \<Rightarrow> BackendConfig \<Rightarrow> BackendConfig" where
  "set_aws u b = b\<lparr>bAWSKMS := u (bAWSKMS b)\<rparr>"

definition set_p11 :: "(PKCS11Config \<Rightarrow> PKCS11Config) \<Rightarrow> BackendConfig \<Rightarrow> BackendConfig" where
  "set_p11 u b = b\<lparr>bPKCS11 := u (bPKCS11 b)\<rparr>"

definition overlay_pkcs11_selector :: "flags \<Rightarrow> BackendConfig \<Rightarrow> BackendConfig" where
  "overlay_pkcs11_selector f b =
     (let slot = f ''pkcs11-slot''; label = f ''pkcs11-token-label'';
          b1 = on_int f ''pkcs11-slot'' (\<lambda>v. set_p11 (pcSlot_update (\<lambda>_. Some (nat v)))) b;
          b2 = (if slot \<noteq> None \<and> label = None then set_p11 (pcTokenLabel_update (\<lambda>_. [])) b1 else b1)
      in if label \<noteq> None \<and> slot = None then set_p11 (pcSlot_update (\<lambda>_. None)) b2 else b2)"

definition overlayBackendFlags :: "flags \<Rightarrow> BackendConfig \<Rightarrow> BackendConfig" where
  "overlayBackendFlags f =
     overlay_pkcs11_selector f \<circ>
     on_string f ''pkcs11-binding-file'' (\<lambda>v. set_p11 (pcBindingFile_update (\<lambda>_. v))) \<circ>
     on_string f ''pkcs11-pin-file'' (\<lambda>v. set_p11 (pcPINFile_update (\<lambda>_. v))) \<circ>
     on_string f ''pkcs11-key-id'' (\<lambda>v. set_p11 (pcKeyID_update (\<lambda>_. v))) \<circ>
     on_string f ''pkcs11-key-label'' (\<lambda>v. set_p11 (pcKeyLabel_update (\<lambda>_. v))) \<circ>
     on_string f ''pkcs11-token-label'' (\<lambda>v. set_p11 (pcTokenLabel_update (\<lambda>_. v))) \<circ>
     on_string f ''pkcs11-module'' (\<lambda>v. set_p11 (pcModule_update (\<lambda>_. v))) \<circ>
     on_string f ''gcp-credentials-file'' (\<lambda>v. set_gcp (gcCredentialsFile_update (\<lambda>_. v))) \<circ>
     on_string f ''gcp-key-version'' (\<lambda>v. set_gcp (gcKeyVersion_update (\<lambda>_. v))) \<circ>
     on_string f ''aws-region'' (\<lambda>v. set_aws (acRegion_update (\<lambda>_. v))) \<circ>
     on_string f ''aws-key-id'' (\<lambda>v. set_aws (acKeyID_update (\<lambda>_. v))) \<circ>
     on_string f ''vault-ca-cert'' (\<lambda>v. set_vault (vcTLSCACert_update (\<lambda>_. v))) \<circ>
     on_string f ''vault-namespace'' (\<lambda>v. set_vault (vcNamespace_update (\<lambda>_. v))) \<circ>
     on_int f ''vault-key-version'' (\<lambda>v. set_vault (vcKeyVersion_update (\<lambda>_. v))) \<circ>
     on_string f ''vault-key'' (\<lambda>v. set_vault (vcKeyName_update (\<lambda>_. v))) \<circ>
     on_string f ''vault-binding-mount'' (\<lambda>v. set_vault (vcBindingMount_update (\<lambda>_. v))) \<circ>
     on_string f ''vault-mount'' (\<lambda>v. set_vault (vcMount_update (\<lambda>_. v))) \<circ>
     on_string f ''vault-token-file'' (\<lambda>v. set_vault (vcTokenFile_update (\<lambda>_. v))) \<circ>
     on_string f ''vault-addr'' (\<lambda>v. set_vault (vcAddress_update (\<lambda>_. v))) \<circ>
     on_string f ''binding-file'' (\<lambda>v. bSoftwareBindingFile_update (\<lambda>_. v)) \<circ>
     on_string f ''key-file'' (\<lambda>v. bSoftwareKeyFile_update (\<lambda>_. v)) \<circ>
     on_string f ''backend'' (\<lambda>v. bType_update (\<lambda>_. v))"

fun parseMembers :: "string list \<Rightarrow> Member list result" where
  "parseMembers [] = Inr []"
| "parseMembers (m # ms) =
     (let (i, a, ok) = Cut (CHR ''='') (TrimSpace m); i' = TrimSpace i; a' = TrimSpace a in
      if \<not> ok \<or> i' = [] \<or> a' = [] then Inl (errors_New ''invalid --raft-member: want id=address'')
      else (case parseMembers ms of Inl e \<Rightarrow> Inl e | Inr r \<Rightarrow> Inr (\<lparr>mID = i', mAddress = a'\<rparr> # r)))"

definition set_raft :: "(RaftSection \<Rightarrow> RaftSection) \<Rightarrow> Config \<Rightarrow> Config" where
  "set_raft u c = c\<lparr>Raft := u (Raft c)\<rparr>"

definition set_backend :: "(BackendConfig \<Rightarrow> BackendConfig) \<Rightarrow> Config \<Rightarrow> Config" where
  "set_backend u c = c\<lparr>Backend := u (Backend c)\<rparr>"

definition overlay_before_members :: "flags \<Rightarrow> Config \<Rightarrow> Config" where
  "overlay_before_members f =
     on_bool f ''raft-single-node'' (\<lambda>v. set_raft (rsSingleNode_update (\<lambda>_. v))) \<circ>
     on_bool f ''raft-bootstrap'' (\<lambda>v. set_raft (rsBootstrap_update (\<lambda>_. v))) \<circ>
     on_string f ''raft-data-dir'' (\<lambda>v. set_raft (rsDataDir_update (\<lambda>_. v))) \<circ>
     on_string f ''raft-advertise'' (\<lambda>v. set_raft (rsAdvertise_update (\<lambda>_. v))) \<circ>
     on_string f ''raft-bind'' (\<lambda>v. set_raft (rsBindAddr_update (\<lambda>_. v))) \<circ>
     on_string f ''raft-node-id'' (\<lambda>v. set_raft (rsNodeID_update (\<lambda>_. v))) \<circ>
     on_string f ''log-level'' (\<lambda>v. LogLevel_update (\<lambda>_. v)) \<circ>
     on_int f ''stale-conn-timeout'' (\<lambda>v. StaleConnTimeout_update (\<lambda>_. v)) \<circ>
     on_int f ''reconcile-interval'' (\<lambda>v. ReconcileInterval_update (\<lambda>_. v)) \<circ>
     on_string f ''http-addr'' (\<lambda>v. HTTPAddr_update (\<lambda>_. v)) \<circ>
     on_string f ''state-dir'' (\<lambda>v. StateDir_update (\<lambda>_. v)) \<circ>
     on_string f ''conn-key'' (\<lambda>v. ConnKey_update (\<lambda>_. v)) \<circ>
     on_string f ''node-service'' (\<lambda>v. NodeService_update (\<lambda>_. v)) \<circ>
     (\<lambda>c. case f ''node'' of Some (FStrings xs) \<Rightarrow> c\<lparr>NodeAddrs := xs\<rparr> | _ \<Rightarrow> c) \<circ>
     on_string f ''expected-public-key'' (\<lambda>v. ExpectedPublicKey_update (\<lambda>_. v)) \<circ>
     on_string f ''chain-id'' (\<lambda>v. ChainID_update (\<lambda>_. v))"

definition overlay_after_members :: "flags \<Rightarrow> Config \<Rightarrow> Config" where
  "overlay_after_members f =
     set_backend (overlayBackendFlags f) \<circ>
     on_string f ''aws-claim-role-arn'' (\<lambda>v. set_backend (set_aws (acClaimRoleARN_update (\<lambda>_. v)))) \<circ>
     on_string f ''gcp-claim-credentials-file'' (\<lambda>v. set_backend (set_gcp (gcClaimCredentialsFile_update (\<lambda>_. v)))) \<circ>
     on_string f ''vault-claim-token-file'' (\<lambda>v. set_backend (set_vault (vcClaimTokenFile_update (\<lambda>_. v)))) \<circ>
     on_bool f ''claim-if-unclaimed'' (\<lambda>v. ClaimIfUnclaimed_update (\<lambda>_. v)) \<circ>
     on_string f ''raft-tls-ca'' (\<lambda>v. set_raft (rsTLSCA_update (\<lambda>_. v))) \<circ>
     on_string f ''raft-tls-key'' (\<lambda>v. set_raft (rsTLSKey_update (\<lambda>_. v))) \<circ>
     on_string f ''raft-tls-cert'' (\<lambda>v. set_raft (rsTLSCert_update (\<lambda>_. v))) \<circ>
     on_bool f ''raft-insecure'' (\<lambda>v. set_raft (rsInsecure_update (\<lambda>_. v)))"

definition overlayStartFlags :: "flags \<Rightarrow> Config \<Rightarrow> Config result" where
  "overlayStartFlags f c =
     (let c1 = overlay_before_members f c in
      case f ''raft-member'' of
        Some (FStrings raw) \<Rightarrow>
          (case parseMembers raw of
             Inl e \<Rightarrow> Inl e
           | Inr ms \<Rightarrow> Inr (overlay_after_members f (set_raft (rsMembers_update (\<lambda>_. ms)) c1)))
      | _ \<Rightarrow> Inr (overlay_after_members f c1))"
subsection \<open>The raft configuration of a validated configuration (start.go)\<close>

definition start_raft_config :: "Config \<Rightarrow> RaftConfig" where
  "start_raft_config c =
     \<lparr>rNodeID = rsNodeID (Raft c), rBindAddr = rsBindAddr (Raft c), rAdvertise = rsAdvertise (Raft c),
      rDataDir = rsDataDir (Raft c), rBootstrap = rsBootstrap (Raft c), rSingleNode = rsSingleNode (Raft c),
      rInsecure = rsInsecure (Raft c), rMembers = map (\<lambda>m. \<lparr>mID = mID m, mAddress = mAddress m\<rparr>) (rsMembers (Raft c)),
      rApplyTimeout = 0,
      rTLS = \<lparr>CertFile = rsTLSCert (Raft c), KeyFile = rsTLSKey (Raft c), CAFile = rsTLSCA (Raft c)\<rparr>\<rparr>"

lemma validate_raftD:
  assumes "validate_raft r = None"
  shows "rsNodeID r \<noteq> []" "rsBindAddr r \<noteq> []" "rsDataDir r \<noteq> []"
    "rsBootstrap r \<Longrightarrow> rsMembers r = [] \<Longrightarrow> rsSingleNode r"
    "rsBootstrap r \<Longrightarrow> rsMembers r \<noteq> [] \<Longrightarrow> validate_members r = None"
    "rsInsecure r \<longleftrightarrow> \<not> (rsTLSCert r \<noteq> [] \<and> rsTLSKey r \<noteq> [] \<and> rsTLSCA r \<noteq> [])"
    "rsInsecure r \<longleftrightarrow> rsTLSCert r = [] \<and> rsTLSKey r = [] \<and> rsTLSCA r = []"
  using assms by (auto simp: validate_raft_def Let_def split: if_splits)

lemma Config_ValidateD:
  assumes "Config_Validate c = None"
  shows "ChainID c \<noteq> []" "(NodeAddrs c \<noteq> []) \<noteq> (NodeService c \<noteq> [])" "validate_backend (Backend c) = None"
    "validate_raft (Raft c) = None"
  using assms by (auto simp: Config_Validate_def)

lemma Load_validated: "Load src path ov = Inr c \<Longrightarrow> Config_Validate c = None"
  by (auto simp: Load_def split: sum.splits option.splits if_splits)

text \<open>
  C20: whatever the defaults, the YAML file, the environment and the flags say, a configuration that
  Load returns passes the checks the raft store repeats at construction: exactly one of mutual TLS
  and the explicit insecure opt-out is chosen, so the transport check accepts it, and when it asks
  for bootstrap the initial server list can be built for every local address and contains this
  node. It also names exactly one source of nodes.
\<close>
theorem loaded_config_boots:
  assumes "Load src path ov = Inr c"
  shows "check_transport (start_raft_config c) = None \<and>
    TLS_Enabled (rTLS (start_raft_config c)) \<noteq> rInsecure (start_raft_config c) \<and>
    (rBootstrap (start_raft_config c) \<longrightarrow>
       (\<forall>addr. \<exists>servers. bootstrapServers (start_raft_config c) (rNodeID (start_raft_config c)) addr = Inr servers \<and>
          rNodeID (start_raft_config c) \<in> fst ` set servers)) \<and>
    (NodeAddrs c \<noteq> []) \<noteq> (NodeService c \<noteq> [])"
proof -
  note v = Config_ValidateD [OF Load_validated [OF assms]] and r = validate_raftD [OF Config_ValidateD(4) [OF Load_validated [OF assms]]]
  have t: "check_transport (start_raft_config c) = None"
    using r(6,7) by (auto simp: check_transport_def tls_files_def start_raft_config_def Let_def)
  have e: "TLS_Enabled (rTLS (start_raft_config c)) \<noteq> rInsecure (start_raft_config c)"
    using r(6) by (simp add: TLS_Enabled_def start_raft_config_def)
  have b: "\<exists>servers. bootstrapServers (start_raft_config c) (rNodeID (start_raft_config c)) addr = Inr servers \<and>
      rNodeID (start_raft_config c) \<in> fst ` set servers" if "rBootstrap (start_raft_config c)" for addr
  proof (cases "rsMembers (Raft c) = []")
    case True
    with that r(4) show ?thesis by (auto simp: start_raft_config_def bootstrapServers_ok)
  next
    case False
    with that r(5) have "validate_members (Raft c) = None" by (simp add: start_raft_config_def)
    then show ?thesis using False
      by (force simp: validate_members_def bootstrapServers_ok start_raft_config_def list.pred_map comp_def list_ex_iff split: if_splits)
  qed
  show ?thesis using t e b v(2) by blast
qed

definition ex_backend_config :: BackendConfig where
  "ex_backend_config =
     \<lparr>bType = TypeSoftware, bSoftwareKeyFile = ''key.json'', bSoftwareBindingFile = [],
      bVault = \<lparr>vcAddress = [], vcTokenFile = [], vcMount = ''transit'', vcBindingMount = ''secret'', vcKeyName = [],
        vcKeyVersion = 0, vcNamespace = [], vcTLSCACert = [], vcClaimTokenFile = []\<rparr>,
      bGCPKMS = \<lparr>gcKeyVersion = [], gcCredentialsFile = [], gcClaimCredentialsFile = [], gcTimeout = 0\<rparr>,
      bAWSKMS = \<lparr>acKeyID = [], acRegion = [], acClaimRoleARN = [], assumeRoleARN = [], acTimeout = 0\<rparr>,
      bPKCS11 = \<lparr>pcModule = [], pcTokenLabel = [], pcSlot = None, pcKeyLabel = [], pcKeyID = [], pcPINFile = [],
        pcBindingFile = []\<rparr>\<rparr>"

definition ex_config :: Config where
  "ex_config =
     \<lparr>ChainID = ''chain-1'', ExpectedPublicKey = [], NodeAddrs = [''127.0.0.1:5555''], NodeService = [], ConnKey = ''conn.json'',
      StateDir = ''data'', LogLevel = ''info'', ClaimIfUnclaimed = False, HTTPAddr = [], ReconcileInterval = 5000000000,
      TimeoutReadWrite = 3000000000, RetryWait = 100000000, StaleConnTimeout = 15000000000, Backend = ex_backend_config,
      Raft = \<lparr>rsNodeID = ''n1'', rsBindAddr = ''127.0.0.1:7070'', rsAdvertise = [], rsDataDir = ''raft'', rsBootstrap = True,
        rsSingleNode = False, rsMembers = [\<lparr>mID = ''n1'', mAddress = ''127.0.0.1:7070''\<rparr>], rsInsecure = True,
        rsTLSCert = [], rsTLSKey = [], rsTLSCA = []\<rparr>\<rparr>"

definition ex_sources :: config_sources where
  "ex_sources = \<lparr>set_defaults = Inr ex_config, read_file = (\<lambda>_. Inr []), decode_yaml = (\<lambda>_ c. Inr (c, YamlEOF)),
     parse_env = (\<lambda>c. Inr c)\<rparr>"

lemma ex_config_valid: "Config_Validate ex_config = None"
  by (simp add: Config_Validate_def ex_config_def ex_backend_config_def validate_backend_def validate_raft_def
      validate_members_def backend_types Let_def)

lemma ex_loaded: "Load ex_sources [] (Some (overlayStartFlags Map.empty)) = Inr ex_config"
  by (simp add: Load_def ex_sources_def overlayStartFlags_def overlay_before_members_def overlay_after_members_def
      overlayBackendFlags_def overlay_pkcs11_selector_def on_string_def on_bool_def on_int_def set_backend_def
      ex_config_valid)

theorem loaded_config_boots_witness:
  "\<exists>servers. bootstrapServers (start_raft_config ex_config) ''n1'' ''127.0.0.1:7070'' = Inr servers"
proof -
  have "rBootstrap (start_raft_config ex_config)" "rNodeID (start_raft_config ex_config) = ''n1''"
    by (simp_all add: start_raft_config_def ex_config_def)
  then show ?thesis using loaded_config_boots [OF ex_loaded] by metis
qed

lemma overlay_p11_frame:
  "bPKCS11 (on_string f n (\<lambda>v. set_vault (u v)) b) = bPKCS11 b"
  "bPKCS11 (on_int f n (\<lambda>i. set_vault (w i)) b) = bPKCS11 b"
  "bPKCS11 (on_string f n (\<lambda>v. set_gcp (g v)) b) = bPKCS11 b"
  "bPKCS11 (on_string f n (\<lambda>v. set_aws (a v)) b) = bPKCS11 b"
  "bPKCS11 (on_string f n (\<lambda>v. bType_update (t v)) b) = bPKCS11 b"
  "bPKCS11 (on_string f n (\<lambda>v. bSoftwareKeyFile_update (t v)) b) = bPKCS11 b"
  "bPKCS11 (on_string f n (\<lambda>v. bSoftwareBindingFile_update (t v)) b) = bPKCS11 b"
  by (simp_all add: on_string_def on_int_def set_vault_def set_gcp_def set_aws_def split: option.split flag_value.split)

lemma overlay_selector_frame:
  assumes "\<And>v p. pcSlot (u v p) = pcSlot p"
  shows "pcSlot (bPKCS11 (on_string f n (\<lambda>v. set_p11 (u v)) b)) = pcSlot (bPKCS11 b)"
  using assms by (simp add: on_string_def set_p11_def split: option.split flag_value.split)

lemma overlay_label_frame:
  assumes "\<And>v p. pcTokenLabel (u v p) = pcTokenLabel p"
  shows "pcTokenLabel (bPKCS11 (on_string f n (\<lambda>v. set_p11 (u v)) b)) = pcTokenLabel (bPKCS11 b)"
  using assms by (simp add: on_string_def set_p11_def split: option.split flag_value.split)

lemma overlay_label_value:
  "pcTokenLabel (bPKCS11 (on_string f n (\<lambda>v. set_p11 (pcTokenLabel_update (\<lambda>_. v))) b)) =
     (case f n of Some (FString v) \<Rightarrow> v | _ \<Rightarrow> pcTokenLabel (bPKCS11 b))"
  by (simp add: on_string_def set_p11_def split: option.split flag_value.split)

lemma overlay_selector_slot:
  "pcSlot (bPKCS11 (overlay_pkcs11_selector f b)) =
     (case f ''pkcs11-slot'' of Some (FInt n) \<Rightarrow> Some (nat n)
      | Some _ \<Rightarrow> pcSlot (bPKCS11 b)
      | None \<Rightarrow> if f ''pkcs11-token-label'' \<noteq> None then None else pcSlot (bPKCS11 b))"
  by (simp add: overlay_pkcs11_selector_def Let_def on_int_def set_p11_def split: option.split flag_value.split)

lemma overlay_selector_label:
  "pcTokenLabel (bPKCS11 (overlay_pkcs11_selector f b)) =
     (if f ''pkcs11-slot'' \<noteq> None \<and> f ''pkcs11-token-label'' = None then [] else pcTokenLabel (bPKCS11 b))"
  by (simp add: overlay_pkcs11_selector_def Let_def on_int_def set_p11_def split: option.split flag_value.split)

lemma overlayBackendFlags_slot:
  "pcSlot (bPKCS11 (overlayBackendFlags f b)) =
     (case f ''pkcs11-slot'' of Some (FInt n) \<Rightarrow> Some (nat n)
      | Some _ \<Rightarrow> pcSlot (bPKCS11 b)
      | None \<Rightarrow> if f ''pkcs11-token-label'' \<noteq> None then None else pcSlot (bPKCS11 b))"
  by (simp add: overlayBackendFlags_def overlay_selector_slot overlay_selector_frame overlay_p11_frame cong: option.case_cong flag_value.case_cong)

lemma overlayBackendFlags_label:
  "pcTokenLabel (bPKCS11 (overlayBackendFlags f b)) =
     (if f ''pkcs11-slot'' \<noteq> None \<and> f ''pkcs11-token-label'' = None then []
      else case f ''pkcs11-token-label'' of Some (FString v) \<Rightarrow> v | _ \<Rightarrow> pcTokenLabel (bPKCS11 b))"
  by (simp add: overlayBackendFlags_def overlay_selector_label overlay_label_value overlay_label_frame overlay_p11_frame cong: option.case_cong flag_value.case_cong)

text \<open>
  A PKCS\#11 token selector given on the command line displaces the other one from the
  environment or the file: setting only one of slot and token label leaves only that selector, so
  the result never fails validation for having both, and without either flag both selectors keep
  their configured values.
\<close>
theorem pkcs11_selector_displaces:
  "(\<forall>f b n. f ''pkcs11-slot'' = Some (FInt n) \<and> f ''pkcs11-token-label'' = None \<longrightarrow>
      pcSlot (bPKCS11 (overlayBackendFlags f b)) = Some (nat n) \<and> pcTokenLabel (bPKCS11 (overlayBackendFlags f b)) = []) \<and>
   (\<forall>f b l. f ''pkcs11-token-label'' = Some (FString l) \<and> f ''pkcs11-slot'' = None \<longrightarrow>
      pcSlot (bPKCS11 (overlayBackendFlags f b)) = None \<and> pcTokenLabel (bPKCS11 (overlayBackendFlags f b)) = l) \<and>
   (\<forall>f b. f ''pkcs11-token-label'' = None \<and> f ''pkcs11-slot'' = None \<longrightarrow>
      pcSlot (bPKCS11 (overlayBackendFlags f b)) = pcSlot (bPKCS11 b) \<and>
      pcTokenLabel (bPKCS11 (overlayBackendFlags f b)) = pcTokenLabel (bPKCS11 b))"
  by (simp add: overlayBackendFlags_slot overlayBackendFlags_label)

theorem pkcs11_selector_displaces_witness:
  "pcSlot (bPKCS11 (overlayBackendFlags [''pkcs11-slot'' \<mapsto> FInt 3] ex_backend_config)) = Some 3 \<and>
   pcTokenLabel (bPKCS11 (overlayBackendFlags [''pkcs11-slot'' \<mapsto> FInt 3] ex_backend_config)) = []"
  using pkcs11_selector_displaces [THEN conjunct1, rule_format, of "[''pkcs11-slot'' \<mapsto> FInt 3]" 3 ex_backend_config] by simp

end
