(* ===== verification/Backend.thy ===== *)
theory Backend
  imports Config
begin

section \<open>The key backend interface and the cluster claim (internal/backend/backend.go)\<close>

text \<open>
  Every key resource carries at most one durable claim: the identity of the raft history that may
  sign with it. \<open>claim_registry\<close> is the contract the providers promise (the comments of
  \<^verbatim>\<open>KeyBackend\<close>): a binding read returns the owner, a claim creates it when absent and never
  reassigns it. It is interpreted on the marker file, the Vault record, the Cloud KMS labels and the
  AWS KMS tags. A provider's state is what the storage holds; \<open>'e\<close> and \<open>'f\<close> stand for what one read
  and one claim observe of their environment (faults, cancellations, other processes), restricted
  by \<open>fair_read\<close> to answers that report what is stored and by \<open>fair\<close> to environments that
  themselves keep an existing claim.
\<close>

subsection \<open>Operations\<close>

definition RequireClusterBinding :: "string result \<Rightarrow> string \<Rightarrow> go_error option" where
  "RequireClusterBinding binding cid =
     (case Validate cid of
        Some e \<Rightarrow> Some (Errorf ''invalid expected cluster ID'' [e])
      | None \<Rightarrow>
     (case binding of
        Inl e \<Rightarrow>
          if errors_is e ErrBindingUnclaimed then Some (Errorf ''cluster cannot use unclaimed key resource'' [e])
          else Some e
      | Inr actual \<Rightarrow>
          if actual \<noteq> cid then Some (Errorf ''claimed by another cluster'' [Sentinel ErrBindingMismatch])
          else None))"

definition ClaimConfig :: "BackendConfig \<Rightarrow> BackendConfig" where
  "ClaimConfig cfg0 =
     (let cfg1 = (if vcClaimTokenFile (bVault cfg0) \<noteq> []
                  then set_vault (vcTokenFile_update (\<lambda>_. vcClaimTokenFile (bVault cfg0))) cfg0 else cfg0);
          cfg2 = (if gcClaimCredentialsFile (bGCPKMS cfg1) \<noteq> []
                  then set_gcp (gcCredentialsFile_update (\<lambda>_. gcClaimCredentialsFile (bGCPKMS cfg1))) cfg1 else cfg1)
      in set_aws (assumeRoleARN_update (\<lambda>_. acClaimRoleARN (bAWSKMS cfg2))) cfg2)"

definition HasSeparateClaimCredentials :: "BackendConfig \<Rightarrow> bool" where
  "HasSeparateClaimCredentials cfg =
     (if bType cfg = TypeVault then vcClaimTokenFile (bVault cfg) \<noteq> []
      else if bType cfg = TypeGCPKMS then gcClaimCredentialsFile (bGCPKMS cfg) \<noteq> []
      else if bType cfg = TypeAWSKMS then acClaimRoleARN (bAWSKMS cfg) \<noteq> []
      else False)"

text \<open>software.go: the check every claim ends with.\<close>

definition requireClaimOwner :: "string \<Rightarrow> string \<Rightarrow> go_error option" where
  "requireClaimOwner expected actual =
     (if actual = expected then None else Some (Errorf ''claimed by another cluster'' [Sentinel ErrBindingMismatch]))"

lemma requireClaimOwner_None [simp]: "requireClaimOwner expected actual = None \<longleftrightarrow> actual = expected"
  by (simp add: requireClaimOwner_def)

lemma RequireClusterBinding_None:
  "RequireClusterBinding binding cid = None \<longleftrightarrow> valid_id cid \<and> binding = Inr cid"
  by (auto simp: RequireClusterBinding_def split: option.splits sum.splits if_splits)

lemma RequireClusterBinding_unclaimed:
  "RequireClusterBinding binding cid = Some e \<Longrightarrow> errors_is e ErrBindingUnclaimed \<Longrightarrow>
   \<exists>e'. binding = Inl e' \<and> errors_is e' ErrBindingUnclaimed"
  by (auto simp: RequireClusterBinding_def Validate_def errors_New_def split: option.splits sum.splits if_splits)

subsection \<open>The contract of a claim registry\<close>

locale claim_registry =
  fixes owner :: "'s \<Rightarrow> string option"
    and cluster_binding :: "'e \<Rightarrow> 's \<Rightarrow> string result"
    and claim_cluster :: "'f \<Rightarrow> string \<Rightarrow> 's \<Rightarrow> ('s \<times> go_error option) option"
    and fair_read :: "'e \<Rightarrow> bool"
    and fair :: "'f \<Rightarrow> bool"
  assumes binding_is_owner: "fair_read e \<Longrightarrow> cluster_binding e s = Inr cid \<Longrightarrow> owner s = Some cid"
    and claim_keeps_owner: "fair f \<Longrightarrow> owner s = Some cid \<Longrightarrow> claim_cluster f i s = Some (s', r) \<Longrightarrow> owner s' = Some cid"
    and claim_owns: "fair f \<Longrightarrow> claim_cluster f i s = Some (s', None) \<Longrightarrow> owner s' = Some i"
begin

text \<open>A history of claims by any clusters, each logged with its outcome.\<close>

fun claims :: "('f \<times> string) list \<Rightarrow> 's \<Rightarrow> 's \<times> (string \<times> go_error option) list" where
  "claims [] s = (s, [])"
| "claims ((f, i) # fs) s =
     (case claim_cluster f i s of
        None \<Rightarrow> claims fs s
      | Some (s', r) \<Rightarrow> let (s'', rs) = claims fs s' in (s'', (i, r) # rs))"

lemma claims_keep_owner:
  "owner s = Some cid \<Longrightarrow> \<forall>(f, i)\<in>set fs. fair f \<Longrightarrow> owner (fst (claims fs s)) = Some cid"
proof (induction fs s rule: claims.induct)
  case (2 f i fs s)
  show ?case
  proof (cases "claim_cluster f i s")
    case None
    with 2 show ?thesis by simp
  next
    case (Some sr)
    obtain s' r where sr: "sr = (s', r)" by fastforce
    have "owner s' = Some cid" using claim_keeps_owner [of f s cid i s' r] 2(3,4) Some sr by simp
    with 2(2) [OF Some sr [symmetric]] 2(4) Some sr show ?thesis by (simp add: case_prod_beta Let_def)
  qed
qed simp

lemma claims_winner:
  "\<forall>(f, i)\<in>set fs. fair f \<Longrightarrow> (cid, None) \<in> set (snd (claims fs s)) \<Longrightarrow> owner (fst (claims fs s)) = Some cid"
proof (induction fs s rule: claims.induct)
  case (2 f i fs s)
  show ?case
  proof (cases "claim_cluster f i s")
    case None
    with 2 show ?thesis by simp
  next
    case (Some sr)
    obtain s' r where sr: "sr = (s', r)" by fastforce
    have IH: "(cid, None) \<in> set (snd (claims fs s')) \<Longrightarrow> owner (fst (claims fs s')) = Some cid"
      using 2(2) [OF Some sr [symmetric]] 2(3) by auto
    from 2(4) Some sr consider "cid = i" "r = None" | "(cid, None) \<in> set (snd (claims fs s'))"
      by (auto simp: case_prod_beta Let_def)
    then show ?thesis
    proof cases
      case 1
      have "owner s' = Some cid" using claim_owns [of f i s s'] 2(3) Some sr 1 by simp
      from claims_keep_owner [OF this] 2(3) Some sr show ?thesis by (simp add: case_prod_beta Let_def)
    next
      case 2
      with IH Some sr show ?thesis by (simp add: case_prod_beta Let_def)
    qed
  qed
qed simp

lemma one_winner:
  assumes "\<forall>(f, i)\<in>set fs. fair f" "(a, None) \<in> set (snd (claims fs s))" "(b, None) \<in> set (snd (claims fs s))"
  shows "a = b"
  using claims_winner [OF assms(1,2)] claims_winner [OF assms(1,3)] by simp

lemma bound_after_claims:
  assumes "\<forall>(f, i)\<in>set fs. fair f" "fair_read e" "fair_read e'"
    "cluster_binding e s = Inr a" "cluster_binding e' (fst (claims fs s)) = Inr b"
  shows "a = b"
  using claims_keep_owner [OF binding_is_owner [OF assms(2,4)] assms(1)] binding_is_owner [OF assms(3,5)] by simp

end

end
