(* ===== verification/FileBinding.thy ===== *)
theory FileBinding
  imports Backend
begin

section \<open>The marker file (internal/backend/binding_file.go, software_lock_unix.go, software_lock_unsupported.go)\<close>

text \<open>
  The software and PKCS\#11 backends keep the claim in a marker file that is published with
  \<^verbatim>\<open>link(2)\<close>. The file system is a map from canonical paths to contents. Each call receives
  the fault that hit it (before or after it took effect); other processes act on the file system
  between the calls (\<open>ceOthers\<close>). The advisory lock is modelled with its waiting loop, and
  as the error it always is on systems without \<^verbatim>\<open>flock\<close>, but no safety property of the marker relies
  on it.
\<close>

subsection \<open>File system calls\<close>

type_synonym fs = "string \<rightharpoonup> bytes"

datatype fault = NoFault | Before go_error | After go_error

definition os_ReadFile :: "go_error option \<Rightarrow> fs \<Rightarrow> string \<Rightarrow> bytes result" where
  "os_ReadFile fault fs path =
     (case fault of
        Some e \<Rightarrow> Inl e
      | None \<Rightarrow> (case fs path of None \<Rightarrow> Inl (Sentinel OsErrNotExist) | Some d \<Rightarrow> Inr d))"

definition with_fault :: "fault \<Rightarrow> (fs \<Rightarrow> fs \<times> go_error option) \<Rightarrow> fs \<Rightarrow> fs \<times> go_error option" where
  "with_fault ft call fs =
     (case ft of NoFault \<Rightarrow> call fs | Before e \<Rightarrow> (fs, Some e) | After e \<Rightarrow> (fst (call fs), Some e))"

definition os_Link :: "string \<Rightarrow> string \<Rightarrow> fs \<Rightarrow> fs \<times> go_error option" where
  "os_Link src dst fs =
     (if fs src = None then (fs, Some (Sentinel OsErrNotExist))
      else if fs dst \<noteq> None then (fs, Some (Sentinel OsErrExist))
      else (fs(dst := fs src), None))"

definition os_Remove :: "string \<Rightarrow> fs \<Rightarrow> fs \<times> go_error option" where
  "os_Remove path fs =
     (if fs path = None then (fs, Some (Sentinel OsErrNotExist)) else (fs(path := None), None))"

definition os_Rename :: "string \<Rightarrow> string \<Rightarrow> fs \<Rightarrow> fs \<times> go_error option" where
  "os_Rename src dst fs =
     (if fs src = None then (fs, Some (Sentinel OsErrNotExist)) else (fs(dst := fs src, src := None), None))"

text \<open>
  \<^verbatim>\<open>filepath.Dir\<close> with its separator and \<^verbatim>\<open>filepath.Base\<close> of a canonical path, and the name
  \<^verbatim>\<open>os.CreateTemp\<close> makes from its pattern and random digits. The file is opened with
  \<^verbatim>\<open>O_EXCL\<close>, so an existing name is an error.
\<close>

definition path_base :: "string \<Rightarrow> string" where
  "path_base p = rev (takeWhile (\<lambda>c. c \<noteq> CHR ''/'') (rev p))"

definition path_dir :: "string \<Rightarrow> string" where
  "path_dir p = rev (dropWhile (\<lambda>c. c \<noteq> CHR ''/'') (rev p))"

definition temp_name :: "string \<Rightarrow> string \<Rightarrow> string" where
  "temp_name path rand = path_dir path @ ''.'' @ path_base path @ ''.tmp-'' @ rand"

definition os_CreateTemp :: "string \<Rightarrow> fs \<Rightarrow> fs \<times> go_error option" where
  "os_CreateTemp name fs =
     (if fs name \<noteq> None then (fs, Some (Sentinel OsErrExist)) else (fs(name \<mapsto> []), None))"

lemma path_split: "path_dir p @ path_base p = p"
  unfolding path_dir_def path_base_def by (metis rev_append rev_rev_ident takeWhile_dropWhile_id)

lemma temp_name_longer: "length (temp_name p rand) > length p"
  using arg_cong [OF path_split [of p], of length] by (simp add: temp_name_def)

lemma temp_name_neq [simp]: "temp_name p rand \<noteq> p" "p \<noteq> temp_name p rand"
  using temp_name_longer [of p rand] by auto

subsection \<open>The marker\<close>

record softwareBindingRecord =
  mkVersion :: int64
  mkClusterID :: string
  mkPublicKey :: string

definition marker_fields :: "softwareBindingRecord fields" where
  "marker_fields =
     [(''version'', \<lambda>j r. map_option (\<lambda>v. r\<lparr>mkVersion := v\<rparr>) (dec_int (mkVersion r) j)),
      (''cluster_id'', \<lambda>j r. map_option (\<lambda>v. r\<lparr>mkClusterID := v\<rparr>) (dec_string (mkClusterID r) j)),
      (''public_key'', \<lambda>j r. map_option (\<lambda>v. r\<lparr>mkPublicKey := v\<rparr>) (dec_string (mkPublicKey r) j))]"

definition zero_marker :: softwareBindingRecord where
  "zero_marker = \<lparr>mkVersion = 0, mkClusterID = [], mkPublicKey = []\<rparr>"

text \<open>\<^verbatim>\<open>DisallowUnknownFields\<close> makes a key without a field an error.\<close>

definition known_fields :: "'r fields \<Rightarrow> json \<Rightarrow> bool" where
  "known_fields tbl j = (case j of JObj kvs \<Rightarrow> list_all (\<lambda>(k, _). find_field tbl k \<noteq> None) kvs | _ \<Rightarrow> True)"

text \<open>After the record nothing but white space may follow.\<close>

definition ensureJSONEOF :: "string \<Rightarrow> go_error option" where
  "ensureJSONEOF rest =
     (if skip_ws rest = [] then None
      else case json_decode rest of
        Some _ \<Rightarrow> Some (errors_New ''multiple JSON values'')
      | None \<Rightarrow> Some (errors_New ''invalid JSON''))"

definition decode_marker :: "bytes \<Rightarrow> softwareBindingRecord option" where
  "decode_marker data =
     (case json_decode data of
        None \<Rightarrow> None
      | Some (j, rest) \<Rightarrow>
          if \<not> known_fields marker_fields j then None
          else (case decode_struct marker_fields zero_marker j of
              None \<Rightarrow> None
            | Some m \<Rightarrow> (case ensureJSONEOF rest of Some e \<Rightarrow> None | None \<Rightarrow> Some m)))"

lemma ensureJSONEOF_None: "ensureJSONEOF rest = None \<longleftrightarrow> skip_ws rest = []"
  by (simp add: ensureJSONEOF_def split: option.split)

lemma decode_marker_unmarshal:
  "decode_marker data = Some m \<longleftrightarrow> (\<exists>j. json_unmarshal data = Some j \<and> known_fields marker_fields j \<and>
     decode_struct marker_fields zero_marker j = Some m)"
proof (cases "json_decode data")
  case None
  then show ?thesis by (simp add: decode_marker_def json_unmarshal_decode)
next
  case (Some jr)
  then obtain j r where d: "json_decode data = Some (j, r)" by (cases jr) simp
  show ?thesis
    by (cases "decode_struct marker_fields zero_marker j"; cases "ensureJSONEOF r")
      (use ensureJSONEOF_None [of r] in \<open>simp_all add: decode_marker_def json_unmarshal_decode d\<close>)
qed

definition encode_marker :: "softwareBindingRecord \<Rightarrow> bytes" where
  "encode_marker m =
     json_marshal (JObj [(''version'', JInt (sint (mkVersion m))), (''cluster_id'', JStr (mkClusterID m)),
       (''public_key'', JStr (mkPublicKey m))]) @ [CHR 0x0A]"

lemma marker_known:
  "find_field marker_fields ''version'' \<noteq> None" "find_field marker_fields ''cluster_id'' \<noteq> None"
  "find_field marker_fields ''public_key'' \<noteq> None"
  by (simp_all add: find_field_def marker_fields_def)

lemma decode_encode_marker:
  assumes "ascii (mkClusterID m)" "ascii (mkPublicKey m)"
  shows "decode_marker (encode_marker m) = Some m"
proof -
  let ?j = "JObj [(''version'', JInt (sint (mkVersion m))), (''cluster_id'', JStr (mkClusterID m)),
       (''public_key'', JStr (mkPublicKey m))]"
  have "json_unmarshal (encode_marker m) = Some ?j"
    unfolding encode_marker_def using assms by (intro json_unmarshal_line) simp_all
  moreover have "known_fields marker_fields ?j" using marker_known by (simp add: known_fields_def)
  moreover have "decode_struct marker_fields zero_marker ?j = Some m"
    by (simp add: decode_struct_def marker_fields_def find_field_def zero_marker_def)
  ultimately show ?thesis by (simp add: decode_marker_unmarshal)
qed

subsection \<open>Reading the claim\<close>

record fileBinding =
  fbKind :: string
  fbPath :: string
  fbLockPath :: string
  fbPublicKey :: bytes

text \<open>What one read observes: the context before and after, and a fault of \<^verbatim>\<open>os.ReadFile\<close>.\<close>

record read_env =
  reCtx :: "go_error option"
  reFault :: "go_error option"
  reCtxAfter :: "go_error option"

definition corrupt :: "string \<Rightarrow> string result" where
  "corrupt msg = Inl (Errorf msg [Sentinel ErrBindingCorrupt])"

definition marker_owner :: "fileBinding \<Rightarrow> bytes \<Rightarrow> string result" where
  "marker_owner s data =
     (case decode_marker data of
        None \<Rightarrow> corrupt ''decode marker''
      | Some m \<Rightarrow>
          if mkVersion m \<noteq> 1 then corrupt ''marker has another version''
          else if Validate (mkClusterID m) \<noteq> None then corrupt ''marker has invalid cluster ID''
          else if mkPublicKey m \<noteq> b64_encode (fbPublicKey s) then corrupt ''marker belongs to different key material''
          else Inr (mkClusterID m))"

definition fb_read :: "fileBinding \<Rightarrow> read_env \<Rightarrow> fs \<Rightarrow> string result" where
  "fb_read s env fs =
     (if fbPath s = [] then Inl (Sentinel ErrBindingUnsupported)
      else case reCtx env of
        Some e \<Rightarrow> Inl e
      | None \<Rightarrow>
     (case os_ReadFile (reFault env) fs (fbPath s) of
        Inl e \<Rightarrow>
          if errors_is e OsErrNotExist then Inl (Errorf ''marker'' [Sentinel ErrBindingUnclaimed])
          else Inl (Errorf ''read marker'' [Sentinel ErrBindingUnreadable])
      | Inr data \<Rightarrow> (case reCtxAfter env of Some e \<Rightarrow> Inl e | None \<Rightarrow> marker_owner s data)))"

subsection \<open>The lock\<close>

text \<open>
  One round of the waiting loop: the context check, what \<^verbatim>\<open>flock(LOCK_EX|LOCK_NB)\<close> answered, and
  whether the context ended during the 10ms wait. \<open>None\<close> when the rounds given end before the loop.
\<close>

datatype flock_answer = FlockGranted | FlockWouldBlock | FlockError go_error

record lock_round =
  lrCtx :: "go_error option"
  lrFlock :: flock_answer
  lrWait :: "go_error option"

fun lock_loop :: "lock_round list \<Rightarrow> go_error option option" where
  "lock_loop [] = None"
| "lock_loop (r # rs) =
     (case lrCtx r of
        Some e \<Rightarrow> Some (Some e)
      | None \<Rightarrow>
     (case lrFlock r of
        FlockGranted \<Rightarrow> Some None
      | FlockError e \<Rightarrow> Some (Some (Errorf ''lock software key'' [e]))
      | FlockWouldBlock \<Rightarrow> (case lrWait r of Some e \<Rightarrow> Some (Some e) | None \<Rightarrow> lock_loop rs)))"

record lock_env =
  leGOOS :: string
  leOpen :: "go_error option"
  leRounds :: "lock_round list"
  leCtx :: "go_error option"
  leUnlock :: "go_error option"
  leClose :: "go_error option"

definition softwareLockSuffix :: string where
  "softwareLockSuffix = ''.cosmosigner-cluster.lock''"

definition softwareBindingSuffix :: string where
  "softwareBindingSuffix = ''.cosmosigner-cluster.json''"

text \<open>The build constraint of software_lock_unix.go.\<close>

definition flock_build :: "string \<Rightarrow> bool" where
  "flock_build goos \<longleftrightarrow> goos = ''linux'' \<or> goos = ''darwin''"

text \<open>Opening the lock file creates it when it is missing.\<close>

definition acquireSoftwareKeyLock_unix :: "lock_env \<Rightarrow> string \<Rightarrow> fs \<Rightarrow> (fs \<times> go_error option) option" where
  "acquireSoftwareKeyLock_unix env path fs =
     (let lock = path @ softwareLockSuffix in
      case leOpen env of
        Some e \<Rightarrow> Some (fs, Some (Errorf ''open software key lock'' [e]))
      | None \<Rightarrow>
          map_option (\<lambda>e. (if fs lock = None then fs(lock \<mapsto> []) else fs, e)) (lock_loop (leRounds env)))"

text \<open>software_lock_unsupported.go\<close>

definition acquireSoftwareKeyLock_unsupported :: "string \<Rightarrow> fs \<Rightarrow> (fs \<times> go_error option) option" where
  "acquireSoftwareKeyLock_unsupported goos fs =
     Some (fs, Some (errors_New (''software key locking is unsupported on '' @ goos)))"

definition acquireSoftwareKeyLock :: "lock_env \<Rightarrow> string \<Rightarrow> fs \<Rightarrow> (fs \<times> go_error option) option" where
  "acquireSoftwareKeyLock env path fs =
     (if flock_build (leGOOS env) then acquireSoftwareKeyLock_unix env path fs
      else acquireSoftwareKeyLock_unsupported (leGOOS env) fs)"

lemmas key_lock_defs = acquireSoftwareKeyLock_def acquireSoftwareKeyLock_unix_def acquireSoftwareKeyLock_unsupported_def
  flock_build_def

definition withSoftwareKeyLock ::
  "lock_env \<Rightarrow> string \<Rightarrow> (fs \<Rightarrow> fs \<times> go_error option) \<Rightarrow> fs \<Rightarrow> (fs \<times> go_error option) option" where
  "withSoftwareKeyLock env path operation fs =
     (case acquireSoftwareKeyLock env path fs of
        None \<Rightarrow> None
      | Some (fs1, Some e) \<Rightarrow> Some (fs1, Some e)
      | Some (fs1, None) \<Rightarrow>
          let unlock = errors_Join [leUnlock env, leClose env];
              (fs2, r) = (case leCtx env of Some e \<Rightarrow> (fs1, Some e) | None \<Rightarrow> operation fs1)
          in Some (fs2, errors_Join [r, unlock]))"

subsection \<open>Claiming\<close>

record sync_env =
  seOpen :: "go_error option"
  seSync :: "go_error option"
  seClose :: "go_error option"

text \<open>
  What one claim observes. \<open>ceOthers i\<close> is what other processes do to the file system before the
  \<open>i\<close>-th access of the claim; \<open>ceDir\<close> and \<open>cePublished\<close> are the outcomes of opening, syncing and
  closing the directory and the published marker.
\<close>

record claim_env =
  ceLock :: lock_env
  ceOthers :: "nat \<Rightarrow> fs \<Rightarrow> fs"
  ceRead :: read_env
  ceTemp :: fault
  ceRand :: string
  ceWritten :: nat
  ceWrite :: "go_error option"
  ceCtxWritten :: "go_error option"
  ceSync :: "go_error option"
  ceClose :: "go_error option"
  ceCtxLink :: "go_error option"
  ceLink :: fault
  ceRemove :: fault
  ceReread :: read_env
  cePublished :: sync_env
  ceDir :: sync_env
  ceDeferred :: fault

definition sync_path :: "sync_env \<Rightarrow> string \<Rightarrow> go_error option" where
  "sync_path env what =
     (case seOpen env of
        Some e \<Rightarrow> Some (Errorf (''open '' @ what) [e])
      | None \<Rightarrow>
     (case seSync env of
        Some e \<Rightarrow> Some (Errorf (''sync '' @ what) [e])
      | None \<Rightarrow> map_option (\<lambda>e. Errorf (''close '' @ what) [e]) (seClose env)))"

definition syncBindingDirectory :: "claim_env \<Rightarrow> go_error option" where
  "syncBindingDirectory env = sync_path (ceDir env) ''marker directory''"

definition syncPublishedBinding :: "claim_env \<Rightarrow> go_error option" where
  "syncPublishedBinding env =
     (case sync_path (cePublished env) ''published marker'' of Some e \<Rightarrow> Some e | None \<Rightarrow> syncBindingDirectory env)"

definition removeTemporaryBinding :: "claim_env \<Rightarrow> string \<Rightarrow> fs \<Rightarrow> fs \<times> go_error option" where
  "removeTemporaryBinding env path fs =
     (let (fs', r) = with_fault (ceRemove env) (os_Remove path) fs in
      (fs', case r of
         Some e \<Rightarrow> if errors_is e OsErrNotExist then None else Some (Errorf ''remove temporary marker'' [e])
       | None \<Rightarrow> None))"

text \<open>From \<^verbatim>\<open>link\<close> on: publish, or find out who was first.\<close>

definition fb_publish :: "fileBinding \<Rightarrow> claim_env \<Rightarrow> string \<Rightarrow> string \<Rightarrow> fs \<Rightarrow> fs \<times> go_error option" where
  "fb_publish s env cid temp fs0 =
     (let fs1 = ceOthers env 3 fs0; (fs2, r) = with_fault (ceLink env) (os_Link temp (fbPath s)) fs1 in
      case r of
        None \<Rightarrow>
          let (fs3, cleanupErr) = removeTemporaryBinding env temp (ceOthers env 4 fs2)
          in (fs3, errors_Join [cleanupErr, syncBindingDirectory env])
      | Some e \<Rightarrow>
          if errors_is e OsErrExist then
            let (fs3, cleanupErr) = removeTemporaryBinding env temp (ceOthers env 4 fs2); fs4 = ceOthers env 5 fs3 in
            (case fb_read s (ceReread env) fs4 of
               Inl readErr \<Rightarrow> (fs4, errors_Join [cleanupErr, Some readErr])
             | Inr owner \<Rightarrow>
                 (fs4, errors_Join [cleanupErr, syncPublishedBinding env, requireClaimOwner cid owner]))
          else (fs2, Some (Errorf ''publish marker'' [e])))"

text \<open>After the temporary file exists; the deferred removal runs on every way out.\<close>

definition fb_write_publish :: "fileBinding \<Rightarrow> claim_env \<Rightarrow> string \<Rightarrow> string \<Rightarrow> bytes \<Rightarrow> fs \<Rightarrow> fs \<times> go_error option" where
  "fb_write_publish s env cid temp data fs =
     (case ceWrite env of
        Some e \<Rightarrow> (fs(temp \<mapsto> take (ceWritten env) data), Some (Errorf ''write temporary marker'' [e]))
      | None \<Rightarrow>
     (let fs1 = fs(temp \<mapsto> data) in
      case ceCtxWritten env of
        Some e \<Rightarrow> (fs1, Some e)
      | None \<Rightarrow>
     (case ceSync env of
        Some e \<Rightarrow> (fs1, Some (Errorf ''sync temporary marker'' [e]))
      | None \<Rightarrow>
     (case ceClose env of
        Some e \<Rightarrow> (fs1, Some (Errorf ''close temporary marker'' [e]))
      | None \<Rightarrow>
     (case ceCtxLink env of
        Some e \<Rightarrow> (fs1, Some e)
      | None \<Rightarrow> fb_publish s env cid temp fs1)))))"

definition fb_claim_locked ::
  "fileBinding \<Rightarrow> claim_env \<Rightarrow> (fs \<Rightarrow> go_error option) \<Rightarrow> string \<Rightarrow> fs \<Rightarrow> fs \<times> go_error option" where
  "fb_claim_locked s env precheck cid fs0 =
     (let fs1 = ceOthers env 0 fs0 in
      case precheck fs1 of
        Some e \<Rightarrow> (fs1, Some e)
      | None \<Rightarrow>
     (let fs2 = ceOthers env 1 fs1 in
      case fb_read s (ceRead env) fs2 of
        Inr owner \<Rightarrow> (fs2, errors_Join [syncPublishedBinding env, requireClaimOwner cid owner])
      | Inl e \<Rightarrow>
          if \<not> errors_is e ErrBindingUnclaimed then (fs2, Some e)
          else
            let data = encode_marker \<lparr>mkVersion = 1, mkClusterID = cid, mkPublicKey = b64_encode (fbPublicKey s)\<rparr>;
                temp = temp_name (fbPath s) (ceRand env);
                (fs3, r) = with_fault (ceTemp env) (os_CreateTemp temp) (ceOthers env 2 fs2) in
            (case r of
               Some e \<Rightarrow> (fs3, Some (Errorf ''create temporary marker'' [e]))
             | None \<Rightarrow>
                 let (fs4, r) = fb_write_publish s env cid temp data fs3
                 in (fst (with_fault (ceDeferred env) (os_Remove temp) fs4), r))))"

definition fb_claim ::
  "fileBinding \<Rightarrow> (fs \<Rightarrow> go_error option) \<Rightarrow> claim_env \<Rightarrow> string \<Rightarrow> fs \<Rightarrow> (fs \<times> go_error option) option" where
  "fb_claim s precheck env cid fs =
     (if fbPath s = [] then Some (fs, Some (Sentinel ErrBindingUnsupported))
      else case Validate cid of
        Some e \<Rightarrow> Some (fs, Some (Errorf ''invalid cluster ID'' [e]))
      | None \<Rightarrow> withSoftwareKeyLock (ceLock env) (fbLockPath s) (fb_claim_locked s env precheck cid) fs)"
subsection \<open>Rely and guarantee of a claim\<close>

definition kept :: "string \<Rightarrow> fs \<Rightarrow> fs \<Rightarrow> bool" where
  "kept p fs fs' \<longleftrightarrow> fs p = None \<or> fs' p = fs p"

text \<open>
  Other processes never change or remove a published marker, and leave this claim's temporary
  file alone once it exists.
\<close>

definition fair_env :: "fileBinding \<Rightarrow> claim_env \<Rightarrow> bool" where
  "fair_env s env \<longleftrightarrow>
     (\<forall>i fs. kept (fbPath s) fs (ceOthers env i fs)) \<and>
     (\<forall>i fs. 3 \<le> i \<longrightarrow> ceOthers env i fs (temp_name (fbPath s) (ceRand env)) = fs (temp_name (fbPath s) (ceRand env)))"

definition wf_binding :: "fileBinding \<Rightarrow> bool" where
  "wf_binding s \<longleftrightarrow> fbPath s \<noteq> fbLockPath s @ softwareLockSuffix"

definition file_owner :: "fileBinding \<Rightarrow> fs \<Rightarrow> string option" where
  "file_owner s fs =
     (case fs (fbPath s) of
        None \<Rightarrow> None
      | Some d \<Rightarrow> (case marker_owner s d of Inl _ \<Rightarrow> None | Inr cid \<Rightarrow> Some cid))"

lemma kept_refl [simp]: "kept p fs fs"
  by (simp add: kept_def)

lemma kept_same: "fs' p = fs p \<Longrightarrow> kept p fs fs'"
  by (simp add: kept_def)

lemma kept_trans: "kept p a b \<Longrightarrow> kept p b c \<Longrightarrow> kept p a c"
  by (auto simp: kept_def)

lemma kept_others: "fair_env s env \<Longrightarrow> kept (fbPath s) fs (ceOthers env i fs)"
  by (simp add: fair_env_def)

lemma kept_owner: "kept (fbPath s) fs fs' \<Longrightarrow> file_owner s fs = Some cid \<Longrightarrow> file_owner s fs' = Some cid"
  by (auto simp: kept_def file_owner_def split: option.splits)

lemma with_fault_Remove: "with_fault ft (os_Remove t) fs = (fs', r) \<Longrightarrow> p \<noteq> t \<Longrightarrow> fs' p = fs p"
  by (auto simp: with_fault_def os_Remove_def split: fault.splits if_splits)

lemma removeTemporaryBinding_other:
  "removeTemporaryBinding env t fs = (fs', r) \<Longrightarrow> p \<noteq> t \<Longrightarrow> fs' p = fs p"
  by (auto simp: removeTemporaryBinding_def Let_def split: prod.splits dest: with_fault_Remove)

lemma with_fault_CreateTemp: "with_fault ft (os_CreateTemp t) fs = (fs', r) \<Longrightarrow> p \<noteq> t \<Longrightarrow> fs' p = fs p"
  by (auto simp: with_fault_def os_CreateTemp_def split: fault.splits if_splits)

lemma with_fault_Link_kept: "with_fault ft (os_Link t p) fs = (fs', r) \<Longrightarrow> kept p fs fs'"
  by (auto simp: with_fault_def os_Link_def kept_def split: fault.splits if_splits)

lemma with_fault_Link_ok: "with_fault ft (os_Link t p) fs = (fs', None) \<Longrightarrow> fs' p = fs t"
  by (auto simp: with_fault_def os_Link_def split: fault.splits if_splits)

lemma fb_read_owner: "fb_read s env fs = Inr cid \<Longrightarrow> file_owner s fs = Some cid"
  by (auto simp: fb_read_def os_ReadFile_def file_owner_def split: if_splits option.splits sum.splits)

lemma marker_owner_encode:
  assumes "valid_id cid" "ascii cid"
  shows "marker_owner s (encode_marker \<lparr>mkVersion = 1, mkClusterID = cid, mkPublicKey = b64_encode (fbPublicKey s)\<rparr>) = Inr cid"
  using assms by (simp add: marker_owner_def decode_encode_marker)

lemma fb_publish_kept:
  assumes "fair_env s env" "fb_publish s env cid t fs0 = (fs', r)" "t \<noteq> fbPath s"
  shows "kept (fbPath s) fs0 fs'"
proof -
  obtain fs2 lr where lk: "with_fault (ceLink env) (os_Link t (fbPath s)) (ceOthers env 3 fs0) = (fs2, lr)" by fastforce
  have k2: "kept (fbPath s) fs0 fs2"
    using kept_trans [OF kept_others [OF assms(1)] with_fault_Link_kept [OF lk]] .
  obtain fs3 c where rm: "removeTemporaryBinding env t (ceOthers env 4 fs2) = (fs3, c)" by fastforce
  have k3: "kept (fbPath s) fs0 fs3"
    using kept_trans [OF k2 kept_trans [OF kept_others [OF assms(1), of _ 4] kept_same]]
      removeTemporaryBinding_other [OF rm] assms(3) by metis
  have k4: "kept (fbPath s) fs0 (ceOthers env 5 fs3)" using kept_trans [OF k3 kept_others [OF assms(1)]] .
  from assms(2) k2 k3 k4 show ?thesis
    by (auto simp: fb_publish_def Let_def lk rm split: option.splits if_splits sum.splits)
qed

lemma fb_publish_owns:
  assumes "fair_env s env" "t = temp_name (fbPath s) (ceRand env)" "fs0 t = Some d" "marker_owner s d = Inr cid"
    "fb_publish s env cid t fs0 = (fs', None)"
  shows "file_owner s fs' = Some cid"
proof -
  obtain fs2 lr where lk: "with_fault (ceLink env) (os_Link t (fbPath s)) (ceOthers env 3 fs0) = (fs2, lr)" by fastforce
  obtain fs3 c where rm: "removeTemporaryBinding env t (ceOthers env 4 fs2) = (fs3, c)" by fastforce
  show ?thesis
  proof (cases lr)
    case None
    have "fs2 (fbPath s) = Some d"
      using with_fault_Link_ok [OF lk [unfolded None]] assms(1,2,3) by (simp add: fair_env_def)
    then have "file_owner s fs2 = Some cid" by (simp add: file_owner_def assms(4))
    then have "file_owner s (ceOthers env 4 fs2) = Some cid" using kept_owner [OF kept_others [OF assms(1)]] by blast
    moreover have "fs3 (fbPath s) = ceOthers env 4 fs2 (fbPath s)"
      using removeTemporaryBinding_other [OF rm] assms(2) by simp
    moreover have "fs' = fs3" using assms(5) by (simp add: fb_publish_def lk rm None)
    ultimately show ?thesis by (simp add: file_owner_def)
  next
    case (Some e)
    from assms(5) obtain own where "errors_is e OsErrExist" "fs' = ceOthers env 5 fs3"
      "fb_read s (ceReread env) fs' = Inr own" "own = cid"
      by (auto simp: fb_publish_def Let_def lk rm Some errors_Join_None_iff split: if_splits sum.splits)
    then show ?thesis using fb_read_owner by blast
  qed
qed

lemma fb_write_publish_kept:
  assumes "fair_env s env" "fb_write_publish s env cid t d fs0 = (fs', r)" "t \<noteq> fbPath s"
  shows "kept (fbPath s) fs0 fs'"
proof -
  have "kept (fbPath s) fs0 (fs0(t \<mapsto> x))" for x using assms(3) by (simp add: kept_def)
  with assms(2) kept_trans [OF this fb_publish_kept [OF assms(1) _ assms(3)]] show ?thesis
    by (auto simp: fb_write_publish_def Let_def split: option.splits)
qed

lemma fb_write_publish_owns:
  assumes "fair_env s env" "t = temp_name (fbPath s) (ceRand env)" "marker_owner s d = Inr cid"
    "fb_write_publish s env cid t d fs0 = (fs', None)"
  shows "file_owner s fs' = Some cid"
proof -
  have "fb_publish s env cid t (fs0(t \<mapsto> d)) = (fs', None)"
    using assms(4) by (auto simp: fb_write_publish_def Let_def split: option.splits)
  then show ?thesis by (intro fb_publish_owns [OF assms(1,2) _ assms(3)]) simp_all
qed

lemma fb_claim_locked_kept:
  assumes "fair_env s env" "fb_claim_locked s env pre cid fs0 = (fs', r)"
  shows "kept (fbPath s) fs0 fs'"
proof -
  let ?t = "temp_name (fbPath s) (ceRand env)"
  let ?d = "encode_marker \<lparr>mkVersion = 1, mkClusterID = cid, mkPublicKey = b64_encode (fbPublicKey s)\<rparr>"
  let ?fs1 = "ceOthers env 0 fs0" let ?fs2 = "ceOthers env 1 ?fs1"
  have k1: "kept (fbPath s) fs0 ?fs1" using kept_others [OF assms(1)] .
  have k2: "kept (fbPath s) fs0 ?fs2" using kept_trans [OF k1 kept_others [OF assms(1)]] .
  obtain fs3 r3 where ct: "with_fault (ceTemp env) (os_CreateTemp ?t) (ceOthers env 2 ?fs2) = (fs3, r3)" by fastforce
  have k3: "kept (fbPath s) fs0 fs3"
    using kept_trans [OF k2 kept_trans [OF kept_others [OF assms(1)] kept_same]] with_fault_CreateTemp [OF ct] by simp
  obtain fs4 r4 where wp: "fb_write_publish s env cid ?t ?d fs3 = (fs4, r4)" by fastforce
  have k4: "kept (fbPath s) fs0 fs4" using kept_trans [OF k3 fb_write_publish_kept [OF assms(1) wp]] by simp
  obtain fs5 r5 where dr: "with_fault (ceDeferred env) (os_Remove ?t) fs4 = (fs5, r5)" by fastforce
  have k5: "kept (fbPath s) fs0 fs5" using kept_trans [OF k4 kept_same] with_fault_Remove [OF dr] by simp
  from assms(2) k1 k2 k3 k5 show ?thesis
    by (auto simp: fb_claim_locked_def Let_def ct wp dr simp del: One_nat_def split: option.splits if_splits sum.splits)
qed

lemma fb_claim_locked_owns:
  assumes "fair_env s env" "valid_id cid" "ascii cid" "fb_claim_locked s env pre cid fs0 = (fs', None)"
  shows "file_owner s fs' = Some cid"
proof -
  let ?t = "temp_name (fbPath s) (ceRand env)"
  let ?d = "encode_marker \<lparr>mkVersion = 1, mkClusterID = cid, mkPublicKey = b64_encode (fbPublicKey s)\<rparr>"
  let ?fs2 = "ceOthers env 1 (ceOthers env 0 fs0)"
  obtain fs3 r3 where ct: "with_fault (ceTemp env) (os_CreateTemp ?t) (ceOthers env 2 ?fs2) = (fs3, r3)" by fastforce
  obtain fs4 r4 where wp: "fb_write_publish s env cid ?t ?d fs3 = (fs4, r4)" by fastforce
  obtain fs5 r5 where dr: "with_fault (ceDeferred env) (os_Remove ?t) fs4 = (fs5, r5)" by fastforce
  from assms(4) consider "fb_read s (ceRead env) fs' = Inr cid" | "r4 = None" "fs' = fs5"
    by (auto simp: fb_claim_locked_def Let_def ct wp dr errors_Join_None_iff simp del: One_nat_def split: option.splits if_splits sum.splits)
  then show ?thesis
  proof cases
    case 1
    then show ?thesis by (rule fb_read_owner)
  next
    case 2
    have "file_owner s fs4 = Some cid"
      using fb_write_publish_owns [OF assms(1) refl marker_owner_encode [OF assms(2,3)] wp [unfolded 2]] .
    then show ?thesis using with_fault_Remove [OF dr, of "fbPath s"] by (simp add: file_owner_def 2)
  qed
qed

lemma withSoftwareKeyLock_cases:
  assumes "withSoftwareKeyLock env path oper fs = Some (fs', r)"
  obtains fs1 where "\<And>p. p \<noteq> path @ softwareLockSuffix \<Longrightarrow> fs1 p = fs p" "fs' = fs1" "r \<noteq> None"
  | fs1 r' where "\<And>p. p \<noteq> path @ softwareLockSuffix \<Longrightarrow> fs1 p = fs p" "oper fs1 = (fs', r')" "r = None \<Longrightarrow> r' = None"
proof -
  have acq: "fs1 p = fs p" if "acquireSoftwareKeyLock env path fs = Some (fs1, e)" "p \<noteq> path @ softwareLockSuffix" for fs1 e p
    using that by (auto simp: key_lock_defs Let_def split: option.splits if_splits)
  from assms obtain fs1 e where a: "acquireSoftwareKeyLock env path fs = Some (fs1, e)"
    by (auto simp: withSoftwareKeyLock_def split: option.splits)
  from assms a consider "fs' = fs1" "r \<noteq> None" | r' where "oper fs1 = (fs', r')" "r = None \<Longrightarrow> r' = None"
    by (auto simp: withSoftwareKeyLock_def errors_Join_None_iff Let_def simp del: not_None_eq split: option.splits prod.splits)
  then show thesis using that acq [OF a] by cases blast+
qed

lemma valid_id_ascii:
  assumes "valid_id u"
  shows "ascii u"
proof -
  have "lower_hex c \<Longrightarrow> (of_char c :: nat) < 128" for c by (auto simp: lower_hex_def less_eq_char_def)
  then have "validate_from n s \<Longrightarrow> ascii s" for n s by (induction n s rule: validate_from.induct) (auto split: if_splits)
  then show ?thesis using assms by (auto simp: Validate_def split: if_splits)
qed

lemma fb_claim_kept:
  assumes "wf_binding s" "fair_env s env" "fb_claim s pre env cid fs = Some (fs', r)"
  shows "kept (fbPath s) fs fs'"
proof (cases "fbPath s = [] \<or> \<not> valid_id cid")
  case True
  with assms(3) show ?thesis by (auto simp: fb_claim_def split: if_splits option.splits)
next
  case False
  with assms(3) have "withSoftwareKeyLock (ceLock env) (fbLockPath s) (fb_claim_locked s env pre cid) fs = Some (fs', r)"
    by (auto simp: fb_claim_def)
  then show ?thesis
  proof (cases rule: withSoftwareKeyLock_cases)
    case (1 fs1)
    then show ?thesis using assms(1) by (simp add: kept_same wf_binding_def)
  next
    case (2 fs1 r')
    have "kept (fbPath s) fs fs1" using 2(1) assms(1) by (simp add: kept_same wf_binding_def)
    then show ?thesis using fb_claim_locked_kept [OF assms(2) 2(2)] kept_trans by blast
  qed
qed

lemma fb_claim_owns:
  assumes "fair_env s env" "fb_claim s pre env cid fs = Some (fs', None)"
  shows "file_owner s fs' = Some cid"
proof -
  from assms(2) have v: "valid_id cid" and
    l: "withSoftwareKeyLock (ceLock env) (fbLockPath s) (fb_claim_locked s env pre cid) fs = Some (fs', None)"
    by (auto simp: fb_claim_def split: if_splits option.splits)
  from l show ?thesis
    by (cases rule: withSoftwareKeyLock_cases) (auto intro: fb_claim_locked_owns [OF assms(1) v valid_id_ascii [OF v]])
qed

text \<open>The marker file honours the contract, for every well-formed binding and precheck.\<close>

interpretation file_registry: claim_registry "file_owner s" "fb_read s" "fb_claim s pre" "\<lambda>_. True" "\<lambda>env. wf_binding s \<and> fair_env s env"
  for s pre
proof
  show "fb_read s e fs = Inr cid \<Longrightarrow> file_owner s fs = Some cid" for e fs cid by (rule fb_read_owner)
next
  show "file_owner s fs' = Some cid"
    if "wf_binding s \<and> fair_env s f" "file_owner s fs = Some cid" "fb_claim s pre f i fs = Some (fs', r)" for f fs cid i fs' r
    using that kept_owner fb_claim_kept by blast
next
  show "file_owner s fs' = Some i" if "wf_binding s \<and> fair_env s f" "fb_claim s pre f i fs = Some (fs', None)" for f i fs fs'
    using that fb_claim_owns by blast
qed

subsection \<open>A claim without faults\<close>

definition quiet_read :: read_env where
  "quiet_read = \<lparr>reCtx = None, reFault = None, reCtxAfter = None\<rparr>"

definition quiet_sync :: sync_env where
  "quiet_sync = \<lparr>seOpen = None, seSync = None, seClose = None\<rparr>"

definition quiet_lock :: lock_env where
  "quiet_lock = \<lparr>leGOOS = ''linux'', leOpen = None, leRounds = [\<lparr>lrCtx = None, lrFlock = FlockGranted, lrWait = None\<rparr>], leCtx = None,
     leUnlock = None, leClose = None\<rparr>"

definition quiet_env :: "string \<Rightarrow> claim_env" where
  "quiet_env rand =
     \<lparr>ceLock = quiet_lock, ceOthers = (\<lambda>_ fs. fs), ceRead = quiet_read, ceTemp = NoFault, ceRand = rand, ceWritten = 0,
      ceWrite = None, ceCtxWritten = None, ceSync = None, ceClose = None, ceCtxLink = None, ceLink = NoFault,
      ceRemove = NoFault, ceReread = quiet_read, cePublished = quiet_sync, ceDir = quiet_sync, ceDeferred = NoFault\<rparr>"

definition marker_bytes :: "fileBinding \<Rightarrow> string \<Rightarrow> bytes" where
  "marker_bytes s cid = encode_marker \<lparr>mkVersion = 1, mkClusterID = cid, mkPublicKey = b64_encode (fbPublicKey s)\<rparr>"

lemma quiet_fair [simp]: "fair_env s (quiet_env rand)"
  by (simp add: fair_env_def quiet_env_def)

lemma quiet_claim_locked:
  assumes "fbPath s \<noteq> []" "pre fs = None" "fs (fbPath s) = None" "fs (temp_name (fbPath s) rand) = None"
  shows "fb_claim_locked s (quiet_env rand) pre cid fs = (fs(fbPath s \<mapsto> marker_bytes s cid), None)"
  using assms
  by (simp add: fb_claim_locked_def quiet_env_def quiet_read_def quiet_sync_def fb_read_def os_ReadFile_def with_fault_def
      os_CreateTemp_def fb_write_publish_def fb_publish_def os_Link_def removeTemporaryBinding_def os_Remove_def
      syncBindingDirectory_def sync_path_def marker_bytes_def errors_Join_None_iff fun_upd_twist Let_def fun_upd_idem)

lemma quiet_claim:
  assumes "fbPath s \<noteq> []" "wf_binding s" "valid_id cid" "fs (fbPath s) = None"
    "lk = fbLockPath s @ softwareLockSuffix" "fs1 = (if fs lk = None then fs(lk \<mapsto> []) else fs)" "pre fs1 = None"
    "fs1 (temp_name (fbPath s) rand) = None"
  shows "fb_claim s pre (quiet_env rand) cid fs = Some (fs1(fbPath s \<mapsto> marker_bytes s cid), None)"
proof -
  have "fs1 (fbPath s) = None" using assms(2,4,5,6) by (simp add: wf_binding_def)
  with assms(1,7,8) have c: "fb_claim_locked s (quiet_env rand) pre cid fs1 = (fs1(fbPath s \<mapsto> marker_bytes s cid), None)"
    by (intro quiet_claim_locked)
  have "acquireSoftwareKeyLock (ceLock (quiet_env rand)) (fbLockPath s) fs = Some (fs1, None)"
    by (simp add: key_lock_defs quiet_env_def quiet_lock_def assms(5,6) Let_def)
  then show ?thesis using assms(1,3) c
    by (simp add: fb_claim_def withSoftwareKeyLock_def quiet_env_def quiet_lock_def errors_Join_None_iff)
qed

lemma quiet_read_back:
  "fbPath s \<noteq> [] \<Longrightarrow> valid_id cid \<Longrightarrow> fs (fbPath s) = Some (marker_bytes s cid) \<Longrightarrow> fb_read s quiet_read fs = Inr cid"
  by (simp add: fb_read_def quiet_read_def os_ReadFile_def marker_bytes_def marker_owner_encode valid_id_ascii)

subsection \<open>Properties\<close>

text \<open>
  C14: a marker file has one owner for ever. Whatever faults hit a claim and whatever other
  processes do in between, as long as they do not change a published marker: the claim itself
  never changes a published marker, corrupt ones included; when it reports success for cluster a,
  every later successful read of the marker answers a; and a later claim that reports success was
  made for a. No assumption is made about the advisory lock.
\<close>
theorem marker_has_one_owner:
  assumes "wf_binding s" "fair_env s env" "fb_claim s pre env a fs = Some (fs1, r)" "kept (fbPath s) fs1 fs2"
  shows "kept (fbPath s) fs fs1 \<and>
    (r = None \<longrightarrow>
       (\<forall>re c. fb_read s re fs2 = Inr c \<longrightarrow> c = a) \<and>
       (\<forall>env' pre' b fs3. fair_env s env' \<and> fb_claim s pre' env' b fs2 = Some (fs3, None) \<longrightarrow> b = a))"
proof -
  have k: "kept (fbPath s) fs fs1" by (rule fb_claim_kept [OF assms(1-3)])
  have own: "file_owner s fs2 = Some a" if "r = None"
    using kept_owner [OF assms(4) fb_claim_owns [OF assms(2)]] assms(3) that by blast
  have "c = a" if "r = None" "fb_read s re fs2 = Inr c" for re c
    using own [OF that(1)] fb_read_owner [OF that(2)] by simp
  moreover have "b = a" if "r = None" "fair_env s env'" "fb_claim s pre' env' b fs2 = Some (fs3, None)" for env' pre' b fs3
    using file_registry.claim_keeps_owner [of s env' fs2 a pre' b fs3 None] file_registry.claim_owns [of s env' pre' b fs2 fs3]
      own [OF that(1)] assms(1) that(2,3) by simp
  ultimately show ?thesis using k by blast
qed

definition ex_binding :: fileBinding where
  "ex_binding = \<lparr>fbKind = ''software'', fbPath = ''/k/key.json.cosmosigner-cluster.json'', fbLockPath = ''/k/key.json'',
     fbPublicKey = ''pk''\<rparr>"

lemma ex_binding_wf [simp]: "wf_binding ex_binding" "fbPath ex_binding \<noteq> []"
  by (simp_all add: wf_binding_def ex_binding_def softwareLockSuffix_def)

lemma ex_binding_lock: "temp_name (fbPath ex_binding) rand \<noteq> fbLockPath ex_binding @ softwareLockSuffix"
  by (simp add: ex_binding_def temp_name_def path_dir_def path_base_def softwareLockSuffix_def)

lemma ex_claim:
  "fb_claim ex_binding (\<lambda>_. None) (quiet_env ''1'') ex_uuid Map.empty =
     Some ([fbLockPath ex_binding @ softwareLockSuffix \<mapsto> [], fbPath ex_binding \<mapsto> marker_bytes ex_binding ex_uuid], None)"
  using ex_binding_lock by (subst quiet_claim [OF ex_binding_wf(2,1) ex_uuid_valid _ refl refl]) auto

theorem marker_has_one_owner_witness:
  "\<exists>fs1. fb_claim ex_binding (\<lambda>_. None) (quiet_env ''1'') ex_uuid Map.empty = Some (fs1, None) \<and>
     (\<forall>env' pre' b fs3. fair_env ex_binding env' \<and> fb_claim ex_binding pre' env' b fs1 = Some (fs3, None) \<longrightarrow> b = ex_uuid)"
  using marker_has_one_owner [OF ex_binding_wf(1) quiet_fair ex_claim kept_refl] ex_claim by blast

text \<open>
  A claim on an unclaimed key that meets no fault succeeds, writes exactly the marker (and the
  lock file when it was missing), leaves no temporary file behind, and the marker reads back as
  the claiming cluster.
\<close>
theorem claim_publishes_marker:
  assumes "fbPath s \<noteq> []" "wf_binding s" "valid_id cid" "fs (fbPath s) = None"
    "\<And>fs'. pre fs' = None" "fs (temp_name (fbPath s) rand) = None"
    "temp_name (fbPath s) rand \<noteq> fbLockPath s @ softwareLockSuffix"
  shows "\<exists>fs'. fb_claim s pre (quiet_env rand) cid fs = Some (fs', None) \<and> fb_read s quiet_read fs' = Inr cid \<and>
    (\<forall>p. p \<noteq> fbPath s \<and> p \<noteq> fbLockPath s @ softwareLockSuffix \<longrightarrow> fs' p = fs p)"
proof -
  let ?lk = "fbLockPath s @ softwareLockSuffix"
  let ?fs1 = "if fs ?lk = None then fs(?lk \<mapsto> []) else fs"
  have "?fs1 (temp_name (fbPath s) rand) = None" using assms(6,7) by simp
  from quiet_claim [OF assms(1-4) refl refl assms(5) this]
  have "fb_claim s pre (quiet_env rand) cid fs = Some (?fs1(fbPath s \<mapsto> marker_bytes s cid), None)" .
  moreover have "fb_read s quiet_read (?fs1(fbPath s \<mapsto> marker_bytes s cid)) = Inr cid"
    by (rule quiet_read_back [OF assms(1,3)]) simp
  ultimately show ?thesis by (intro exI [of _ "?fs1(fbPath s \<mapsto> marker_bytes s cid)"]) auto
qed

theorem claim_publishes_marker_witness:
  "\<exists>fs'. fb_claim ex_binding (\<lambda>_. None) (quiet_env ''1'') ex_uuid Map.empty = Some (fs', None) \<and>
     fb_read ex_binding quiet_read fs' = Inr ex_uuid"
  using claim_publishes_marker [OF ex_binding_wf(2,1) ex_uuid_valid _ _ _ ex_binding_lock, of Map.empty "\<lambda>_. None" "''1''"]
  by auto

end
