(* ===== verification/ConnKey.thy ===== *)
theory ConnKey
  imports FileBinding
begin

section \<open>The connection identity key (internal/server/connkey.go)\<close>

text \<open>
  The key that authenticates the signer's side of the encrypted connections. It is loaded from
  its file, or generated and stored on the first start. CometBFT's JSON codec for keys is an
  argument, as are the generated key and the faults; a failed \<^verbatim>\<open>os.WriteFile\<close> may leave a part of
  the data behind.
\<close>

record 'k conn_env =
  cnRead :: "go_error option"
  cnUnmarshal :: "bytes \<Rightarrow> 'k result"
  cnGenerated :: 'k
  cnMarshal :: "'k \<Rightarrow> bytes result"
  cnMkdir :: "go_error option"
  cnWrite :: "(nat \<times> go_error) option"

definition LoadOrGenConnKey :: "'k conn_env \<Rightarrow> string \<Rightarrow> fs \<Rightarrow> fs \<times> 'k result" where
  "LoadOrGenConnKey env path fs =
     (case os_ReadFile (cnRead env) fs path of
        Inr data \<Rightarrow>
          (case cnUnmarshal env data of
             Inl e \<Rightarrow> (fs, Inl (Errorf ''parse conn key'' [e]))
           | Inr key \<Rightarrow> (fs, Inr key))
      | Inl e \<Rightarrow>
          if \<not> errors_is e OsErrNotExist then (fs, Inl (Errorf ''read conn key'' [e]))
          else
     (case cnMarshal env (cnGenerated env) of
        Inl e \<Rightarrow> (fs, Inl (Errorf ''marshal conn key'' [e]))
      | Inr out \<Rightarrow>
     (case cnMkdir env of
        Some e \<Rightarrow> (fs, Inl (Errorf ''create conn key dir'' [e]))
      | None \<Rightarrow>
     (case cnWrite env of
        Some (n, e) \<Rightarrow> (fs(path \<mapsto> take n out), Inl (Errorf ''write conn key'' [e]))
      | None \<Rightarrow> (fs(path \<mapsto> out), Inr (cnGenerated env))))))"

text \<open>
  The connection identity is stable. When the codec reads back what it wrote, a key that was
  returned once is returned again by every later start that can read the file, whatever key that
  start would generate; and an existing file is never rewritten.
\<close>
theorem connection_key_is_stable:
  assumes "\<And>k b. cnMarshal env k = Inr b \<Longrightarrow> cnUnmarshal env b = Inr k" "cnUnmarshal env' = cnUnmarshal env"
    "cnRead env = None" "cnRead env' = None" "LoadOrGenConnKey env path fs = (fs1, Inr key)"
  shows "LoadOrGenConnKey env' path fs1 = (fs1, Inr key) \<and> (fs path \<noteq> None \<longrightarrow> fs1 = fs)"
  using assms
  by (auto simp: LoadOrGenConnKey_def os_ReadFile_def split: option.splits sum.splits if_splits prod.splits)

definition ex_conn_env :: "string \<Rightarrow> string conn_env" where
  "ex_conn_env k = \<lparr>cnRead = None, cnUnmarshal = Inr, cnGenerated = k, cnMarshal = Inr, cnMkdir = None, cnWrite = None\<rparr>"

theorem connection_key_is_stable_witness:
  "LoadOrGenConnKey (ex_conn_env ''b'') ''/c'' [''/c'' \<mapsto> ''a''] = ([''/c'' \<mapsto> ''a''], Inr ''a'')"
proof -
  have l: "LoadOrGenConnKey (ex_conn_env ''a'') ''/c'' Map.empty = ([''/c'' \<mapsto> ''a''], Inr ''a'')"
    by (simp add: LoadOrGenConnKey_def os_ReadFile_def ex_conn_env_def)
  have "\<And>k b. cnMarshal (ex_conn_env ''a'') k = Inr b \<Longrightarrow> cnUnmarshal (ex_conn_env ''a'') b = Inr k"
    "cnUnmarshal (ex_conn_env ''b'') = cnUnmarshal (ex_conn_env ''a'')" "cnRead (ex_conn_env k) = None" for k
    by (simp_all add: ex_conn_env_def)
  from connection_key_is_stable [OF this(1,2) this(3,3) l] show ?thesis by simp
qed

end
