(* ===== verification/Software.thy ===== *)
theory Software
  imports FileBinding
begin

section \<open>The software backend (software.go, software_file.go, keyfile.go)\<close>

text \<open>
  Key files, the software backend and key provisioning. CometBFT's key types and JSON codec and the
  ed25519 implementation are third-party code: \<open>key_lib\<close> holds the functions the code calls. Path
  resolution (\<^verbatim>\<open>filepath.Abs\<close>, \<^verbatim>\<open>EvalSymlinks\<close>, \<^verbatim>\<open>Lstat\<close>) is answered by \<open>path_env\<close>.
\<close>

subsection \<open>Libraries and observations\<close>

datatype privkey = Ed25519Priv bytes | Secp256k1Priv bytes | OtherPriv bytes

text \<open>What \<^verbatim>\<open>PrivKey.PubKey\<close> does: panic, return nil, or return a key with these bytes.\<close>

datatype pub_answer = PubPanic | PubNil | PubBytes bytes

record key_lib =
  klParse :: "bytes \<Rightarrow> (privkey option \<times> bytes option) result"
  klPub :: "privkey \<Rightarrow> pub_answer"
  klSign :: "privkey \<Rightarrow> bytes \<Rightarrow> bytes result"
  klSeedPub :: "bytes \<Rightarrow> bytes"
  klPKCS8 :: "bytes \<Rightarrow> bytes result"
  klEncode :: "privkey \<Rightarrow> bytes result"

record path_env =
  peAbs :: "string \<Rightarrow> string result"
  peEval :: "string \<Rightarrow> string result"
  peLstatLink :: "string \<Rightarrow> bool result"
  peMkdir :: "go_error option"

record keyfile_env =
  kfGOOS :: string
  kfOpen :: "go_error option"
  kfRegular :: "bool result"
  kfLinks :: "nat result"
  kfRead :: "go_error option"
  kfClose :: "go_error option"

definition pub_bytes :: "key_lib \<Rightarrow> privkey \<Rightarrow> bytes" where
  "pub_bytes kl priv = (case klPub kl priv of PubBytes b \<Rightarrow> b | _ \<Rightarrow> [])"

subsection \<open>Paths\<close>

definition resolveExistingSoftwareKeyPath :: "path_env \<Rightarrow> string \<Rightarrow> string result" where
  "resolveExistingSoftwareKeyPath pe keyFile =
     (if keyFile = [] then Inl (errors_New ''software backend requires a key file'')
      else case peAbs pe keyFile of
        Inl e \<Rightarrow> Inl (Errorf ''resolve key file path'' [e])
      | Inr absPath \<Rightarrow>
     (case peEval pe absPath of
        Inl e \<Rightarrow> Inl (Errorf ''resolve key file'' [e])
      | Inr canonicalPath \<Rightarrow> Inr canonicalPath))"

text \<open>\<^verbatim>\<open>filepath.Join\<close> of a canonical directory and a base name.\<close>

definition path_join :: "string \<Rightarrow> string \<Rightarrow> string" where
  "path_join dir base = (if dir = ''/'' then dir @ base else dir @ ''/'' @ base)"

definition clean_dir :: "string \<Rightarrow> string" where
  "clean_dir p = (let d = path_dir p in if length d > 1 then butlast d else d)"

definition resolveProvisionSoftwareKeyPath :: "path_env \<Rightarrow> string \<Rightarrow> string result" where
  "resolveProvisionSoftwareKeyPath pe keyFile =
     (if keyFile = [] then Inl (errors_New ''software backend requires --key-file'')
      else case peAbs pe keyFile of
        Inl e \<Rightarrow> Inl (Errorf ''resolve software key path'' [e])
      | Inr absPath \<Rightarrow>
     (case peMkdir pe of
        Some e \<Rightarrow> Inl (Errorf ''create key dir'' [e])
      | None \<Rightarrow>
     (case peEval pe absPath of
        Inr canonicalPath \<Rightarrow> Inr canonicalPath
      | Inl e \<Rightarrow>
          if \<not> errors_is e OsErrNotExist then Inl (Errorf ''resolve software key'' [e])
          else if peLstatLink pe absPath = Inr True
          then Inl (errors_New ''resolve software key: dangling leaf symlink'')
          else case peLstatLink pe absPath of
            Inl le \<Rightarrow>
              if \<not> errors_is le OsErrNotExist then Inl (Errorf ''inspect software key'' [le])
              else (case peEval pe (clean_dir absPath) of
                      Inl de \<Rightarrow> Inl (Errorf ''resolve software key directory'' [de])
                    | Inr dir \<Rightarrow> Inr (path_join dir (path_base absPath)))
          | Inr _ \<Rightarrow>
             (case peEval pe (clean_dir absPath) of
                Inl de \<Rightarrow> Inl (Errorf ''resolve software key directory'' [de])
              | Inr dir \<Rightarrow> Inr (path_join dir (path_base absPath))))))"

text \<open>binding_file.go\<close>

definition resolveBindingPath :: "path_env \<Rightarrow> string \<Rightarrow> string result" where
  "resolveBindingPath pe bindingFile =
     (case peAbs pe bindingFile of
        Inl e \<Rightarrow> Inl (Errorf ''resolve binding file'' [e])
      | Inr absPath \<Rightarrow>
     (case peEval pe (clean_dir absPath) of
        Inl e \<Rightarrow> Inl (Errorf ''resolve binding directory'' [e])
      | Inr directory \<Rightarrow>
     (let bindingPath = path_join directory (path_base absPath) in
      case peLstatLink pe bindingPath of
        Inr True \<Rightarrow> Inl (errors_New ''binding file must not be a symlink'')
      | Inr False \<Rightarrow> Inr bindingPath
      | Inl e \<Rightarrow> if \<not> errors_is e OsErrNotExist then Inl (Errorf ''inspect binding file'' [e]) else Inr bindingPath)))"

subsection \<open>Key files\<close>

text \<open>\<^verbatim>\<open>fstat\<close>'s link count; software_lock_unsupported.go has none to give.\<close>

definition softwareFileLinkCount_unsupported :: "string \<Rightarrow> nat result" where
  "softwareFileLinkCount_unsupported goos =
     Inl (errors_New (''software key link-count checks are unsupported on '' @ goos))"

definition softwareFileLinkCount :: "keyfile_env \<Rightarrow> nat result" where
  "softwareFileLinkCount kf =
     (if flock_build (kfGOOS kf) then kfLinks kf else softwareFileLinkCount_unsupported (kfGOOS kf))"

definition validateSoftwareKeyFile :: "keyfile_env \<Rightarrow> go_error option" where
  "validateSoftwareKeyFile kf =
     (case kfRegular kf of
        Inl e \<Rightarrow> Some (Errorf ''stat software key'' [e])
      | Inr regular \<Rightarrow>
          if \<not> regular then Some (errors_New ''software key is not a regular file'')
          else (case softwareFileLinkCount kf of
                  Inl e \<Rightarrow> Some (Errorf ''inspect hard links for software key'' [e])
                | Inr links \<Rightarrow> if links \<noteq> 1 then Some (errors_New ''software key has multiple hard links'') else None))"

definition key_size_ok :: "privkey \<Rightarrow> bool" where
  "key_size_ok priv =
     (case priv of Ed25519Priv k \<Rightarrow> length k = 64 | Secp256k1Priv k \<Rightarrow> length k = 32 | OtherPriv _ \<Rightarrow> True)"

definition deriveSoftwarePublicKey :: "key_lib \<Rightarrow> privkey \<Rightarrow> bytes result" where
  "deriveSoftwarePublicKey kl priv =
     (if \<not> key_size_ok priv then Inl (errors_New ''key file is corrupt: private key size'')
      else case klPub kl priv of
        PubPanic \<Rightarrow> Inl (errors_New ''key file is corrupt: invalid key material'')
      | PubNil \<Rightarrow> Inl (errors_New ''key file is corrupt: private key returned no public key'')
      | PubBytes b \<Rightarrow> Inr b)"

definition loadSoftwarePrivateKey :: "key_lib \<Rightarrow> keyfile_env \<Rightarrow> fs \<Rightarrow> string \<Rightarrow> privkey result" where
  "loadSoftwarePrivateKey kl kf fs path =
     (case os_ReadFile (kfOpen kf) fs path of
        Inl e \<Rightarrow> Inl (Errorf ''read key file'' [e])
      | Inr contents \<Rightarrow>
     (case validateSoftwareKeyFile kf of
        Some e \<Rightarrow> Inl e
      | None \<Rightarrow>
     (case kfRead kf of
        Some e \<Rightarrow> Inl (Errorf ''read key file'' [e])
      | None \<Rightarrow>
     (case klParse kl contents of
        Inl e \<Rightarrow> Inl (Errorf ''parse key file'' [e])
      | Inr (None, _) \<Rightarrow> Inl (errors_New ''key file has no priv_key'')
      | Inr (Some priv, pub) \<Rightarrow>
     (case deriveSoftwarePublicKey kl priv of
        Inl e \<Rightarrow> Inl e
      | Inr derived \<Rightarrow>
          if pub \<noteq> None \<and> pub \<noteq> Some derived
          then Inl (errors_New ''key file is corrupt: pub_key does not match priv_key'')
          else Inr priv)))))"

definition LoadKeyFilePKCS8 :: "key_lib \<Rightarrow> go_error option \<Rightarrow> fs \<Rightarrow> string \<Rightarrow> (bytes \<times> bytes) result" where
  "LoadKeyFilePKCS8 kl fault fs path =
     (case os_ReadFile fault fs path of
        Inl e \<Rightarrow> Inl (Errorf ''read key file'' [e])
      | Inr data \<Rightarrow>
     (case klParse kl data of
        Inl e \<Rightarrow> Inl (Errorf ''parse key file'' [e])
      | Inr (Some (Ed25519Priv k), pub) \<Rightarrow>
          if length k \<noteq> 64 then Inl (errors_New ''ed25519 private key size'')
          else
            let derived = klSeedPub kl (take 32 k) in
            if derived \<noteq> drop 32 k then Inl (errors_New ''key file is corrupt: private key halves are inconsistent'')
            else if pub \<noteq> None \<and> pub \<noteq> Some derived
            then Inl (errors_New ''key file is corrupt: pub_key does not match priv_key'')
            else (case klPKCS8 kl (take 32 k) of
                    Inl e \<Rightarrow> Inl (Errorf ''encode PKCS#8'' [e])
                  | Inr der \<Rightarrow> Inr (der, pub_bytes kl (Ed25519Priv k)))
      | Inr _ \<Rightarrow> Inl (errors_New ''key file is not ed25519'')))"

subsection \<open>The backend\<close>

record Software =
  swPriv :: privkey
  swKeyPath :: string
  swBindingPath :: string
  swLockPath :: string

definition NewSoftwareWithBindingFile ::
  "key_lib \<Rightarrow> path_env \<Rightarrow> keyfile_env \<Rightarrow> fs \<Rightarrow> string \<Rightarrow> string \<Rightarrow> Software result" where
  "NewSoftwareWithBindingFile kl pe kf fs keyFile bindingFile =
     (case resolveExistingSoftwareKeyPath pe keyFile of
        Inl e \<Rightarrow> Inl e
      | Inr canonicalPath \<Rightarrow>
     (case loadSoftwarePrivateKey kl kf fs canonicalPath of
        Inl e \<Rightarrow> Inl e
      | Inr priv \<Rightarrow>
          if bindingFile = [] then
            Inr \<lparr>swPriv = priv, swKeyPath = canonicalPath, swBindingPath = canonicalPath @ softwareBindingSuffix,
                 swLockPath = canonicalPath\<rparr>
          else (case resolveBindingPath pe bindingFile of
              Inl e \<Rightarrow> Inl e
            | Inr bindingPath \<Rightarrow>
                if bindingPath = canonicalPath then Inl (errors_New ''software binding file must differ from the key file'')
                else Inr \<lparr>swPriv = priv, swKeyPath = canonicalPath, swBindingPath = bindingPath, swLockPath = bindingPath\<rparr>)))"

definition NewSoftware :: "key_lib \<Rightarrow> path_env \<Rightarrow> keyfile_env \<Rightarrow> fs \<Rightarrow> string \<Rightarrow> Software result" where
  "NewSoftware kl pe kf fs keyFile = NewSoftwareWithBindingFile kl pe kf fs keyFile []"

definition NewSoftwareFromPriv :: "privkey \<Rightarrow> Software" where
  "NewSoftwareFromPriv priv = \<lparr>swPriv = priv, swKeyPath = [], swBindingPath = [], swLockPath = []\<rparr>"

definition Software_Sign :: "key_lib \<Rightarrow> Software \<Rightarrow> bytes \<Rightarrow> bytes result" where
  "Software_Sign kl s msg = klSign kl (swPriv s) msg"

definition Software_bindingResource :: "Software \<Rightarrow> string" where
  "Software_bindingResource s = (if swBindingPath s = [] then ''in-memory software key'' else swBindingPath s)"

definition sw_fileBinding :: "key_lib \<Rightarrow> Software \<Rightarrow> fileBinding" where
  "sw_fileBinding kl s =
     \<lparr>fbKind = ''software'', fbPath = swBindingPath s, fbLockPath = swLockPath s, fbPublicKey = pub_bytes kl (swPriv s)\<rparr>"

definition Software_ClusterBinding :: "key_lib \<Rightarrow> Software \<Rightarrow> read_env \<Rightarrow> fs \<Rightarrow> string result" where
  "Software_ClusterBinding kl s env fs =
     (if swBindingPath s = [] then Inl (Sentinel ErrBindingUnsupported) else fb_read (sw_fileBinding kl s) env fs)"

definition key_unchanged :: "key_lib \<Rightarrow> Software \<Rightarrow> keyfile_env \<Rightarrow> fs \<Rightarrow> go_error option" where
  "key_unchanged kl s kf fs =
     (case loadSoftwarePrivateKey kl kf fs (swKeyPath s) of
        Inl e \<Rightarrow> Some (Errorf ''validate software key before claim'' [Sentinel ErrBindingCorrupt])
      | Inr diskPriv \<Rightarrow>
          if diskPriv \<noteq> swPriv s then Some (Errorf ''software key changed after it was loaded'' [Sentinel ErrBindingCorrupt])
          else None)"

definition Software_ClaimCluster ::
  "key_lib \<Rightarrow> Software \<Rightarrow> keyfile_env \<Rightarrow> claim_env \<Rightarrow> string \<Rightarrow> fs \<Rightarrow> (fs \<times> go_error option) option" where
  "Software_ClaimCluster kl s kf env cid fs =
     (if swBindingPath s = [] then Some (fs, Some (Sentinel ErrBindingUnsupported))
      else fb_claim (sw_fileBinding kl s) (key_unchanged kl s kf) env cid fs)"
subsection \<open>Provisioning\<close>

text \<open>What provisioning observes of the files; \<open>weWritten\<close> is the count \<^verbatim>\<open>Write\<close> reports, and
  \<open>weOthers i\<close> is what other processes do before the \<open>i\<close>-th access of the file system (0 and 1: reading
  the marker and the key, 2 to 5: creating, writing, renaming and removing the temporary file).\<close>

record write_env =
  weOthers :: "nat \<Rightarrow> fs \<Rightarrow> fs"
  weTemp :: fault
  weRand :: string
  weChmod :: "go_error option"
  weWrite :: "go_error option"
  weWritten :: nat
  weSync :: "go_error option"
  weClose :: "go_error option"
  weCtx :: "go_error option"
  weRename :: fault
  weDir :: sync_env
  weDeferred :: fault

definition write_and_rename :: "write_env \<Rightarrow> string \<Rightarrow> string \<Rightarrow> bytes \<Rightarrow> fs \<Rightarrow> fs \<times> go_error option" where
  "write_and_rename env path temp data fs =
     (case weChmod env of
        Some e \<Rightarrow> (fs, Some (Errorf ''set temporary software key permissions'' [e]))
      | None \<Rightarrow>
     (let fs1 = (weOthers env 3 fs)(temp \<mapsto> take (weWritten env) data) in
      case weWrite env of
        Some e \<Rightarrow> (fs1, Some (Errorf ''write temporary software key'' [e]))
      | None \<Rightarrow>
          if weWritten env \<noteq> length data then (fs1, Some (errors_New ''write temporary software key: short write''))
          else
     (case weSync env of
        Some e \<Rightarrow> (fs1, Some (Errorf ''sync temporary software key'' [e]))
      | None \<Rightarrow>
     (case weClose env of
        Some e \<Rightarrow> (fs1, Some (Errorf ''close temporary software key'' [e]))
      | None \<Rightarrow>
     (case weCtx env of
        Some e \<Rightarrow> (fs1, Some e)
      | None \<Rightarrow>
     (let (fs2, r) = with_fault (weRename env) (os_Rename temp path) (weOthers env 4 fs1) in
      case r of
        Some e \<Rightarrow> (fs2, Some (Errorf ''publish software key'' [e]))
      | None \<Rightarrow> (fs2, sync_path (weDir env) ''software key directory'')))))))"

definition writeSoftwareKeyAtomically :: "write_env \<Rightarrow> string \<Rightarrow> bytes \<Rightarrow> fs \<Rightarrow> fs \<times> go_error option" where
  "writeSoftwareKeyAtomically env path data fs =
     (let temp = temp_name path (weRand env); (fs1, r) = with_fault (weTemp env) (os_CreateTemp temp) (weOthers env 2 fs) in
      case r of
        Some e \<Rightarrow> (fs1, Some (Errorf ''create temporary software key'' [e]))
      | None \<Rightarrow>
          let (fs2, r) = write_and_rename env path temp data fs1
          in (fst (with_fault (weDeferred env) (os_Remove temp) (weOthers env 5 fs2)), r))"

record provision_env =
  pvPath :: path_env
  pvLock :: lock_env
  pvMarkerFault :: "go_error option"
  pvKeyFile :: keyfile_env
  pvGenerated :: privkey
  pvWrite :: write_env

definition provision_locked :: "key_lib \<Rightarrow> provision_env \<Rightarrow> bool \<Rightarrow> string \<Rightarrow> fs \<Rightarrow> fs \<times> go_error option" where
  "provision_locked kl env overwrite path fs0 =
     (let fs1 = weOthers (pvWrite env) 0 fs0 in
      case os_ReadFile (pvMarkerFault env) fs1 (path @ softwareBindingSuffix) of
        Inr _ \<Rightarrow> (fs1, Some (errors_New ''refusing to provision software key with binding marker''))
      | Inl e \<Rightarrow>
          if \<not> errors_is e OsErrNotExist then (fs1, Some (Errorf ''inspect software binding marker'' [e]))
          else
     (let fs = weOthers (pvWrite env) 1 fs1;
          existing =
            (case os_ReadFile (kfOpen (pvKeyFile env)) fs path of
               Inr _ \<Rightarrow>
                 (case validateSoftwareKeyFile (pvKeyFile env) of
                    Some e \<Rightarrow> Some e
                  | None \<Rightarrow>
                 (case kfClose (pvKeyFile env) of
                    Some e \<Rightarrow> Some (Errorf ''close software key'' [e])
                  | None \<Rightarrow> if \<not> overwrite then Some (errors_New ''already exists (use --overwrite)'') else None))
             | Inl e \<Rightarrow> if errors_is e OsErrNotExist then None else Some (Errorf ''inspect software key'' [e])) in
      case existing of
        Some e \<Rightarrow> (fs, Some e)
      | None \<Rightarrow>
     (case klEncode kl (pvGenerated env) of
        Inl e \<Rightarrow> (fs, Some (Errorf ''encode software key'' [e]))
      | Inr data \<Rightarrow> writeSoftwareKeyAtomically (pvWrite env) path data fs)))"

text \<open>
  When only the unlocking fails the code returns the public key beside the error; its callers look
  at the error first, so the model returns a key only without an error.
\<close>

definition provisionSoftwareKey ::
  "key_lib \<Rightarrow> provision_env \<Rightarrow> bool \<Rightarrow> string \<Rightarrow> fs \<Rightarrow> (fs \<times> bytes option \<times> go_error option) option" where
  "provisionSoftwareKey kl env overwrite keyFile fs =
     (case resolveProvisionSoftwareKeyPath (pvPath env) keyFile of
        Inl e \<Rightarrow> Some (fs, None, Some e)
      | Inr path \<Rightarrow>
          map_option (\<lambda>(fs', r). (fs', if r = None then Some (pub_bytes kl (pvGenerated env)) else None, r))
            (withSoftwareKeyLock (pvLock env) path (provision_locked kl env overwrite path) fs))"
subsection \<open>Lemmas\<close>

lemma temp_name_not_suffixed:
  assumes "length r > 0" "hd r = CHR ''c''"
  shows "temp_name p rand \<noteq> p @ CHR ''.'' # r"
proof
  assume eq: "temp_name p rand = p @ CHR ''.'' # r"
  have p: "p @ CHR ''.'' # r = path_dir p @ (path_base p @ CHR ''.'' # r)"
    using path_split [of p] by (metis append_assoc)
  have "''.'' @ path_base p @ ''.tmp-'' @ rand = path_base p @ CHR ''.'' # r"
    using eq unfolding temp_name_def p by simp
  then have "(''.'' @ path_base p @ ''.tmp-'' @ rand) ! (length (path_base p) + 1) = (path_base p @ CHR ''.'' # r) ! (length (path_base p) + 1)"
    by (rule arg_cong)
  then show False using assms by (simp add: nth_append hd_conv_nth)
qed

lemma suffix_paths [simp]:
  "temp_name p rand \<noteq> p @ softwareBindingSuffix" "temp_name p rand \<noteq> p @ softwareLockSuffix"
  "p @ softwareBindingSuffix \<noteq> temp_name p rand" "p @ softwareLockSuffix \<noteq> temp_name p rand"
  "p @ softwareBindingSuffix \<noteq> p @ softwareLockSuffix" "p @ softwareLockSuffix \<noteq> p @ softwareBindingSuffix"
  "p \<noteq> p @ softwareBindingSuffix" "p \<noteq> p @ softwareLockSuffix"
  "p @ softwareBindingSuffix \<noteq> p" "p @ softwareLockSuffix \<noteq> p"
  using temp_name_not_suffixed [of "''cosmosigner-cluster.json''" p rand] temp_name_not_suffixed [of "''cosmosigner-cluster.lock''" p rand]
  by (auto simp: softwareBindingSuffix_def softwareLockSuffix_def)

lemma suffix_facts [simp]:
  "softwareLockSuffix \<noteq> []" "softwareBindingSuffix \<noteq> []" "softwareBindingSuffix \<noteq> softwareLockSuffix"
  "softwareLockSuffix \<noteq> softwareBindingSuffix"
  by (simp_all add: softwareBindingSuffix_def softwareLockSuffix_def)








subsection \<open>Properties\<close>


definition ex_lib :: key_lib where
  "ex_lib = \<lparr>klParse = (\<lambda>b. Inr (Some (Ed25519Priv b), None)), klPub = (\<lambda>k. case k of Ed25519Priv b \<Rightarrow> PubBytes (drop 32 b) | _ \<Rightarrow> PubNil),
     klSign = (\<lambda>k m. Inr m), klSeedPub = (\<lambda>s. s), klPKCS8 = (\<lambda>s. Inr s),
     klEncode = (\<lambda>k. case k of Ed25519Priv b \<Rightarrow> Inr b | _ \<Rightarrow> Inl (errors_New ''key type''))\<rparr>"

definition ex_priv :: bytes where
  "ex_priv = replicate 64 (CHR ''a'')"

definition ex_paths :: path_env where
  "ex_paths = \<lparr>peAbs = Inr, peEval = Inr, peLstatLink = (\<lambda>_. Inl (Sentinel OsErrNotExist)), peMkdir = None\<rparr>"

definition ex_keyfile :: keyfile_env where
  "ex_keyfile = \<lparr>kfGOOS = ''linux'', kfOpen = None, kfRegular = Inr True, kfLinks = Inr 1, kfRead = None, kfClose = None\<rparr>"

definition ex_provision :: provision_env where
  "ex_provision = \<lparr>pvPath = ex_paths, pvLock = quiet_lock, pvMarkerFault = None, pvKeyFile = ex_keyfile,
     pvGenerated = Ed25519Priv ex_priv,
     pvWrite = \<lparr>weOthers = (\<lambda>i fs. fs(''/other'' := Some [])), weTemp = NoFault, weRand = ''1'', weChmod = None, weWrite = None, weWritten = 64, weSync = None, weClose = None,
       weCtx = None, weRename = NoFault, weDir = quiet_sync, weDeferred = NoFault\<rparr>\<rparr>"



lemma loadSoftwarePrivateKey_ok:
  assumes "loadSoftwarePrivateKey kl kf fs path = Inr priv"
  shows "\<exists>contents pub. fs path = Some contents \<and> klParse kl contents = Inr (Some priv, pub) \<and> key_size_ok priv \<and>
    klPub kl priv = PubBytes (pub_bytes kl priv) \<and> (pub = None \<or> pub = Some (pub_bytes kl priv)) \<and> validateSoftwareKeyFile kf = None"
  using assms
  by (auto simp: loadSoftwarePrivateKey_def deriveSoftwarePublicKey_def os_ReadFile_def pub_bytes_def
      split: option.splits sum.splits prod.splits if_splits pub_answer.splits)

lemma NewSoftware_wf:
  assumes "NewSoftwareWithBindingFile kl pe kf fs keyFile bindingFile = Inr s"
  shows "wf_binding (sw_fileBinding kl s)" "swBindingPath s \<noteq> swKeyPath s"
    "loadSoftwarePrivateKey kl kf fs (swKeyPath s) = Inr (swPriv s)"
  using assms
  by (auto simp: NewSoftwareWithBindingFile_def wf_binding_def sw_fileBinding_def split: sum.splits if_splits)

lemma Software_ClaimCluster_success:
  assumes "Software_ClaimCluster kl s kf env a fs = Some (fs1, None)"
  shows "\<exists>fs0. key_unchanged kl s kf fs0 = None"
proof -
  from assms have l: "withSoftwareKeyLock (ceLock env) (swLockPath s)
      (fb_claim_locked (sw_fileBinding kl s) env (key_unchanged kl s kf) a) fs = Some (fs1, None)"
    by (auto simp: Software_ClaimCluster_def fb_claim_def sw_fileBinding_def split: if_splits option.splits)
  then show ?thesis
    by (cases rule: withSoftwareKeyLock_cases) (auto simp: fb_claim_locked_def Let_def split: option.splits)
qed

text \<open>
  A software backend built from a key file holds exactly the key on disk, of the right size and
  consistent with the public key in the file, and keeps its marker apart from the key and from the
  lock. A claim that succeeds has re-read the same key from disk, and from then on, as long as
  nobody else changes the marker, no backend over that marker can claim the key for another cluster.
\<close>
theorem software_key_claimed_once:
  assumes "NewSoftwareWithBindingFile kl pe kf0 fs0 keyFile bindingFile = Inr s" "fair_env (sw_fileBinding kl s) env"
    "Software_ClaimCluster kl s kf env a fs = Some (fs1, None)" "kept (swBindingPath s) fs1 fs2"
  shows "key_size_ok (swPriv s) \<and> swBindingPath s \<noteq> swKeyPath s \<and>
    (\<exists>fsx. loadSoftwarePrivateKey kl kf fsx (swKeyPath s) = Inr (swPriv s)) \<and>
    (\<forall>kf' env' b fs3. fair_env (sw_fileBinding kl s) env' \<and>
       Software_ClaimCluster kl s kf' env' b fs2 = Some (fs3, None) \<longrightarrow> b = a)"
proof -
  note wf = NewSoftware_wf [OF assms(1)]
  have "key_size_ok (swPriv s)" using loadSoftwarePrivateKey_ok [OF wf(3)] by blast
  moreover have "\<exists>fsx. loadSoftwarePrivateKey kl kf fsx (swKeyPath s) = Inr (swPriv s)"
  proof -
    obtain fsx where "key_unchanged kl s kf fsx = None" using Software_ClaimCluster_success [OF assms(3)] by blast
    then show ?thesis by (cases "loadSoftwarePrivateKey kl kf fsx (swKeyPath s)") (auto simp: key_unchanged_def split: if_splits)
  qed
  moreover have "b = a" if b: "fair_env (sw_fileBinding kl s) env'" "Software_ClaimCluster kl s kf' env' b fs2 = Some (fs3, None)"
    for kf' env' b fs3
  proof -
    have fb: "fb_claim (sw_fileBinding kl s) (key_unchanged kl s k) e i f = Some (g, None)"
      if "Software_ClaimCluster kl s k e i f = Some (g, None)" for k e i f g
      using that by (auto simp: Software_ClaimCluster_def split: if_splits)
    have "file_owner (sw_fileBinding kl s) fs1 = Some a" by (rule fb_claim_owns [OF assms(2) fb [OF assms(3)]])
    then have "file_owner (sw_fileBinding kl s) fs2 = Some a"
      using kept_owner [of "sw_fileBinding kl s"] assms(4) by (simp add: sw_fileBinding_def)
    then have "file_owner (sw_fileBinding kl s) fs3 = Some a"
      using kept_owner fb_claim_kept [OF wf(1) b(1) fb [OF b(2)]] by blast
    moreover have "file_owner (sw_fileBinding kl s) fs3 = Some b" by (rule fb_claim_owns [OF b(1) fb [OF b(2)]])
    ultimately show ?thesis by simp
  qed
  ultimately show ?thesis using wf(2) by blast
qed

definition ex_software :: Software where
  "ex_software = \<lparr>swPriv = Ed25519Priv ex_priv, swKeyPath = ''/k'', swBindingPath = ''/k'' @ softwareBindingSuffix, swLockPath = ''/k''\<rparr>"

lemma ex_software_loads:
  "fs ''/k'' = Some ex_priv \<Longrightarrow> loadSoftwarePrivateKey ex_lib ex_keyfile fs ''/k'' = Inr (Ed25519Priv ex_priv)"
  by (simp add: loadSoftwarePrivateKey_def os_ReadFile_def ex_keyfile_def validateSoftwareKeyFile_def softwareFileLinkCount_def flock_build_def ex_lib_def
      deriveSoftwarePublicKey_def key_size_ok_def ex_priv_def)

lemma ex_software_new:
  "NewSoftwareWithBindingFile ex_lib ex_paths ex_keyfile [''/k'' \<mapsto> ex_priv] ''/k'' [] = Inr ex_software"
  by (simp add: NewSoftwareWithBindingFile_def resolveExistingSoftwareKeyPath_def ex_paths_def ex_software_loads ex_software_def)

lemma ex_software_claim:
  "\<exists>fs1. Software_ClaimCluster ex_lib ex_software ex_keyfile (quiet_env ''1'') ex_uuid [''/k'' \<mapsto> ex_priv] = Some (fs1, None)"
proof -
  let ?b = "sw_fileBinding ex_lib ex_software"
  let ?lk = "fbLockPath ?b @ softwareLockSuffix"
  let ?fs1 = "if [''/k'' \<mapsto> ex_priv] ?lk = None then [''/k'' \<mapsto> ex_priv](?lk \<mapsto> []) else [''/k'' \<mapsto> ex_priv]"
  have p: "fbPath ?b = ''/k.cosmosigner-cluster.json''" "fbLockPath ?b = ''/k''"
    by (simp_all add: sw_fileBinding_def ex_software_def softwareBindingSuffix_def)
  have pre: "key_unchanged ex_lib ex_software ex_keyfile ?fs1 = None"
    using p(2) by (simp add: key_unchanged_def ex_software_def ex_software_loads softwareLockSuffix_def)
  have t: "?fs1 (temp_name (fbPath ?b) ''1'') = None"
    by (simp add: p temp_name_def path_dir_def path_base_def softwareLockSuffix_def)
  have "[''/k'' \<mapsto> ex_priv] (fbPath ?b) = None" by (simp add: p)
  with pre t have "fb_claim ?b (key_unchanged ex_lib ex_software ex_keyfile) (quiet_env ''1'') ex_uuid [''/k'' \<mapsto> ex_priv] =
      Some (?fs1(fbPath ?b \<mapsto> marker_bytes ?b ex_uuid), None)"
    by (intro quiet_claim [OF _ NewSoftware_wf(1) [OF ex_software_new] ex_uuid_valid _ refl refl]) (simp_all add: p(1))
  then show ?thesis by (simp add: Software_ClaimCluster_def) (simp add: ex_software_def)
qed

theorem software_key_claimed_once_witness:
  "\<exists>fs1. Software_ClaimCluster ex_lib ex_software ex_keyfile (quiet_env ''1'') ex_uuid [''/k'' \<mapsto> ex_priv] = Some (fs1, None) \<and>
     (\<forall>kf' env' b fs3. fair_env (sw_fileBinding ex_lib ex_software) env' \<and>
        Software_ClaimCluster ex_lib ex_software kf' env' b fs1 = Some (fs3, None) \<longrightarrow> b = ex_uuid)"
proof -
  obtain fs1 where c: "Software_ClaimCluster ex_lib ex_software ex_keyfile (quiet_env ''1'') ex_uuid [''/k'' \<mapsto> ex_priv] = Some (fs1, None)"
    using ex_software_claim by blast
  from software_key_claimed_once [OF ex_software_new quiet_fair c kept_refl] c show ?thesis by blast
qed

text \<open>
  Importing a key file keeps the validator's identity: what is handed to the import is the
  PKCS\#8 encoding of the first 32 bytes of a 64-byte ed25519 key whose other half is the public key
  of that seed, and a public key stored in the file is that same key.
\<close>
theorem pkcs8_keeps_identity:
  assumes "LoadKeyFilePKCS8 kl fault fs path = Inr (der, pub)"
  shows "\<exists>k filePub contents. fs path = Some contents \<and> klParse kl contents = Inr (Some (Ed25519Priv k), filePub) \<and>
    length k = 64 \<and> drop 32 k = klSeedPub kl (take 32 k) \<and> klPKCS8 kl (take 32 k) = Inr der \<and>
    (filePub = None \<or> filePub = Some (klSeedPub kl (take 32 k)))"
  using assms
  by (auto simp: LoadKeyFilePKCS8_def os_ReadFile_def Let_def split: option.splits sum.splits prod.splits privkey.splits if_splits)

theorem pkcs8_keeps_identity_witness:
  "\<exists>der pub k. LoadKeyFilePKCS8 ex_lib None [''/k'' \<mapsto> ex_priv] ''/k'' = Inr (der, pub) \<and> klPKCS8 ex_lib (take 32 k) = Inr der"
proof -
  have "LoadKeyFilePKCS8 ex_lib None [''/k'' \<mapsto> ex_priv] ''/k'' = Inr (take 32 ex_priv, drop 32 ex_priv)"
    by (simp add: LoadKeyFilePKCS8_def os_ReadFile_def ex_lib_def ex_priv_def pub_bytes_def)
  from pkcs8_keeps_identity [OF this] this show ?thesis by blast
qed

text \<open>C22: without a key lock there is no software key. On a system other than Linux and macOS no software
  key is loaded, whatever the file; a claim ends with an error and leaves every file as it was; and
  provisioning ends with an error, writes nothing and returns no key.\<close>

theorem unsupported_systems_fail_closed:
  assumes "\<not> flock_build goos" and "kfGOOS kf = goos" and "leGOOS (ceLock env) = goos" and "leGOOS (pvLock pv) = goos"
  shows "(\<exists>e. NewSoftwareWithBindingFile kl pe kf fs keyFile bindingFile = Inl e) \<and>
    (\<exists>e. Software_ClaimCluster kl s kf env cid fs = Some (fs, Some e)) \<and>
    (\<exists>e. provisionSoftwareKey kl pv overwrite keyFile fs = Some (fs, None, Some e))"
proof (intro conjI)
  have "\<exists>e. validateSoftwareKeyFile kf = Some e"
    using assms(1,2) by (simp add: validateSoftwareKeyFile_def softwareFileLinkCount_def
        softwareFileLinkCount_unsupported_def split: sum.split)
  then have load: "\<exists>e. loadSoftwarePrivateKey kl kf fs p = Inl e" for p
    by (auto simp: loadSoftwarePrivateKey_def split: sum.split)
  show "\<exists>e. NewSoftwareWithBindingFile kl pe kf fs keyFile bindingFile = Inl e"
  proof (cases "resolveExistingSoftwareKeyPath pe keyFile")
    case (Inr p)
    with load [of p] show ?thesis by (auto simp: NewSoftwareWithBindingFile_def)
  qed (simp add: NewSoftwareWithBindingFile_def)
  have lock: "\<exists>e. withSoftwareKeyLock le path oper fs = Some (fs, Some e)" if "leGOOS le = goos" for le path oper
    using that assms(1) by (simp add: withSoftwareKeyLock_def acquireSoftwareKeyLock_def acquireSoftwareKeyLock_unsupported_def)
  then show "\<exists>e. Software_ClaimCluster kl s kf env cid fs = Some (fs, Some e)"
    using assms(3) by (auto simp: Software_ClaimCluster_def fb_claim_def split: option.split)
  show "\<exists>e. provisionSoftwareKey kl pv overwrite keyFile fs = Some (fs, None, Some e)"
    using lock [OF assms(4)] by (auto simp: provisionSoftwareKey_def split: sum.split)
qed

theorem unsupported_systems_fail_closed_witness:
  "\<exists>e. provisionSoftwareKey ex_lib (ex_provision\<lparr>pvLock := quiet_lock\<lparr>leGOOS := ''windows''\<rparr>\<rparr>) True ''/k'' Map.empty =
     Some (Map.empty, None, Some e)"
  using unsupported_systems_fail_closed [of "''windows''" "ex_keyfile\<lparr>kfGOOS := ''windows''\<rparr>"
      "(quiet_env [])\<lparr>ceLock := quiet_lock\<lparr>leGOOS := ''windows''\<rparr>\<rparr>"
      "ex_provision\<lparr>pvLock := quiet_lock\<lparr>leGOOS := ''windows''\<rparr>\<rparr>" ex_lib ex_paths Map.empty "''/k''" "[]" ex_software "[]" True]
  by (simp add: flock_build_def)

end
