(* ===== verification/Pkcs11.thy ===== *)
theory Pkcs11
  imports Software
begin

section \<open>The PKCS\#11 backend (internal/backend/pkcs11.go)\<close>

text \<open>
  One session on a token, with recovery after a lost session and a latch after a PIN failure. The
  token's module is the parameter the code has as the interface \<^verbatim>\<open>pkcs11Module\<close>: each opening and each
  signature receives what the module answered (\<open>open_answers\<close>, the answers of \<^verbatim>\<open>Sign\<close>). The record
  keeps, beside the fields of the struct, the log of the calls made to the module.
  Errors of the module carry the code \<^verbatim>\<open>errors.As\<close> finds in them.
\<close>

subsection \<open>Data\<close>

datatype p11_error = P11Error (p11_code: "nat option") (p11_go: go_error)

type_synonym 'a p11_result = "p11_error + 'a"

definition pkcs11Code :: "p11_error \<Rightarrow> nat list \<Rightarrow> bool" where
  "pkcs11Code e codes = (case p11_code e of None \<Rightarrow> False | Some c \<Rightarrow> c \<in> set codes)"

definition pkcs11Edwards :: nat where "pkcs11Edwards = 0x40"
definition pkcs11EdDSA :: nat where "pkcs11EdDSA = 0x1057"

record pkcs11Key =
  pkClass :: nat
  pkKeyType :: nat
  pkSign :: bool
  pkSensitive :: bool
  pkNonExtractable :: bool
  pkParams :: bytes
  pkPoint :: bytes

datatype p11_call =
    CallTokens | CallMechanisms nat | CallOpen nat | CallClose nat
  | CallLogin nat (pin_failed: bool)
  | CallFind nat bool | CallKey nat nat bool | CallSign nat nat bytes | CallRelease

record open_answers =
  oaTokens :: "(nat \<times> string) list p11_result"
  oaMechanisms :: "nat list p11_result"
  oaPin :: "bytes result"
  oaOpen :: "nat p11_result"
  oaLogin :: "p11_error option"
  oaFind :: "bool \<Rightarrow> nat list p11_result"
  oaKey :: "nat \<Rightarrow> bool \<Rightarrow> pkcs11Key p11_result"

record PKCS11 =
  pCfg :: PKCS11Config
  pSession :: nat
  pSessionOpen :: bool
  pPrivate :: nat
  pPub :: "bytes option"
  pPinFailure :: "go_error option"
  pClosed :: bool
  pCalls :: "p11_call list"

definition log_calls :: "p11_call list \<Rightarrow> PKCS11 \<Rightarrow> PKCS11" where
  "log_calls cs b = b\<lparr>pCalls := pCalls b @ cs\<rparr>"

subsection \<open>Finding the key\<close>

definition ed25519_params :: "bytes \<Rightarrow> bool" where
  "ed25519_params p \<longleftrightarrow>
     p = map char_of [6, 3, 43, 101, 112 :: nat] \<or> p = map char_of [19, 12 :: nat] @ ''edwards25519''"

definition check_key :: "bool \<Rightarrow> pkcs11Key \<Rightarrow> go_error option" where
  "check_key isPrivate key =
     first_error
       [check (pkClass key \<noteq> (if isPrivate then 3 else 2) \<or> pkKeyType key \<noteq> pkcs11Edwards \<or> (isPrivate \<and> \<not> pkSign key))
          ''pkcs11 key must be a signing Ed25519 key'',
        check (\<not> ed25519_params (pkParams key)) ''pkcs11 key parameters are not Ed25519'',
        check (isPrivate \<and> (\<not> pkSensitive key \<or> \<not> pkNonExtractable key))
          ''pkcs11 private key must be sensitive and non-extractable'']"

definition raw_point :: "bytes \<Rightarrow> bytes" where
  "raw_point p = (if length p = 34 \<and> p ! 0 = CHR 0x04 \<and> p ! 1 = CHR 0x20 then drop 2 p else p)"

definition find_key :: "open_answers \<Rightarrow> bool \<Rightarrow> PKCS11 \<Rightarrow> PKCS11 \<times> (nat \<times> pkcs11Key) result" where
  "find_key a isPrivate b0 =
     (let b = log_calls [CallFind (pSession b0) isPrivate] b0 in
      case oaFind a isPrivate of
        Inl e \<Rightarrow> (b, Inl (Errorf ''find pkcs11 key'' [p11_go e]))
      | Inr objects \<Rightarrow>
          if length objects \<noteq> 1 then (b, Inl (errors_New ''pkcs11 key selector did not match exactly one object''))
          else
     (let b1 = log_calls [CallKey (pSession b) (hd objects) isPrivate] b in
      case oaKey a (hd objects) isPrivate of
        Inl e \<Rightarrow> (b1, Inl (Errorf ''read pkcs11 key'' [p11_go e]))
      | Inr key \<Rightarrow> (case check_key isPrivate key of Some e \<Rightarrow> (b1, Inl e) | None \<Rightarrow> (b1, Inr (hd objects, key)))))"

definition p11_keys :: "open_answers \<Rightarrow> PKCS11 \<Rightarrow> PKCS11 \<times> (nat \<times> bytes) result" where
  "p11_keys a b =
     (case find_key a True b of
        (b1, Inl e) \<Rightarrow> (b1, Inl e)
      | (b1, Inr (private, _)) \<Rightarrow>
     (case find_key a False b1 of
        (b2, Inl e) \<Rightarrow> (b2, Inl e)
      | (b2, Inr (_, key)) \<Rightarrow>
          let point = raw_point (pkPoint key) in
          if length point \<noteq> 32 then (b2, Inl (errors_New ''pkcs11 public key must be 32 raw bytes or a DER OCTET STRING of 32 bytes''))
          else (b2, Inr (private, point))))"

subsection \<open>Sessions\<close>

definition dropSession :: "PKCS11 \<Rightarrow> PKCS11" where
  "dropSession b =
     (if pSessionOpen b then (log_calls [CallClose (pSession b)] b)\<lparr>pSessionOpen := False, pPrivate := 0\<rparr>
      else b\<lparr>pPrivate := 0\<rparr>)"

definition pin_failure :: "p11_error \<Rightarrow> go_error" where
  "pin_failure e = Errorf ''restart only after correcting token access'' [Sentinel ErrPKCS11PINFailure, p11_go e]"

text \<open>From the opened session on: log in, find the key, pin it.\<close>

definition login_and_keys :: "open_answers \<Rightarrow> PKCS11 \<Rightarrow> PKCS11 \<times> go_error option" where
  "login_and_keys a b0 =
     (let failed = (case oaLogin a of Some e \<Rightarrow> pkcs11Code e [0xa0, 0xa4] | None \<Rightarrow> False);
          b = log_calls [CallLogin (pSession b0) failed] b0 in
      case (case oaLogin a of Some e \<Rightarrow> if pkcs11Code e [0x100] then None else Some e | None \<Rightarrow> None) of
        Some e \<Rightarrow>
          if failed then (dropSession (b\<lparr>pPinFailure := Some (pin_failure e)\<rparr>), Some (pin_failure e))
          else (dropSession b, Some (Errorf ''login pkcs11 session'' [p11_go e]))
      | None \<Rightarrow>
     (case p11_keys a b of
        (b1, Inl e) \<Rightarrow> (dropSession b1, Some e)
      | (b1, Inr (private, pub)) \<Rightarrow>
          if pPub b1 \<noteq> None \<and> pPub b1 \<noteq> Some pub
          then (dropSession b1, Some (errors_New ''pkcs11 key changed after session recovery''))
          else (b1\<lparr>pPrivate := private, pPub := Some pub\<rparr>, None)))"

definition selects :: "PKCS11Config \<Rightarrow> nat \<times> string \<Rightarrow> bool" where
  "selects cfg tok = (case pcSlot cfg of Some sl \<Rightarrow> fst tok = sl | None \<Rightarrow> snd tok = pcTokenLabel cfg)"

definition reopen :: "open_answers \<Rightarrow> PKCS11 \<Rightarrow> PKCS11 \<times> go_error option" where
  "reopen a b0 =
     (case pPinFailure b0 of
        Some e \<Rightarrow> (b0, Some e)
      | None \<Rightarrow>
     (let b = log_calls [CallTokens] (dropSession b0) in
      case oaTokens a of
        Inl e \<Rightarrow> (b, Some (Errorf ''enumerate pkcs11 tokens'' [p11_go e]))
      | Inr tokens \<Rightarrow>
     (case filter (selects (pCfg b)) tokens of
        [tok] \<Rightarrow>
     (let b1 = log_calls [CallMechanisms (fst tok)] b in
      case oaMechanisms a of
        Inl e \<Rightarrow> (b1, Some (Errorf ''read pkcs11 mechanisms'' [p11_go e]))
      | Inr mechanisms \<Rightarrow>
          if pkcs11EdDSA \<notin> set mechanisms then (b1, Some (errors_New ''pkcs11 token does not support CKM_EDDSA''))
          else
     (case oaPin a of
        Inl e \<Rightarrow> (b1, Some (Errorf ''read pkcs11 pin_file'' [e]))
      | Inr pin \<Rightarrow>
          if TrimRight pin [CHR 0x0D, CHR 0x0A] = [] then (b1, Some (errors_New ''pkcs11 pin_file is empty''))
          else
     (let b2 = log_calls [CallOpen (fst tok)] b1 in
      case oaOpen a of
        Inl e \<Rightarrow> (b2, Some (Errorf ''open pkcs11 session'' [p11_go e]))
      | Inr session \<Rightarrow> login_and_keys a (b2\<lparr>pSession := session, pSessionOpen := True\<rparr>))))
      | _ \<Rightarrow> (b, Some (errors_New ''pkcs11 token selector did not match exactly one present token'')))))"

subsection \<open>Operations\<close>

record sign_answers =
  saReopen :: open_answers
  saSign :: "bytes p11_result"
  saRecover :: open_answers
  saRetry :: "bytes p11_result"

definition session_lost :: "p11_error \<Rightarrow> bool" where
  "session_lost e = pkcs11Code e [0xb0, 0xb3, 0x32, 0xe0, 0x101]"

text \<open>The module's first answer and, after a lost session, the answer of the second attempt.\<close>

definition module_sign :: "sign_answers \<Rightarrow> bytes \<Rightarrow> PKCS11 \<Rightarrow> PKCS11 \<times> bytes result" where
  "module_sign a msg b0 =
     (let b = log_calls [CallSign (pSession b0) (pPrivate b0) msg] b0 in
      case saSign a of
        Inr sig \<Rightarrow> (b, Inr sig)
      | Inl e \<Rightarrow>
          if \<not> session_lost e then (dropSession b, Inl (Errorf ''pkcs11 sign'' [p11_go e]))
          else
     (case reopen (saRecover a) b of
        (b1, Some re) \<Rightarrow> (b1, Inl re)
      | (b1, None) \<Rightarrow>
     (let b2 = log_calls [CallSign (pSession b1) (pPrivate b1) msg] b1 in
      case saRetry a of
        Inr sig \<Rightarrow> (b2, Inr sig)
      | Inl e2 \<Rightarrow> (dropSession b2, Inl (Errorf ''pkcs11 sign'' [p11_go e2])))))"

definition p11_sign ::
  "(bytes \<Rightarrow> bytes \<Rightarrow> bytes \<Rightarrow> bool) \<Rightarrow> sign_answers \<Rightarrow> bytes \<Rightarrow> PKCS11 \<Rightarrow> PKCS11 \<times> bytes result" where
  "p11_sign verify a msg b =
     (if pClosed b then (b, Inl (errors_New ''pkcs11 backend is closed''))
      else case pPinFailure b of
        Some e \<Rightarrow> (b, Inl e)
      | None \<Rightarrow>
     (case (if pSessionOpen b then (b, None) else reopen (saReopen a) b) of
        (b1, Some e) \<Rightarrow> (b1, Inl e)
      | (b1, None) \<Rightarrow>
     (case module_sign a msg b1 of
        (b2, Inl e) \<Rightarrow> (b2, Inl e)
      | (b2, Inr sig) \<Rightarrow>
          if length sig \<noteq> 64 \<or> pPub b2 = None \<or> \<not> verify (the (pPub b2)) msg sig
          then (b2, Inl (errors_New ''pkcs11 returned an invalid Ed25519 signature for the cached public key''))
          else (b2, Inr sig))))"

definition probe :: bytes where
  "probe = ''cosmosigner/pkcs11 preflight - not a consensus message''"

record preflight_env =
  pfCtx :: "go_error option"
  pfFirst :: sign_answers
  pfCtxBetween :: "go_error option"
  pfSecond :: sign_answers
  pfCtxAfter :: "go_error option"

definition p11_VerifyCanSign ::
  "(bytes \<Rightarrow> bytes \<Rightarrow> bytes \<Rightarrow> bool) \<Rightarrow> preflight_env \<Rightarrow> PKCS11 \<Rightarrow> PKCS11 \<times> go_error option" where
  "p11_VerifyCanSign verify env b =
     (case pfCtx env of
        Some e \<Rightarrow> (b, Some e)
      | None \<Rightarrow>
     (case p11_sign verify (pfFirst env) probe b of
        (b1, Inl e) \<Rightarrow> (b1, Some e)
      | (b1, Inr sig1) \<Rightarrow>
     (case pfCtxBetween env of
        Some e \<Rightarrow> (b1, Some e)
      | None \<Rightarrow>
     (case p11_sign verify (pfSecond env) probe b1 of
        (b2, Inl e) \<Rightarrow> (b2, Some e)
      | (b2, Inr sig2) \<Rightarrow>
          if sig1 \<noteq> sig2 then (b2, Some (errors_New ''pkcs11 Ed25519 signatures are not deterministic''))
          else (b2, pfCtxAfter env)))))"

text \<open>The check a claim runs under the lock of the marker.\<close>

definition p11_precheck :: "open_answers \<Rightarrow> open_answers \<Rightarrow> go_error option \<Rightarrow> PKCS11 \<Rightarrow> PKCS11 \<times> go_error option" where
  "p11_precheck aOpen aKeys ctxErr b =
     (if pClosed b then (b, Some (errors_New ''pkcs11 backend is closed''))
      else case pPinFailure b of
        Some e \<Rightarrow> (b, Some e)
      | None \<Rightarrow>
     (case (if pSessionOpen b then (b, None) else reopen aOpen b) of
        (b1, Some e) \<Rightarrow>
          if errors_is e ErrPKCS11PINFailure then (b1, Some e)
          else (b1, Some (Errorf ''reopen'' [Sentinel ErrBindingCorrupt]))
      | (b1, None) \<Rightarrow>
     (case p11_keys aKeys b1 of
        (b2, Inl e) \<Rightarrow> (b2, Some (Errorf ''validate pkcs11 key before claim'' [Sentinel ErrBindingCorrupt]))
      | (b2, Inr (_, pub)) \<Rightarrow>
          if pPub b2 \<noteq> Some pub then (b2, Some (Errorf ''pkcs11 key changed before claim'' [Sentinel ErrBindingCorrupt]))
          else (b2, ctxErr))))"

definition p11_fileBinding :: "string \<Rightarrow> PKCS11 \<Rightarrow> fileBinding" where
  "p11_fileBinding path b =
     \<lparr>fbKind = ''pkcs11'', fbPath = path, fbLockPath = path, fbPublicKey = (case pPub b of Some p \<Rightarrow> p | None \<Rightarrow> [])\<rparr>"

definition p11_ClusterBinding :: "string \<Rightarrow> PKCS11 \<Rightarrow> read_env \<Rightarrow> fs \<Rightarrow> string result" where
  "p11_ClusterBinding path b env fs = fb_read (p11_fileBinding path b) env fs"

definition p11_ClaimCluster ::
  "open_answers \<Rightarrow> open_answers \<Rightarrow> go_error option \<Rightarrow> string \<Rightarrow> claim_env \<Rightarrow> string \<Rightarrow> PKCS11 \<times> fs \<Rightarrow>
   ((PKCS11 \<times> fs) \<times> go_error option) option" where
  "p11_ClaimCluster aOpen aKeys ctxErr path env cid st =
     (let (b, fs) = st; (b', pre) = p11_precheck aOpen aKeys ctxErr b;
          ran = (path \<noteq> [] \<and> Validate cid = None \<and>
            (case acquireSoftwareKeyLock (ceLock env) path fs of Some (_, None) \<Rightarrow> True | _ \<Rightarrow> False) \<and>
            leCtx (ceLock env) = None) in
      map_option (\<lambda>(fs', r). ((if ran then b' else b, fs'), r))
        (fb_claim (p11_fileBinding path b) (\<lambda>_. pre) env cid fs))"

definition p11_Close :: "p11_error option \<Rightarrow> go_error option \<Rightarrow> PKCS11 \<Rightarrow> PKCS11 \<times> go_error option" where
  "p11_Close closeErr releaseErr b =
     (if pClosed b then (b, None)
      else
        let b1 = b\<lparr>pClosed := True\<rparr>;
            (b2, e) = (if pSessionOpen b1
              then ((log_calls [CallClose (pSession b1)] b1)\<lparr>pSessionOpen := False\<rparr>, map_option p11_go closeErr)
              else (b1, None))
        in (log_calls [CallRelease] b2, errors_Join [e, releaseErr]))"

definition newPKCS11 ::
  "path_env \<Rightarrow> open_answers \<Rightarrow> p11_error option \<Rightarrow> go_error option \<Rightarrow> PKCS11Config \<Rightarrow> PKCS11 \<times> string result" where
  "newPKCS11 pe a closeErr releaseErr cfg =
     (let b = \<lparr>pCfg = cfg, pSession = 0, pSessionOpen = False, pPrivate = 0, pPub = None, pPinFailure = None,
               pClosed = False, pCalls = []\<rparr> in
      case ValidatePKCS11Config cfg of
        Some e \<Rightarrow> (fst (p11_Close closeErr releaseErr b), Inl e)
      | None \<Rightarrow>
     (case resolveBindingPath pe (pcBindingFile cfg) of
        Inl e \<Rightarrow> (fst (p11_Close closeErr releaseErr b), Inl e)
      | Inr path \<Rightarrow>
     (case reopen a b of
        (b1, Some e) \<Rightarrow> (fst (p11_Close closeErr releaseErr b1), Inl e)
      | (b1, None) \<Rightarrow> (b1, Inr path))))"

subsection \<open>The PIN latch\<close>

definition is_login :: "p11_call \<Rightarrow> bool" where
  "is_login c = (case c of CallLogin _ _ \<Rightarrow> True | _ \<Rightarrow> False)"

text \<open>Scanning a log: the latch after it, or \<open>None\<close> when a login follows a failed one.\<close>

fun pin_scan :: "bool \<Rightarrow> p11_call list \<Rightarrow> bool option" where
  "pin_scan l [] = Some l"
| "pin_scan l (CallLogin s f # cs) = (if l then None else pin_scan f cs)"
| "pin_scan l (c # cs) = pin_scan l cs"

definition pin_inv :: "PKCS11 \<Rightarrow> bool" where
  "pin_inv b \<longleftrightarrow> pin_scan False (pCalls b) = Some (pPinFailure b \<noteq> None)"

lemma pin_scan_append: "pin_scan l (xs @ ys) = (case pin_scan l xs of None \<Rightarrow> None | Some l' \<Rightarrow> pin_scan l' ys)"
  by (induction l xs rule: pin_scan.induct) auto

lemma pin_scan_quiet: "list_all (\<lambda>c. \<not> is_login c) cs \<Longrightarrow> pin_scan l cs = Some l"
  by (induction l cs rule: pin_scan.induct) (auto simp: is_login_def)

lemma pin_scan_latched: "pin_scan True cs = Some l \<Longrightarrow> list_all (\<lambda>c. \<not> is_login c) cs"
  by (induction True cs rule: pin_scan.induct) (auto simp: is_login_def)

lemma log_calls_simps [simp]:
  "pCalls (log_calls cs b) = pCalls b @ cs" "pCfg (log_calls cs b) = pCfg b" "pSession (log_calls cs b) = pSession b"
  "pSessionOpen (log_calls cs b) = pSessionOpen b" "pPrivate (log_calls cs b) = pPrivate b" "pPub (log_calls cs b) = pPub b"
  "pPinFailure (log_calls cs b) = pPinFailure b" "pClosed (log_calls cs b) = pClosed b"
  by (simp_all add: log_calls_def)

lemma dropSession_simps [simp]:
  "pPinFailure (dropSession b) = pPinFailure b" "pPub (dropSession b) = pPub b" "pClosed (dropSession b) = pClosed b"
  by (simp_all add: dropSession_def)

text \<open>Calls that neither log in nor touch the latch or the pinned key.\<close>

definition calm :: "PKCS11 \<Rightarrow> PKCS11 \<Rightarrow> bool" where
  "calm b b' \<longleftrightarrow> pPinFailure b' = pPinFailure b \<and> pPub b' = pPub b \<and> pClosed b' = pClosed b \<and>
     (\<exists>cs. pCalls b' = pCalls b @ cs \<and> list_all (\<lambda>c. \<not> is_login c) cs)"

lemma calm_refl [simp]: "calm b b"
  by (simp add: calm_def)

lemma calm_trans: "calm a b \<Longrightarrow> calm b c \<Longrightarrow> calm a c"
  unfolding calm_def by (metis append_assoc list_all_append)

lemma calm_pin_inv: "calm b b' \<Longrightarrow> pin_inv b \<Longrightarrow> pin_inv b'"
  by (auto simp: calm_def pin_inv_def pin_scan_append pin_scan_quiet)

lemma calm_log: "list_all (\<lambda>c. \<not> is_login c) cs \<Longrightarrow> calm b (log_calls cs b)"
  by (simp add: calm_def)

lemma calm_drop: "calm b (dropSession b)"
  by (auto simp: calm_def dropSession_def is_login_def)

lemma calm_log_drop: "list_all (\<lambda>c. \<not> is_login c) cs \<Longrightarrow> calm b (log_calls cs (dropSession b))"
  using calm_trans [OF calm_drop calm_log] .

lemma calm_find_key: "find_key a p b = (b', r) \<Longrightarrow> calm b b'"
  by (auto simp: find_key_def Let_def calm_def is_login_def split: sum.splits if_splits option.splits)

lemma calm_keys: "p11_keys a b = (b', r) \<Longrightarrow> calm b b'"
  by (auto simp: p11_keys_def Let_def split: prod.splits sum.splits if_splits dest!: calm_find_key intro: calm_trans)

lemma p11_keys_point: "p11_keys a b = (b', Inr (pr, pub)) \<Longrightarrow> length pub = 32"
  by (auto simp: p11_keys_def Let_def split: prod.splits sum.splits if_splits)

subsection \<open>What opening a session keeps\<close>

text \<open>The latch invariant holds, a latched failure and a pinned key stay, nothing reopens a closed backend.\<close>

definition keeps :: "PKCS11 \<Rightarrow> PKCS11 \<Rightarrow> bool" where
  "keeps b b' \<longleftrightarrow> (pin_inv b \<longrightarrow> pin_inv b') \<and> (pPinFailure b \<noteq> None \<longrightarrow> pPinFailure b' = pPinFailure b) \<and>
     (pPub b \<noteq> None \<longrightarrow> pPub b' = pPub b) \<and> pClosed b' = pClosed b"

lemma keeps_refl [simp]: "keeps b b"
  by (simp add: keeps_def)

lemma keeps_trans: "keeps a b \<Longrightarrow> keeps b c \<Longrightarrow> keeps a c"
  unfolding keeps_def by metis

lemma calm_keeps: "calm b b' \<Longrightarrow> keeps b b'"
  using calm_pin_inv [of b b'] by (auto simp: keeps_def calm_def)

lemma login_keeps:
  assumes "pPinFailure b = None" "login_and_keys a b = (b', r)"
  shows "keeps b b'" "r = None \<Longrightarrow> pPub b' \<noteq> None"
proof -
  let ?f = "case oaLogin a of Some e \<Rightarrow> pkcs11Code e [0xa0, 0xa4] | None \<Rightarrow> False"
  let ?b = "log_calls [CallLogin (pSession b) ?f] b"
  obtain b1 kr where k: "p11_keys a ?b = (b1, kr)" by fastforce
  have inv: "pin_inv ?b" if "pin_inv b" "\<not> ?f"
    using that assms(1) by (simp add: pin_inv_def pin_scan_append)
  have latched: "pin_inv (dropSession (?b\<lparr>pPinFailure := Some e\<rparr>))" if "pin_inv b" ?f for e
  proof (rule calm_pin_inv [OF calm_drop])
    show "pin_inv (?b\<lparr>pPinFailure := Some e\<rparr>)" using that assms(1) by (simp add: pin_inv_def pin_scan_append)
  qed
  have c1: "calm ?b b1" by (rule calm_keys [OF k])
  have kb: "keeps b x" if "calm ?b x" "\<not> ?f" for x
    using calm_pin_inv [OF that(1)] inv that by (auto simp: keeps_def calm_def)
  have nf: "\<not> ?f" if "(case oaLogin a of Some e \<Rightarrow> if pkcs11Code e [0x100] then None else Some e | None \<Rightarrow> None) = None"
    using that by (auto simp: pkcs11Code_def split: option.splits if_splits)
  have upd: "keeps b (b1\<lparr>pPrivate := pr, pPub := Some pub\<rparr>)"
    if "\<not> ?f" "pPub b1 = None \<or> pPub b1 = Some pub" for pr pub
    using kb [OF c1 that(1)] that(2) c1 by (auto simp: keeps_def pin_inv_def calm_def)
  show "keeps b b'"
  proof (cases "case oaLogin a of Some e \<Rightarrow> if pkcs11Code e [0x100] then None else Some e | None \<Rightarrow> None")
    case None
    have kF: "p11_keys a (log_calls [CallLogin (pSession b) False] b) = (b1, kr)" using k nf [OF None] by simp
    from assms(2) None nf [OF None] kb [OF calm_trans [OF c1 calm_drop]] upd show ?thesis
      by (auto simp: login_and_keys_def Let_def k kF split: sum.splits if_splits)
  next
    case (Some e)
    show ?thesis
    proof (cases ?f)
      case True
      with Some assms latched show ?thesis
        by (auto simp: login_and_keys_def Let_def keeps_def)
    next
      case False
      with Some assms(2) kb [OF calm_drop] show ?thesis by (auto simp: login_and_keys_def Let_def)
    qed
  qed
  show "pPub b' \<noteq> None" if "r = None"
    using assms(2) that by (auto simp: login_and_keys_def Let_def k split: sum.splits if_splits option.splits)
qed

lemma reopen_keeps:
  assumes "reopen a b = (b', r)"
  shows "keeps b b'" "r = None \<Longrightarrow> pPub b' \<noteq> None"
proof -
  let ?b1 = "log_calls [CallTokens] (dropSession b)"
  have c1: "calm b ?b1" by (rule calm_log_drop) (simp add: is_login_def)
  have c2: "calm b (log_calls [CallMechanisms t] ?b1)" for t
    by (rule calm_trans [OF c1 calm_log]) (simp add: is_login_def)
  have c3: "calm b (log_calls [CallOpen t] (log_calls [CallMechanisms t] ?b1))" for t
    by (rule calm_trans [OF c2 calm_log]) (simp add: is_login_def)
  have c4: "calm b ((log_calls [CallOpen t] (log_calls [CallMechanisms t] ?b1))\<lparr>pSession := h, pSessionOpen := True\<rparr>)" for t h
    using c3 [of t] by (simp add: calm_def)
  have lg: "keeps b x" "y = None \<Longrightarrow> pPub x \<noteq> None"
    if "login_and_keys a ((log_calls [CallOpen t] (log_calls [CallMechanisms t] ?b1))\<lparr>pSession := h, pSessionOpen := True\<rparr>) = (x, y)"
      "pPinFailure b = None" for t h x y
    using login_keeps [OF _ that(1)] keeps_trans [OF calm_keeps [OF c4]] that(2) c4 [of t h] by (auto simp: calm_def)
  note sp = option.splits sum.splits list.splits if_splits
  show "keeps b b'"
    using assms lg(1) calm_keeps [OF c1] calm_keeps [OF c2] calm_keeps [OF c3]
    by (auto simp: reopen_def Let_def split: sp)
  show "r = None \<Longrightarrow> pPub b' \<noteq> None"
    using assms lg(2) by (auto simp: reopen_def Let_def simp del: not_None_eq split: sp)
qed

lemma open_keeps:
  assumes "(if pSessionOpen b then (b, None) else reopen a b) = (b', r)"
  shows "keeps b b'"
  using assms reopen_keeps(1) by (auto split: if_splits)

lemma module_sign_keeps: "module_sign a msg b = (b', r) \<Longrightarrow> keeps b b'"
proof -
  have c1: "calm b (log_calls [CallSign h k m] b)" for b h k m by (rule calm_log) (simp add: is_login_def)
  have c2: "calm b (dropSession (log_calls [CallSign h k m] b))" for b h k m using calm_trans [OF c1 calm_drop] .
  have rec: "keeps b x" "keeps b (log_calls [CallSign i l n] x)" "keeps b (dropSession (log_calls [CallSign i l n] x))"
    if "reopen c (log_calls [CallSign h k m] b) = (x, y)" for c h k m x y i l n
    using keeps_trans [OF calm_keeps [OF c1] reopen_keeps(1) [OF that]] keeps_trans calm_keeps [OF c1] calm_keeps [OF c2] by blast+
  assume "module_sign a msg b = (b', r)"
  then show ?thesis using calm_keeps [OF c1] calm_keeps [OF c2] rec
    by (auto simp: module_sign_def Let_def split: sum.splits if_splits prod.splits option.splits)
qed

lemma p11_sign_keeps: "p11_sign verify a msg b = (b', r) \<Longrightarrow> keeps b b'"
proof -
  have "keeps b y" if "(if pSessionOpen b then (b, None) else reopen (saReopen a) b) = (x, e)" "module_sign a msg x = (y, s)" for x e y s
    using keeps_trans [OF open_keeps [OF that(1)] module_sign_keeps [OF that(2)]] .
  moreover assume "p11_sign verify a msg b = (b', r)"
  ultimately show ?thesis using open_keeps
    by (auto simp: p11_sign_def split: option.splits prod.splits sum.splits if_splits)
qed

lemma p11_sign_ok:
  "p11_sign verify a msg b = (b', Inr sig) \<Longrightarrow> \<exists>pub. pPub b' = Some pub \<and> length sig = 64 \<and> verify pub msg sig"
  by (auto simp: p11_sign_def split: option.splits prod.splits sum.splits if_splits)

lemma verify_keeps: "p11_VerifyCanSign verify env b = (b', r) \<Longrightarrow> keeps b b'"
  by (auto simp: p11_VerifyCanSign_def split: option.splits prod.splits sum.splits if_splits
      dest!: p11_sign_keeps intro: keeps_trans)

lemma precheck_keeps: "p11_precheck ao ak ctxErr b = (b', r) \<Longrightarrow> keeps b b'"
proof -
  have "keeps b y" if "(if pSessionOpen b then (b, None) else reopen ao b) = (x, e)" "p11_keys ak x = (y, s)" for x e y s
    using keeps_trans [OF open_keeps [OF that(1)] calm_keeps [OF calm_keys [OF that(2)]]] .
  moreover assume "p11_precheck ao ak ctxErr b = (b', r)"
  ultimately show ?thesis using open_keeps
    by (auto simp: p11_precheck_def split: option.splits prod.splits sum.splits if_splits)
qed

subsection \<open>Runs\<close>

datatype p11_op =
    OpSign sign_answers bytes
  | OpVerify preflight_env
  | OpPrecheck open_answers open_answers "go_error option"
  | OpClose "p11_error option" "go_error option"

fun p11_step :: "(bytes \<Rightarrow> bytes \<Rightarrow> bytes \<Rightarrow> bool) \<Rightarrow> p11_op \<Rightarrow> PKCS11 \<Rightarrow> PKCS11" where
  "p11_step verify (OpSign a msg) b = fst (p11_sign verify a msg b)"
| "p11_step verify (OpVerify env) b = fst (p11_VerifyCanSign verify env b)"
| "p11_step verify (OpPrecheck ao ak ctxErr) b = fst (p11_precheck ao ak ctxErr b)"
| "p11_step verify (OpClose ce re) b = fst (p11_Close ce re b)"

definition p11_run :: "(bytes \<Rightarrow> bytes \<Rightarrow> bytes \<Rightarrow> bool) \<Rightarrow> p11_op list \<Rightarrow> PKCS11 \<Rightarrow> PKCS11" where
  "p11_run verify ops b = fold (p11_step verify) ops b"

lemma close_pin_inv: "pin_inv b \<Longrightarrow> pin_inv (fst (p11_Close ce re b)) \<and> (pPub b \<noteq> None \<longrightarrow> pPub (fst (p11_Close ce re b)) = pPub b)"
  by (auto simp: p11_Close_def Let_def pin_inv_def pin_scan_append)

lemma p11_step_inv:
  assumes "pin_inv b"
  shows "pin_inv (p11_step verify op b)" "pPub b \<noteq> None \<Longrightarrow> pPub (p11_step verify op b) = pPub b"
proof -
  have "keeps b (p11_step verify op b) \<or> (\<exists>ce re. op = OpClose ce re)"
  proof (cases op)
    case (OpSign a msg)
    then show ?thesis using p11_sign_keeps [of verify a msg b] by (metis p11_step.simps(1) prod.collapse)
  next
    case (OpVerify env)
    then show ?thesis using verify_keeps [of verify env b] by (metis p11_step.simps(2) prod.collapse)
  next
    case (OpPrecheck ao ak ctxErr)
    then show ?thesis using precheck_keeps [of ao ak ctxErr b] by (metis p11_step.simps(3) prod.collapse)
  qed simp
  then show "pin_inv (p11_step verify op b)" "pPub b \<noteq> None \<Longrightarrow> pPub (p11_step verify op b) = pPub b"
    using assms close_pin_inv by (auto simp: keeps_def)
qed

lemma p11_run_inv:
  "pin_inv b \<Longrightarrow> pin_inv (p11_run verify ops b) \<and> (pPub b \<noteq> None \<longrightarrow> pPub (p11_run verify ops b) = pPub b)"
  unfolding p11_run_def by (induction ops arbitrary: b) (use p11_step_inv in auto)

lemma newPKCS11_inv: "newPKCS11 pe a ce re cfg = (b, r) \<Longrightarrow> pin_inv b \<and> (\<forall>path. r = Inr path \<longrightarrow> pPub b \<noteq> None)"
proof -
  let ?b = "\<lparr>pCfg = cfg, pSession = 0, pSessionOpen = False, pPrivate = 0, pPub = None, pPinFailure = None,
               pClosed = False, pCalls = []\<rparr>"
  have i0: "pin_inv ?b" by (simp add: pin_inv_def)
  have i1: "pin_inv x" "y = None \<Longrightarrow> pPub x \<noteq> None" if "reopen a ?b = (x, y)" for x y
    using reopen_keeps [OF that] i0 by (auto simp: keeps_def)
  assume "newPKCS11 pe a ce re cfg = (b, r)"
  then show ?thesis using i0 i1 close_pin_inv
    by (auto simp: newPKCS11_def Let_def split: option.splits sum.splits prod.splits)
qed

subsection \<open>Properties\<close>

text \<open>
  C15: a wrong PIN is tried once. Over every sequence of signatures, preflights, claims and closes on
  a backend, whatever the module answers, no login attempt is ever made after one that the token
  refused with an incorrect or locked PIN, so the backend cannot use up the token's retry counter.
  The public key found first stays the backend's key across every session recovery.
\<close>
theorem wrong_pin_tried_once:
  assumes "newPKCS11 pe a ce re cfg = (b, r)"
  shows "(\<forall>xs h ys. pCalls (p11_run verify ops b) = xs @ CallLogin h True # ys \<longrightarrow> list_all (\<lambda>c. \<not> is_login c) ys) \<and>
    (pPub b \<noteq> None \<longrightarrow> pPub (p11_run verify ops b) = pPub b)"
proof -
  have inv: "pin_inv (p11_run verify ops b)" "pPub b \<noteq> None \<longrightarrow> pPub (p11_run verify ops b) = pPub b"
    using p11_run_inv newPKCS11_inv [OF assms] by blast+
  have "list_all (\<lambda>c. \<not> is_login c) ys" if "pCalls (p11_run verify ops b) = xs @ CallLogin h True # ys" for xs h ys
    using inv(1) pin_scan_latched by (auto simp: pin_inv_def that pin_scan_append split: option.splits if_splits)
  with inv(2) show ?thesis by blast
qed

definition ex_open :: open_answers where
  "ex_open = \<lparr>oaTokens = Inr [(7, ''hsm'')], oaMechanisms = Inr [0x1057], oaPin = Inr ''1234'', oaOpen = Inr 5, oaLogin = None,
     oaFind = (\<lambda>p. Inr [if p then 11 else 12]),
     oaKey = (\<lambda>obj p. Inr \<lparr>pkClass = (if p then 3 else 2), pkKeyType = 0x40, pkSign = True, pkSensitive = True,
       pkNonExtractable = True, pkParams = map char_of [6, 3, 43, 101, 112 :: nat], pkPoint = replicate 32 (CHR ''k'')\<rparr>)\<rparr>"

definition ex_p11_config :: PKCS11Config where
  "ex_p11_config = \<lparr>pcModule = ''/lib'', pcTokenLabel = ''hsm'', pcSlot = None, pcKeyLabel = ''val'', pcKeyID = [],
     pcPINFile = ''/pin'', pcBindingFile = ''/b''\<rparr>"

definition ex_p11 :: PKCS11 where
  "ex_p11 = \<lparr>pCfg = ex_p11_config, pSession = 5, pSessionOpen = True, pPrivate = 11, pPub = Some (replicate 32 (CHR ''k'')),
     pPinFailure = None, pClosed = False,
     pCalls = [CallTokens, CallMechanisms 7, CallOpen 7, CallLogin 5 False, CallFind 5 True, CallKey 5 11 True, CallFind 5 False,
       CallKey 5 12 False]\<rparr>"

lemma ex_open_simps:
  "oaTokens ex_open = Inr [(7, ''hsm'')]" "oaMechanisms ex_open = Inr [0x1057]" "oaPin ex_open = Inr ''1234''"
  "oaOpen ex_open = Inr 5" "oaLogin ex_open = None"
  by (simp_all add: ex_open_def)

lemma ex_key_found:
  "find_key ex_open p b =
     (b\<lparr>pCalls := pCalls b @ [CallFind (pSession b) p, CallKey (pSession b) (if p then 11 else 12) p]\<rparr>,
      Inr (if p then 11 else 12, (case oaKey ex_open (if p then 11 else 12) p of Inr k \<Rightarrow> k)))"
  by (cases p) (simp_all add: find_key_def ex_open_def Let_def log_calls_def check_key_def check_def pkcs11Edwards_def ed25519_params_def)

lemma ex_new_p11: "newPKCS11 ex_paths ex_open None None ex_p11_config = (ex_p11, Inr ''/b'')"
proof -
  have "p11_keys ex_open b = (b\<lparr>pCalls := pCalls b @ [CallFind (pSession b) True, CallKey (pSession b) 11 True,
      CallFind (pSession b) False, CallKey (pSession b) 12 False]\<rparr>, Inr (11, replicate 32 (CHR ''k'')))" for b
    by (simp add: p11_keys_def ex_key_found raw_point_def Let_def) (simp add: ex_open_def)
  then have "reopen ex_open \<lparr>pCfg = ex_p11_config, pSession = 0, pSessionOpen = False, pPrivate = 0, pPub = None,
      pPinFailure = None, pClosed = False, pCalls = []\<rparr> = (ex_p11, None)"
    by (simp add: reopen_def login_and_keys_def Let_def dropSession_def log_calls_def selects_def ex_p11_config_def
        TrimRight_def pkcs11EdDSA_def ex_p11_def ex_open_simps)
  moreover have "ValidatePKCS11Config ex_p11_config = None"
    by (simp add: ValidatePKCS11Config_def ex_p11_config_def)
  moreover have "resolveBindingPath ex_paths ''/b'' = Inr ''/b''"
    by (simp add: resolveBindingPath_def ex_paths_def clean_dir_def path_dir_def path_base_def path_join_def Let_def)
  ultimately show ?thesis by (simp add: newPKCS11_def Let_def) (simp add: ex_p11_config_def)
qed

text \<open>A session is lost, the token refuses the PIN when it is opened again, and another signature is asked for.\<close>

definition ex_lost :: sign_answers where
  "ex_lost = \<lparr>saReopen = ex_open, saSign = Inl (P11Error (Some 0xb3) (errors_New [])),
     saRecover = ex_open\<lparr>oaLogin := Some (P11Error (Some 0xa0) (errors_New []))\<rparr>, saRetry = Inl (P11Error None (errors_New []))\<rparr>"

lemma ex_lost_calls:
  "pCalls (p11_run verify [OpSign ex_lost ''m'', OpSign ex_lost ''m''] ex_p11) =
     (pCalls ex_p11 @ [CallSign 5 11 ''m'', CallClose 5, CallTokens, CallMechanisms 7, CallOpen 7]) @ CallLogin 5 True # [CallClose 5]"
  by (simp add: p11_run_def p11_sign_def module_sign_def reopen_def login_and_keys_def dropSession_def log_calls_def
      ex_lost_def ex_p11_def ex_open_simps session_lost_def pkcs11Code_def selects_def ex_p11_config_def
      pkcs11EdDSA_def TrimRight_def pin_failure_def Let_def)

theorem wrong_pin_tried_once_witness:
  "\<exists>xs ys. pCalls (p11_run (\<lambda>_ _ _. True) [OpSign ex_lost ''m'', OpSign ex_lost ''m''] ex_p11) = xs @ CallLogin 5 True # ys \<and>
     list_all (\<lambda>c. \<not> is_login c) ys \<and>
     pPub (p11_run (\<lambda>_ _ _. True) [OpSign ex_lost ''m'', OpSign ex_lost ''m''] ex_p11) = Some (replicate 32 (CHR ''k''))"
proof -
  note t = wrong_pin_tried_once [OF ex_new_p11, of "\<lambda>_ _ _. True" "[OpSign ex_lost ''m'', OpSign ex_lost ''m'']"]
  have "pPub ex_p11 = Some (replicate 32 (CHR ''k''))" by (simp add: ex_p11_def)
  with t ex_lost_calls [of "\<lambda>_ _ _. True"] show ?thesis by (metis option.distinct(1))
qed

text \<open>
  C16: a signature the backend returns has 64 bytes and verifies under the public key that was pinned
  when the backend was built; after Close nothing is signed and the module is not called any more.
\<close>
theorem pkcs11_signatures_verify:
  assumes "newPKCS11 pe a ce re cfg = (b0, Inr path)" "b = p11_run verify ops b0"
  shows "(\<forall>sa msg b' sig. p11_sign verify sa msg b = (b', Inr sig) \<longrightarrow>
      length sig = 64 \<and> (\<exists>pub. pPub b0 = Some pub \<and> verify pub msg sig)) \<and>
    (\<forall>ce' re' sa msg. p11_sign verify sa msg (fst (p11_Close ce' re' b)) =
       (fst (p11_Close ce' re' b), Inl (errors_New ''pkcs11 backend is closed'')))"
proof -
  have pub: "pPub b = pPub b0" "pPub b0 \<noteq> None" and inv: "pin_inv b"
    using p11_run_inv [of b0 verify ops] newPKCS11_inv [OF assms(1)] assms(2) by auto
  have "length sig = 64 \<and> (\<exists>pub. pPub b0 = Some pub \<and> verify pub msg sig)" if "p11_sign verify sa msg b = (b', Inr sig)" for sa msg b' sig
    using p11_sign_ok [OF that] p11_sign_keeps [OF that] pub by (auto simp: keeps_def)
  moreover have "pClosed (fst (p11_Close ce' re' b))" for ce' re'
    by (simp add: p11_Close_def Let_def)
  ultimately show ?thesis by (auto simp: p11_sign_def)
qed

definition ex_sign :: sign_answers where
  "ex_sign = \<lparr>saReopen = ex_open, saSign = Inr (replicate 64 (CHR ''s'')), saRecover = ex_open, saRetry = Inl (P11Error None (errors_New []))\<rparr>"

theorem pkcs11_signatures_verify_witness:
  "\<exists>b'. p11_sign (\<lambda>p m s. p = replicate 32 (CHR ''k'')) ex_sign ''m'' ex_p11 = (b', Inr (replicate 64 (CHR ''s''))) \<and>
     length (replicate 64 (CHR ''s'')) = 64"
proof -
  let ?v = "\<lambda>p m s. p = replicate 32 (CHR ''k'')"
  have s: "\<exists>b'. p11_sign ?v ex_sign ''m'' ex_p11 = (b', Inr (replicate 64 (CHR ''s'')))"
    by (simp add: p11_sign_def ex_p11_def module_sign_def ex_sign_def Let_def)
  have r: "ex_p11 = p11_run ?v [] ex_p11" by (simp add: p11_run_def)
  from pkcs11_signatures_verify [OF ex_new_p11 r] s show ?thesis by blast
qed

end
