(* ===== verification/Pkcs11Native.thy ===== *)
theory Pkcs11Native
  imports Pkcs11 "HOL-Library.Multiset"
begin

section \<open>The native PKCS\#11 module (internal/backend/pkcs11_cgo.go)\<close>

text \<open>
  The process-wide tables behind \<^verbatim>\<open>nativePKCS11\<close>: the loaded modules with their reference counts,
  and the PIN failures per token. The Cryptoki library is a parameter: each call receives its answer.
  A file identity (\<^verbatim>\<open>os.FileInfo\<close> under \<^verbatim>\<open>os.SameFile\<close>) is a number. \<open>rgFiles\<close> is in the order in
  which the map happens to be iterated.
\<close>

subsection \<open>The module registry\<close>

record module_entry =
  meRefs :: int
  meOwned :: bool

datatype native_call = NInitialize string | NFinalize string | NDestroy string

record registry =
  rgEntries :: "string \<rightharpoonup> module_entry"
  rgFiles :: "(string \<times> nat) list"

datatype init_answer = LoadFailed | InitOk | InitAlready | InitFailed go_error

record acquire_env =
  aqAbs :: "string result"
  aqEval :: "string \<Rightarrow> string result"
  aqStat :: "string \<Rightarrow> nat result"
  aqInit :: init_answer

text \<open>The search for a known path of the same file; stale identities of unloaded modules are dropped.\<close>

fun find_known ::
  "(string \<Rightarrow> nat result) \<Rightarrow> (string \<rightharpoonup> module_entry) \<Rightarrow> nat \<Rightarrow> string \<Rightarrow> (string \<times> nat) list \<Rightarrow>
   (string \<times> nat) list \<times> string result" where
  "find_known stat entries info path [] = ([], Inr path)"
| "find_known stat entries info path ((kp, ki) # fs) =
     (let rest = find_known stat entries info path fs in
      if ki \<noteq> info then ((kp, ki) # fst rest, snd rest)
      else if entries kp \<noteq> None then ((kp, ki) # fs, Inr kp)
      else case stat kp of
        Inl e \<Rightarrow>
          if errors_is e OsErrNotExist then rest
          else ((kp, ki) # fs, Inl (Errorf ''inspect cached pkcs11 module'' [e]))
      | Inr current \<Rightarrow> if current \<noteq> ki then rest else ((kp, ki) # fs, Inr kp))"

definition acquirePKCS11Module :: "acquire_env \<Rightarrow> registry \<Rightarrow> registry \<times> native_call list \<times> string result" where
  "acquirePKCS11Module env rg =
     (case aqAbs env of
        Inl e \<Rightarrow> (rg, [], Inl (Errorf ''resolve pkcs11 module'' [e]))
      | Inr absPath \<Rightarrow>
     (case aqEval env absPath of
        Inl e \<Rightarrow> (rg, [], Inl (Errorf ''resolve pkcs11 module'' [e]))
      | Inr loadPath \<Rightarrow>
     (case aqStat env loadPath of
        Inl e \<Rightarrow> (rg, [], Inl (Errorf ''inspect pkcs11 module'' [e]))
      | Inr info \<Rightarrow>
     (let (files, found) = find_known (aqStat env) (rgEntries rg) info loadPath (rgFiles rg); rg1 = rg\<lparr>rgFiles := files\<rparr> in
      case found of
        Inl e \<Rightarrow> (rg1, [], Inl e)
      | Inr path \<Rightarrow>
     (case rgEntries rg1 path of
        Some entry \<Rightarrow> (rg1\<lparr>rgEntries := (rgEntries rg1)(path \<mapsto> entry\<lparr>meRefs := meRefs entry + 1\<rparr>)\<rparr>, [], Inr path)
      | None \<Rightarrow>
         (let put = (\<lambda>owned. (\<lparr>rgEntries = (rgEntries rg1)(path \<mapsto> \<lparr>meRefs = 1, meOwned = owned\<rparr>),
                rgFiles = AList.update path info (rgFiles rg1)\<rparr>, [NInitialize path], Inr path)) in
          case aqInit env of
            LoadFailed \<Rightarrow> (rg1, [], Inl (errors_New ''load pkcs11 module''))
          | InitFailed e \<Rightarrow> (rg1, [NInitialize path, NDestroy path], Inl (Errorf ''initialize pkcs11 module'' [e]))
          | InitOk \<Rightarrow> put True
          | InitAlready \<Rightarrow> put False))))))"

text \<open>The release closure of a handle; \<open>path\<close> is the key it captured.\<close>

definition releasePKCS11Module :: "string \<Rightarrow> go_error option \<Rightarrow> registry \<Rightarrow> registry \<times> native_call list \<times> go_error option" where
  "releasePKCS11Module path finalizeErr rg =
     (case rgEntries rg path of
        None \<Rightarrow> (rg, [], None)
      | Some entry \<Rightarrow>
          if meRefs entry - 1 \<noteq> 0
          then (rg\<lparr>rgEntries := (rgEntries rg)(path \<mapsto> entry\<lparr>meRefs := meRefs entry - 1\<rparr>)\<rparr>, [], None)
          else (rg\<lparr>rgEntries := (rgEntries rg)(path := None)\<rparr>,
                (if meOwned entry then [NFinalize path] else []) @ [NDestroy path],
                if meOwned entry then finalizeErr else None))"

text \<open>
  The process: which handles are out, and every acquire and release. A handle is released once,
  because \<^verbatim>\<open>PKCS11.Close\<close> runs once.
\<close>

datatype registry_op = Acquire acquire_env | Release string "go_error option"

fun registry_step :: "registry_op \<Rightarrow> registry \<times> string multiset \<Rightarrow> (registry \<times> string multiset) \<times> native_call list" where
  "registry_step (Acquire env) (rg, handles) =
     (case acquirePKCS11Module env rg of
        (rg', cs, Inr p) \<Rightarrow> ((rg', add_mset p handles), cs)
      | (rg', cs, Inl _) \<Rightarrow> ((rg', handles), cs))"
| "registry_step (Release p fe) (rg, handles) =
     (if p \<in># handles then (case releasePKCS11Module p fe rg of (rg', cs, _) \<Rightarrow> ((rg', handles - {#p#}), cs))
      else ((rg, handles), []))"

definition registry_run :: "registry_op list \<Rightarrow> registry \<times> string multiset" where
  "registry_run ops = fold (\<lambda>op st. fst (registry_step op st)) ops (\<lparr>rgEntries = Map.empty, rgFiles = []\<rparr>, {#})"

definition registry_inv :: "registry \<times> string multiset \<Rightarrow> bool" where
  "registry_inv st \<longleftrightarrow>
     (\<forall>p. case rgEntries (fst st) p of None \<Rightarrow> p \<notin># snd st | Some en \<Rightarrow> meRefs en = int (count (snd st) p) \<and> p \<in># snd st)"

lemma registry_inv_iff:
  "registry_inv (rg, h) \<longleftrightarrow>
     (\<forall>p. (rgEntries rg p = None \<longrightarrow> count h p = 0) \<and> (\<forall>en. rgEntries rg p = Some en \<longrightarrow> meRefs en = int (count h p) \<and> count h p > 0))"
  by (auto simp: registry_inv_def count_eq_zero_iff split: option.splits)

lemma registry_acquire_inv:
  assumes "registry_inv (rg, h)" "acquirePKCS11Module env rg = (rg', cs, r)"
  shows "registry_inv (rg', case r of Inr p \<Rightarrow> add_mset p h | Inl _ \<Rightarrow> h)"
  using assms unfolding registry_inv_iff
  by (auto simp: acquirePKCS11Module_def Let_def split: sum.splits prod.splits option.splits init_answer.splits)

lemma registry_release_inv:
  assumes "registry_inv (rg, h)" "p \<in># h" "releasePKCS11Module p fe rg = (rg', cs, r)"
  shows "registry_inv (rg', h - {#p#})"
    "NFinalize q \<in> set cs \<or> NDestroy q \<in> set cs \<Longrightarrow> q = p \<and> p \<notin># h - {#p#}"
proof -
  obtain en where en: "rgEntries rg p = Some en" "meRefs en = int (count h p)" "count h p > 0"
    using assms(1,2) by (cases "rgEntries rg p") (auto simp: registry_inv_iff simp flip: count_greater_zero_iff)
  show "registry_inv (rg', h - {#p#})"
  proof (cases "count h p = 1")
    case True
    with assms en show ?thesis by (auto simp: registry_inv_iff releasePKCS11Module_def)
  next
    case False
    have gt: "count h p > 1" using False en(3) by linarith
    then have "int (count h p - 1) = int (count h p) - 1" by simp
    with gt assms en show ?thesis by (auto simp: registry_inv_iff releasePKCS11Module_def)
  qed
  show "NFinalize q \<in> set cs \<or> NDestroy q \<in> set cs \<Longrightarrow> q = p \<and> p \<notin># h - {#p#}"
    using assms(3) en by (auto simp: releasePKCS11Module_def not_in_iff split: if_splits)
qed

lemma registry_run_inv: "registry_inv (registry_run ops)"
proof -
  have step: "registry_inv (fst (registry_step op st))" if "registry_inv st" for op st
  proof (cases op)
    case (Acquire env)
    obtain rg h where st: "st = (rg, h)" by fastforce
    obtain rg' cs r where a: "acquirePKCS11Module env rg = (rg', cs, r)" by (metis prod_cases3)
    from registry_acquire_inv [OF that [unfolded st] a] show ?thesis by (cases r) (simp_all add: Acquire st a)
  next
    case (Release p fe)
    obtain rg h where st: "st = (rg, h)" by fastforce
    obtain rg' cs r where a: "releasePKCS11Module p fe rg = (rg', cs, r)" by (metis prod_cases3)
    show ?thesis using registry_release_inv(1) [OF that [unfolded st] _ a] that st by (auto simp: Release a)
  qed
  have "registry_inv st \<Longrightarrow> registry_inv (fold (\<lambda>op st. fst (registry_step op st)) ops st)" for st
    by (induction ops arbitrary: st) (simp_all add: step)
  then show ?thesis by (simp add: registry_run_def registry_inv_def)
qed

subsection \<open>The PIN latch of the process\<close>

record token_id =
  tkManufacturer :: string
  tkModel :: string
  tkSerial :: string

type_synonym pin_failures = "token_id \<rightharpoonup> p11_error"

record login_env =
  lgSession :: "nat p11_result"
  lgToken :: "token_id p11_result"
  lgLogin :: "p11_error option"

text \<open>Whether \<^verbatim>\<open>C_Login\<close> was reached is returned beside the result.\<close>

definition native_Login :: "login_env \<Rightarrow> pin_failures \<Rightarrow> pin_failures \<times> token_id option \<times> p11_error option" where
  "native_Login env pf =
     (case lgSession env of
        Inl e \<Rightarrow> (pf, None, Some e)
      | Inr _ \<Rightarrow>
     (case lgToken env of
        Inl e \<Rightarrow> (pf, None, Some e)
      | Inr tok \<Rightarrow>
          if TrimSpace (tkSerial tok) = []
          then (pf, None, Some (P11Error None (errors_New ''pkcs11 token must report a serial number for PIN retry protection'')))
          else
     (case pf tok of
        Some failure \<Rightarrow> (pf, None, Some failure)
      | None \<Rightarrow>
     (case lgLogin env of
        None \<Rightarrow> (pf, Some tok, None)
      | Some e \<Rightarrow>
          if pkcs11Code e [0xa0, 0xa4]
          then let latched = P11Error (p11_code e) (Errorf ''pkcs11 PIN failure latched for this process'' [p11_go e])
               in (pf(tok \<mapsto> latched), Some tok, Some latched)
          else (pf, Some tok, Some e)))))"

text \<open>The tokens \<^verbatim>\<open>C_Login\<close> was called on, each with whether it refused the PIN.\<close>

fun logins :: "login_env list \<Rightarrow> pin_failures \<Rightarrow> pin_failures \<times> (token_id \<times> bool) list" where
  "logins [] pf = (pf, [])"
| "logins (env # envs) pf =
     (let (pf', reached, r) = native_Login env pf; (pf'', ls) = logins envs pf' in
      (pf'', (case reached of None \<Rightarrow> [] | Some tok \<Rightarrow> [(tok, pf' tok \<noteq> None)]) @ ls))"

lemma native_Login_spec:
  assumes "native_Login env pf = (pf', reached, r)"
  shows "pf tok \<noteq> None \<Longrightarrow> pf' tok = pf tok" "reached = Some tok \<Longrightarrow> pf tok = None"
  using assms by (auto simp: native_Login_def Let_def split: sum.splits option.splits if_splits)

lemma logins_latched: "pf tok \<noteq> None \<Longrightarrow> \<forall>b. (tok, b) \<notin> set (snd (logins envs pf))"
proof (induction envs arbitrary: pf)
  case (Cons env envs)
  obtain pf' reached r where l: "native_Login env pf = (pf', reached, r)" by (metis prod_cases3)
  have "pf' tok \<noteq> None" "reached \<noteq> Some tok" using native_Login_spec [OF l] Cons.prems by auto
  with Cons.IH [of pf'] show ?case by (auto simp: l case_prod_beta Let_def split: option.splits)
qed simp

subsection \<open>Queries\<close>

definition CKR_TOKEN_NOT_PRESENT :: nat where "CKR_TOKEN_NOT_PRESENT = 0xe0"

fun native_Tokens :: "(nat \<times> string p11_result) list \<Rightarrow> (nat \<times> string) list p11_result" where
  "native_Tokens [] = Inr []"
| "native_Tokens ((slot, info) # slots) =
     (case info of
        Inl e \<Rightarrow> if p11_code e = Some CKR_TOKEN_NOT_PRESENT then native_Tokens slots else Inl e
      | Inr label \<Rightarrow> (case native_Tokens slots of Inl e \<Rightarrow> Inl e | Inr ts \<Rightarrow> Inr ((slot, label) # ts)))"

text \<open>
  \<^verbatim>\<open>FindObjects\<close> is asked for what is missing to two objects until it answers none; each answer
  is one element. \<open>None\<close> when the answers end before the loop does.
\<close>

fun find_loop :: "nat list \<Rightarrow> nat list p11_result list \<Rightarrow> nat list p11_result option" where
  "find_loop objects answers =
     (if length objects \<ge> 2 then Some (Inr objects)
      else case answers of
        [] \<Rightarrow> None
      | Inl e # _ \<Rightarrow> Some (Inl e)
      | Inr found # rest \<Rightarrow> if found = [] then Some (Inr objects) else find_loop (objects @ found) rest)"

declare find_loop.simps [simp del]

record find_env =
  fdInit :: "p11_error option"
  fdAnswers :: "nat list p11_result list"
  fdFinal :: "p11_error option"

definition join_p11 :: "p11_error option \<Rightarrow> p11_error option \<Rightarrow> p11_error option" where
  "join_p11 a b =
     (case (a, b) of
        (None, None) \<Rightarrow> None
      | _ \<Rightarrow> Some (P11Error (case a of Some e \<Rightarrow> (case p11_code e of Some c \<Rightarrow> Some c | None \<Rightarrow> (case b of Some f \<Rightarrow> p11_code f | None \<Rightarrow> None))
                                    | None \<Rightarrow> (case b of Some f \<Rightarrow> p11_code f | None \<Rightarrow> None))
               (Errorf [] (List.map_filter (map_option p11_go) [a, b]))))"

definition native_Find :: "find_env \<Rightarrow> PKCS11Config \<Rightarrow> nat list p11_result option" where
  "native_Find env cfg =
     (if pcKeyID cfg \<noteq> [] \<and> hex_decode (pcKeyID cfg) = None then Some (Inl (P11Error None (errors_New ''hex'')))
      else case fdInit env of
        Some e \<Rightarrow> Some (Inl e)
      | None \<Rightarrow>
          map_option (\<lambda>r. case join_p11 (case r of Inl e \<Rightarrow> Some e | Inr _ \<Rightarrow> None) (fdFinal env) of
              Some e \<Rightarrow> Inl e
            | None \<Rightarrow> r) (find_loop [] (fdAnswers env)))"

text \<open>
  \<^verbatim>\<open>Key\<close> reads attributes by type; a class, key type or flag counts only when the value is the
  encoding of what is expected.
\<close>

datatype attribute_type = CKA_CLASS | CKA_KEY_TYPE | CKA_SIGN | CKA_SENSITIVE | CKA_EXTRACTABLE | CKA_EC_PARAMS | CKA_EC_POINT | CKA_OTHER

datatype attribute_value = VNum nat | VBool bool

definition zero_key :: pkcs11Key where
  "zero_key = \<lparr>pkClass = 0, pkKeyType = 0, pkSign = False, pkSensitive = False, pkNonExtractable = False, pkParams = [], pkPoint = []\<rparr>"

definition read_attribute ::
  "(attribute_value \<Rightarrow> bytes) \<Rightarrow> bool \<Rightarrow> attribute_type \<times> bytes \<Rightarrow> pkcs11Key \<Rightarrow> pkcs11Key" where
  "read_attribute enc private a key =
     (case fst a of
        CKA_CLASS \<Rightarrow> let cls = (if private then 3 else 2) in if snd a = enc (VNum cls) then key\<lparr>pkClass := cls\<rparr> else key
      | CKA_KEY_TYPE \<Rightarrow> if snd a = enc (VNum pkcs11Edwards) then key\<lparr>pkKeyType := pkcs11Edwards\<rparr> else key
      | CKA_SIGN \<Rightarrow> key\<lparr>pkSign := (snd a = enc (VBool True))\<rparr>
      | CKA_SENSITIVE \<Rightarrow> key\<lparr>pkSensitive := (snd a = enc (VBool True))\<rparr>
      | CKA_EXTRACTABLE \<Rightarrow> key\<lparr>pkNonExtractable := (snd a = enc (VBool False))\<rparr>
      | CKA_EC_PARAMS \<Rightarrow> key\<lparr>pkParams := snd a\<rparr>
      | CKA_EC_POINT \<Rightarrow> key\<lparr>pkPoint := snd a\<rparr>
      | CKA_OTHER \<Rightarrow> key)"

definition native_Key ::
  "(attribute_value \<Rightarrow> bytes) \<Rightarrow> bool \<Rightarrow> (attribute_type \<times> bytes) list p11_result \<Rightarrow> pkcs11Key p11_result" where
  "native_Key enc private attributes =
     (case attributes of Inl e \<Rightarrow> Inl e | Inr as \<Rightarrow> Inr (fold (read_attribute enc private) as zero_key))"

subsection \<open>Properties\<close>

text \<open>
  Over every sequence of acquisitions and releases, the reference count of a loaded module is the
  number of backends that hold it, and a release finalizes or unloads a module only when no other
  backend holds it any more.
\<close>
theorem module_unloaded_when_unused:
  assumes "registry_run ops = (rg, h)"
  shows "(\<forall>p en. rgEntries rg p = Some en \<longrightarrow> meRefs en = int (count h p)) \<and>
    (\<forall>p. rgEntries rg p = None \<longrightarrow> p \<notin># h) \<and>
    (\<forall>p fe q. p \<in># h \<and> (NFinalize q \<in> set (snd (registry_step (Release p fe) (rg, h))) \<or>
        NDestroy q \<in> set (snd (registry_step (Release p fe) (rg, h)))) \<longrightarrow>
      q \<notin># snd (fst (registry_step (Release p fe) (rg, h))))"
proof -
  have inv: "registry_inv (rg, h)" using registry_run_inv [of ops] assms by simp
  have "q \<notin># h - {#p#}"
    if "p \<in># h" "releasePKCS11Module p fe rg = (rg', cs, r)" "NFinalize q \<in> set cs \<or> NDestroy q \<in> set cs" for p fe q rg' cs r
    using registry_release_inv(2) [OF inv that] by blast
  then show ?thesis using inv by (auto simp: registry_inv_iff not_in_iff split: prod.splits)
qed

definition ex_acquire :: acquire_env where
  "ex_acquire = \<lparr>aqAbs = Inr ''/lib'', aqEval = Inr, aqStat = (\<lambda>_. Inr 1), aqInit = InitOk\<rparr>"

theorem module_unloaded_when_unused_witness:
  "snd (registry_run [Acquire ex_acquire]) = {#''/lib''#} \<and>
   rgEntries (fst (registry_run [Acquire ex_acquire])) ''/lib'' = Some \<lparr>meRefs = 1, meOwned = True\<rparr>"
proof -
  have r: "registry_run [Acquire ex_acquire] =
      (\<lparr>rgEntries = [''/lib'' \<mapsto> \<lparr>meRefs = 1, meOwned = True\<rparr>], rgFiles = [(''/lib'', 1)]\<rparr>, {#''/lib''#})"
    by (simp add: registry_run_def acquirePKCS11Module_def ex_acquire_def Let_def)
  from module_unloaded_when_unused [OF r] r show ?thesis by simp
qed

text \<open>
  The PIN latch is process-wide. Over every sequence of login attempts by any backends, after the
  token refused a PIN as incorrect or locked, \<^verbatim>\<open>C_Login\<close> is never called again on that token.
\<close>
theorem refused_pin_not_retried:
  "snd (logins envs Map.empty) = xs @ (tok, True) # ys \<longrightarrow> (\<forall>b. (tok, b) \<notin> set ys)"
proof -
  have "(\<forall>b. (tok, b) \<notin> set ys)" if "snd (logins envs pf) = xs @ (tok, True) # ys" for pf
    using that
  proof (induction envs arbitrary: pf xs)
    case (Cons env envs)
    obtain pf' reached r where l: "native_Login env pf = (pf', reached, r)" by (metis prod_cases3)
    show ?case
    proof (cases reached)
      case None
      with Cons show ?thesis by (simp add: l case_prod_beta Let_def)
    next
      case (Some t)
      with Cons.prems have eq: "(t, pf' t \<noteq> None) # snd (logins envs pf') = xs @ (tok, True) # ys"
        by (simp add: l case_prod_beta Let_def)
      show ?thesis
      proof (cases xs)
        case Nil
        with eq have "pf' tok \<noteq> None" "ys = snd (logins envs pf')" by auto
        then show ?thesis using logins_latched by blast
      next
        case (Cons x xs')
        with eq Cons.IH [of pf' xs'] show ?thesis by simp
      qed
    qed
  qed simp
  then show ?thesis by blast
qed

definition ex_login :: login_env where
  "ex_login = \<lparr>lgSession = Inr 0, lgToken = Inr \<lparr>tkManufacturer = [], tkModel = [], tkSerial = ''1''\<rparr>,
     lgLogin = Some (P11Error (Some 0xa0) (errors_New ''pin''))\<rparr>"

lemma ex_login_serial: "TrimSpace ''1'' \<noteq> []"
  by (subst TrimSpace_graphic) simp_all

theorem refused_pin_not_retried_witness:
  "snd (logins [ex_login, ex_login] Map.empty) = [(\<lparr>tkManufacturer = [], tkModel = [], tkSerial = ''1''\<rparr>, True)] \<and>
   (\<forall>b. (\<lparr>tkManufacturer = [], tkModel = [], tkSerial = ''1''\<rparr>, b) \<notin> set [])"
proof -
  have "snd (logins [ex_login, ex_login] Map.empty) = [] @ (\<lparr>tkManufacturer = [], tkModel = [], tkSerial = ''1''\<rparr>, True) # []"
    using ex_login_serial by (simp add: native_Login_def ex_login_def pkcs11Code_def Let_def)
  with refused_pin_not_retried show ?thesis by simp
qed

lemma fold_attribute_last:
  assumes "\<And>a k. fst a \<noteq> t \<Longrightarrow> sel (read_attribute enc prv a k) = sel k"
    "\<And>v k. sel (read_attribute enc prv (t, v) k) \<Longrightarrow> P v \<or> sel k"
    "sel (fold (read_attribute enc prv) ats k)" "\<not> sel k"
  shows "\<exists>v. (t, v) \<in> set ats \<and> P v"
  using assms(3,4)
proof (induction ats arbitrary: k)
  case (Cons a ats)
  show ?case
  proof (cases "sel (read_attribute enc prv a k)")
    case True
    with assms(1) Cons.prems(2) have "fst a = t" by blast
    with True assms(2) [of "snd a" k] Cons.prems(2) have "P (snd a)" by (metis prod.collapse)
    with \<open>fst a = t\<close> show ?thesis by (metis list.set_intros(1) prod.collapse)
  next
    case False
    with Cons show ?thesis by auto
  qed
qed simp

text \<open>
  A private key passes the checks only when the token itself reported it sensitive, not extractable, a
  signing key and of the Edwards key type; the values are compared with their exact encodings.
\<close>

lemma checked_private_key:
  assumes "native_Key enc True (Inr ats) = Inr key" "check_key True key = None"
  shows "(CKA_SENSITIVE, enc (VBool True)) \<in> set ats \<and> (CKA_EXTRACTABLE, enc (VBool False)) \<in> set ats \<and>
    (CKA_SIGN, enc (VBool True)) \<in> set ats \<and> (CKA_KEY_TYPE, enc (VNum pkcs11Edwards)) \<in> set ats"
proof -
  from assms(2) have k: "pkSensitive key" "pkNonExtractable key" "pkSign key" "pkKeyType key = pkcs11Edwards"
    by (simp_all add: check_key_def)
  have f: "key = fold (read_attribute enc True) ats zero_key" using assms(1) by (simp add: native_Key_def)
  have "\<exists>v. (CKA_SENSITIVE, v) \<in> set ats \<and> v = enc (VBool True)"
    by (rule fold_attribute_last [where sel = pkSensitive and enc = enc and prv = True and k = zero_key])
      (use k f in \<open>auto simp: read_attribute_def Let_def zero_key_def split: attribute_type.splits if_splits\<close>)
  moreover have "\<exists>v. (CKA_EXTRACTABLE, v) \<in> set ats \<and> v = enc (VBool False)"
    by (rule fold_attribute_last [where sel = pkNonExtractable and enc = enc and prv = True and k = zero_key])
      (use k f in \<open>auto simp: read_attribute_def Let_def zero_key_def split: attribute_type.splits if_splits\<close>)
  moreover have "\<exists>v. (CKA_SIGN, v) \<in> set ats \<and> v = enc (VBool True)"
    by (rule fold_attribute_last [where sel = pkSign and enc = enc and prv = True and k = zero_key])
      (use k f in \<open>auto simp: read_attribute_def Let_def zero_key_def split: attribute_type.splits if_splits\<close>)
  moreover have "\<exists>v. (CKA_KEY_TYPE, v) \<in> set ats \<and> v = enc (VNum pkcs11Edwards)"
    by (rule fold_attribute_last [where sel = "\<lambda>k. pkKeyType k = pkcs11Edwards" and enc = enc and prv = True and k = zero_key])
      (use k f in \<open>auto simp: read_attribute_def Let_def zero_key_def pkcs11Edwards_def split: attribute_type.splits if_splits\<close>)
  ultimately show ?thesis by blast
qed

definition ex_enc :: "attribute_value \<Rightarrow> bytes" where
  "ex_enc v = (case v of VNum n \<Rightarrow> [char_of n] | VBool b \<Rightarrow> [if b then CHR 0x01 else CHR 0x00])"

definition ex_attributes :: "(attribute_type \<times> bytes) list" where
  "ex_attributes = [(CKA_CLASS, ex_enc (VNum 3)), (CKA_KEY_TYPE, ex_enc (VNum 0x40)), (CKA_EC_PARAMS, map char_of [6, 3, 43, 101, 112 :: nat]),
     (CKA_SIGN, ex_enc (VBool True)), (CKA_SENSITIVE, ex_enc (VBool True)), (CKA_EXTRACTABLE, ex_enc (VBool False))]"

lemma find_loop_returns:
  "length answers \<ge> 2 - length objects \<Longrightarrow> \<exists>r. find_loop objects answers = Some r"
proof (induction objects answers rule: find_loop.induct)
  case (1 objects answers)
  show ?case
  proof (cases "length objects \<ge> 2")
    case False
    with 1(2) obtain x xs where a: "answers = x # xs" by (cases answers) auto
    show ?thesis
    proof (cases x)
      case (Inr found)
      have "found \<noteq> [] \<Longrightarrow> \<exists>r. find_loop (objects @ found) xs = Some r"
        using 1(1) [OF False a Inr] 1(2) False a by (cases found) auto
      with False a Inr show ?thesis by (subst find_loop.simps) auto
    qed (use False a in \<open>subst find_loop.simps, auto\<close>)
  qed (subst find_loop.simps, auto)
qed

text \<open>
  C24: the object search ends: whatever the module answers, two answers are enough for \<^verbatim>\<open>Find\<close> to return.
\<close>
theorem find_terminates:
  assumes "length (fdAnswers env) \<ge> 2"
  shows "\<exists>r. native_Find env cfg = Some r"
  using find_loop_returns [of "[]" "fdAnswers env"] assms
  by (cases "fdInit env") (auto simp: native_Find_def)

theorem find_terminates_witness:
  "\<exists>r. native_Find \<lparr>fdInit = None, fdAnswers = [Inr [1], Inr []], fdFinal = None\<rparr> ex_p11_config = Some r"
  using find_terminates [of "\<lparr>fdInit = None, fdAnswers = [Inr [1], Inr []], fdFinal = None\<rparr>" ex_p11_config] by simp

end
