(* ===== verification/Lifecycle.thy ===== *)
theory Lifecycle
  imports Nodes
begin

section \<open>The connection lifecycle (internal/server/lifecycle.go)\<close>

text \<open>
  One connector per target node, created and retired by the reconcile loop. Connectors are objects
  that outlive their entry in the serving set (a retired one may still be handed a request), so
  they live in a store indexed by numbers; sockets too, by whether they are still open. CometBFT's
  endpoint, server and request handler are third-party code: whether an endpoint is connected,
  whether a server starts and what the handler answers for a chain id are arguments. Durations and
  times are in nanoseconds. Go iterates a map in any order; the model uses the order of its lists.

  A reconcile pass, a health scan and a shutdown run in one goroutine under the lock of the serving
  set; requests, dials and finished stops run in others and take no part in that lock. They act between
  any two steps of a pass: \<open>lcSched\<close> says what they will do at the next points where the pass can be
  interrupted (\<open>preempt\<close>), and the theorems hold for every schedule.
\<close>

subsection \<open>State\<close>

record ServerConfig =
  scChainID :: string
  scTimeoutReadWrite :: int
  scRetryWait :: int
  scReconcileInterval :: int
  scStaleConnTimeout :: int

record nodeServer =
  nsAddr :: string
  nsConnected :: bool
  nsLastActivity :: int
  nsRetired :: bool
  nsDialStopped :: bool
  nsConn :: "nat option"

record servedNode =
  snAddr :: string
  snConnected :: bool
  snServer :: nat

text \<open>What one of the other goroutines does next: a request is handled, a dial connects, does its handshake
  or hands its connection over, the background stop of a retired connector ends.\<close>

datatype other_action =
    Request int nat
  | Connect nat "go_error option"
  | Handshake nat "go_error option" "go_error option"
  | HandOver nat nat
  | StopFinished nat

record Lifecycle =
  lcCfg :: ServerConfig
  lcConns :: "nat \<rightharpoonup> nodeServer"
  lcFresh :: nat
  lcSockets :: "nat \<rightharpoonup> bool"
  lcServers :: "(string \<times> nat) list"
  lcWake :: bool
  lcStopping :: "nat list"
  lcPendingUntil :: int
  lcStatus :: "servedNode list option"
  lcSched :: "other_action list list"

definition New_Lifecycle :: "ServerConfig \<Rightarrow> Lifecycle" where
  "New_Lifecycle cfg =
     \<lparr>lcCfg = cfg\<lparr>scTimeoutReadWrite := (if scTimeoutReadWrite cfg \<le> 0 then 3 * second else scTimeoutReadWrite cfg),
                  scRetryWait := (if scRetryWait cfg \<le> 0 then second div 10 else scRetryWait cfg),
                  scReconcileInterval := (if scReconcileInterval cfg \<le> 0 then 5 * second else scReconcileInterval cfg),
                  scStaleConnTimeout := (if scStaleConnTimeout cfg \<le> 0 then 15 * second else scStaleConnTimeout cfg)\<rparr>,
      lcConns = Map.empty, lcFresh = 0, lcSockets = Map.empty, lcServers = [], lcWake = False, lcStopping = [],
      lcPendingUntil = 0, lcStatus = None, lcSched = []\<rparr>"

text \<open>Changing one connector.\<close>

definition on_conn :: "nat \<Rightarrow> (nodeServer \<Rightarrow> nodeServer) \<Rightarrow> Lifecycle \<Rightarrow> Lifecycle" where
  "on_conn i u l = l\<lparr>lcConns := (lcConns l)(i := map_option u (lcConns l i))\<rparr>"

subsection \<open>One connector\<close>

definition touch :: "int \<Rightarrow> nat \<Rightarrow> Lifecycle \<Rightarrow> Lifecycle" where
  "touch now i = on_conn i (\<lambda>ns. ns\<lparr>nsLastActivity := now\<rparr>)"

definition silentFor :: "int \<Rightarrow> nodeServer \<Rightarrow> int" where
  "silentFor now ns = now - nsLastActivity ns"

text \<open>\<^verbatim>\<open>abort\<close> closes the socket once.\<close>

definition close_socket :: "nat \<Rightarrow> Lifecycle \<Rightarrow> Lifecycle" where
  "close_socket sk l = l\<lparr>lcSockets := (lcSockets l)(sk \<mapsto> False)\<rparr>"

definition closeConn :: "nat \<Rightarrow> Lifecycle \<Rightarrow> Lifecycle" where
  "closeConn i l =
     (case lcConns l i of
        None \<Rightarrow> l
      | Some ns \<Rightarrow> (case nsConn ns of None \<Rightarrow> l | Some sk \<Rightarrow> close_socket sk l))"

definition retiredChainID :: string where
  "retiredChainID = CHR 0x00 # '' cosmosigner retired connection''"

definition handleRequest ::
  "(string \<Rightarrow> 'q \<Rightarrow> 'r) \<Rightarrow> int \<Rightarrow> nat \<Rightarrow> 'q \<Rightarrow> string \<Rightarrow> Lifecycle \<Rightarrow> Lifecycle \<times> 'r" where
  "handleRequest handler now i req chainID l =
     (case lcConns l i of
        Some ns \<Rightarrow>
          if nsRetired ns then (closeConn i l, handler retiredChainID req)
          else (touch now i l, handler chainID req)
      | None \<Rightarrow> (l, handler retiredChainID req))"

definition track :: "nat \<Rightarrow> nat \<Rightarrow> Lifecycle \<Rightarrow> Lifecycle \<times> bool" where
  "track i sk l =
     (case lcConns l i of
        None \<Rightarrow> (l, False)
      | Some ns \<Rightarrow> if nsRetired ns then (l, False) else (on_conn i (\<lambda>ns. ns\<lparr>nsConn := Some sk\<rparr>) l, True))"

definition handOver :: "nat \<Rightarrow> Lifecycle \<Rightarrow> bool" where
  "handOver i l = (case lcConns l i of None \<Rightarrow> False | Some ns \<Rightarrow> \<not> nsRetired ns)"

text \<open>
  \<^verbatim>\<open>dialOnce\<close> in the three parts between which another goroutine may run: the TCP connect with
  \<open>track\<close>, the deadline and handshake, and \<open>handOver\<close>. A socket is open from the connect on.
\<close>

datatype dial_phase = Dialing | Handshaking nat | HandShaken nat | DialReturned nat | DialFailed

definition dial_connect :: "nat \<Rightarrow> go_error option \<Rightarrow> Lifecycle \<Rightarrow> Lifecycle \<times> dial_phase" where
  "dial_connect i dialErr l =
     (case dialErr of
        Some e \<Rightarrow> (l, DialFailed)
      | None \<Rightarrow>
          let sk = lcFresh l; l1 = l\<lparr>lcSockets := (lcSockets l)(sk \<mapsto> True), lcFresh := Suc sk\<rparr>; (l2, ok) = track i sk l1 in
          if ok then (l2, Handshaking sk) else (close_socket sk l2, DialFailed))"

definition dial_handshake :: "nat \<Rightarrow> go_error option \<Rightarrow> go_error option \<Rightarrow> Lifecycle \<Rightarrow> Lifecycle \<times> dial_phase" where
  "dial_handshake sk deadlineErr secretErr l =
     (if deadlineErr \<noteq> None \<or> secretErr \<noteq> None then (close_socket sk l, DialFailed) else (l, HandShaken sk))"

definition dial_handover :: "nat \<Rightarrow> nat \<Rightarrow> Lifecycle \<Rightarrow> Lifecycle \<times> dial_phase" where
  "dial_handover i sk l = (if handOver i l then (l, DialReturned sk) else (close_socket sk l, DialFailed))"

text \<open>
  The retry loop: per round whether \<^verbatim>\<open>dialOnce\<close> returned a connection, whether the dial context had
  ended after it, and whether it ended during the wait. \<open>None\<close> while the loop still runs.
\<close>

record dial_round =
  drConn :: "nat option"
  drStopped :: bool
  drStoppedWaiting :: bool

fun dial_loop :: "dial_round list \<Rightarrow> nat result option" where
  "dial_loop [] = None"
| "dial_loop (r # rs) =
     (case drConn r of
        Some sk \<Rightarrow> Some (Inr sk)
      | None \<Rightarrow>
          if drStopped r \<or> drStoppedWaiting r then Some (Inl (Sentinel ErrConnectorRetired)) else dial_loop rs)"

datatype retireReason = retireNone | retireSilent

definition observe :: "int \<Rightarrow> bool \<Rightarrow> int \<Rightarrow> nodeServer \<Rightarrow> nodeServer \<times> retireReason" where
  "observe staleTimeout isConnected now ns =
     (if isConnected then
        (if \<not> nsConnected ns then (ns\<lparr>nsConnected := True, nsLastActivity := now\<rparr>, retireNone)
         else if silentFor now ns > staleTimeout then (ns, retireSilent)
         else (ns, retireNone))
      else (ns\<lparr>nsConnected := False\<rparr>, retireNone))"

subsection \<open>The other goroutines\<close>

definition requestReconcile :: "Lifecycle \<Rightarrow> Lifecycle" where
  "requestReconcile l = l\<lparr>lcWake := True\<rparr>"

definition stop_finished :: "nat \<Rightarrow> Lifecycle \<Rightarrow> Lifecycle" where
  "stop_finished i l = requestReconcile (l\<lparr>lcStopping := remove1 i (lcStopping l)\<rparr>)"

fun other :: "other_action \<Rightarrow> Lifecycle \<Rightarrow> Lifecycle" where
  "other (Request now i) l = fst (handleRequest (\<lambda>_ _. ()) now i () (scChainID (lcCfg l)) l)"
| "other (Connect i raw) l = fst (dial_connect i raw l)"
| "other (Handshake sk de se) l = fst (dial_handshake sk de se l)"
| "other (HandOver i sk) l = fst (dial_handover i sk l)"
| "other (StopFinished i) l = stop_finished i l"

text \<open>A dial only works on sockets that were opened.\<close>

definition enabled :: "other_action \<Rightarrow> Lifecycle \<Rightarrow> bool" where
  "enabled a l = (case a of Handshake sk _ _ \<Rightarrow> lcSockets l sk \<noteq> None | HandOver _ sk \<Rightarrow> lcSockets l sk \<noteq> None | _ \<Rightarrow> True)"

definition act :: "other_action \<Rightarrow> Lifecycle \<Rightarrow> Lifecycle" where
  "act a l = (if enabled a l then other a l else l)"

text \<open>A point at which a pass is interrupted: the other goroutines take their next turn.\<close>

definition preempt :: "Lifecycle \<Rightarrow> Lifecycle" where
  "preempt l = (case lcSched l of [] \<Rightarrow> l | acts # rest \<Rightarrow> fold act acts (l\<lparr>lcSched := rest\<rparr>))"

subsection \<open>The serving set\<close>

definition discoveryPendingWindow :: "Lifecycle \<Rightarrow> int" where
  "discoveryPendingWindow l =
     (if scReconcileInterval (lcCfg l) > 30 * second then 30 * second else scReconcileInterval (lcCfg l))"

definition watchInterval :: "Lifecycle \<Rightarrow> int" where
  "watchInterval l =
     (let d0 = scStaleConnTimeout (lcCfg l) div 4; d1 = (if d0 < second div 4 then second div 4 else d0)
      in if d1 > scReconcileInterval (lcCfg l) then scReconcileInterval (lcCfg l) else d1)"

definition publishStatus :: "Lifecycle \<Rightarrow> Lifecycle" where
  "publishStatus l =
     l\<lparr>lcStatus := Some (sort_key snAddr
         (map (\<lambda>(a, i). \<lparr>snAddr = a, snConnected = (case lcConns l i of Some ns \<Rightarrow> nsConnected ns | None \<Rightarrow> False), snServer = i\<rparr>)
            (lcServers l)))\<rparr>"

record NodeStatus =
  stAddress :: string
  stConnected :: bool
  stLastActivity :: "int option"

definition Status :: "Lifecycle \<Rightarrow> NodeStatus list" where
  "Status l =
     (case lcStatus l of
        None \<Rightarrow> []
      | Some served \<Rightarrow>
          map (\<lambda>n. \<lparr>stAddress = snAddr n, stConnected = snConnected n,
            stLastActivity = (if snConnected n then map_option nsLastActivity (lcConns l (snServer n)) else None)\<rparr>) served)"

text \<open>
  \<^verbatim>\<open>retire\<close>: the flag, the dial's cancellation, the socket and the entry in the serving set are four
  steps; after each of them the other goroutines may act. The background \<^verbatim>\<open>Stop\<close> is queued in
  \<open>lcStopping\<close> and finishes in \<open>stop_finished\<close>, which asks for a reconcile.
\<close>

definition retire :: "int \<Rightarrow> string \<Rightarrow> nat \<Rightarrow> Lifecycle \<Rightarrow> Lifecycle" where
  "retire now addr i l =
     (let l1 = preempt (on_conn i (\<lambda>ns. ns\<lparr>nsRetired := True\<rparr>) l);
          l2 = preempt (on_conn i (\<lambda>ns. ns\<lparr>nsDialStopped := True\<rparr>) l1);
          l3 = preempt (closeConn i l2)
      in preempt (l3\<lparr>lcServers := AList.delete addr (lcServers l3), lcPendingUntil := now + discoveryPendingWindow l3,
           lcStopping := i # lcStopping l3\<rparr>))"

definition newNodeServer :: "int \<Rightarrow> string \<Rightarrow> nodeServer" where
  "newNodeServer now addr =
     \<lparr>nsAddr = addr, nsConnected = False, nsLastActivity = now, nsRetired = False, nsDialStopped = False, nsConn = None\<rparr>"

text \<open>The connector of a started server exists, and its service loop dials and handles requests, before the
  caller has put it into the serving set. One whose server does not start is dropped with its dial
  stopped.\<close>

definition startOne :: "int \<Rightarrow> (string \<Rightarrow> go_error option) \<Rightarrow> string \<Rightarrow> Lifecycle \<Rightarrow> Lifecycle \<times> nat result" where
  "startOne now startErr addr l =
     (case startErr addr of
        Some e \<Rightarrow> (l, Inl e)
      | None \<Rightarrow>
          let i = lcFresh l
          in (preempt (l\<lparr>lcConns := (lcConns l)(i \<mapsto> newNodeServer now addr), lcFresh := Suc i\<rparr>), Inr i))"

definition stopAll :: "int \<Rightarrow> Lifecycle \<Rightarrow> Lifecycle" where
  "stopAll now l = publishStatus (fold (\<lambda>(a, i). retire now a i) (lcServers l) l)"

text \<open>What one reconcile pass observes.\<close>

record reconcile_env =
  rcLeader :: bool
  rcNodes :: "string list result"
  rcNow :: int
  rcConnected :: "nat \<Rightarrow> bool"
  rcStart :: "string \<Rightarrow> go_error option"

definition review :: "reconcile_env \<Rightarrow> string list \<Rightarrow> string \<times> nat \<Rightarrow> Lifecycle \<Rightarrow> Lifecycle" where
  "review env want ai l =
     (let (addr, i) = ai in
      if addr \<notin> set want then retire (rcNow env) addr i l
      else case lcConns l i of
        None \<Rightarrow> l
      | Some ns \<Rightarrow>
          let (ns', reason) = observe (scStaleConnTimeout (lcCfg l)) (rcConnected env i) (rcNow env) ns;
              l1 = l\<lparr>lcConns := (lcConns l)(i \<mapsto> ns')\<rparr>
          in if reason = retireSilent then retire (rcNow env) addr i l1 else preempt l1)"

definition connect_missing :: "reconcile_env \<Rightarrow> string \<Rightarrow> Lifecycle \<Rightarrow> Lifecycle" where
  "connect_missing env addr l =
     (if map_of (lcServers l) addr \<noteq> None then l
      else (case startOne (rcNow env) (rcStart env) addr l of
          (l1, Inl e) \<Rightarrow> l1
        | (l1, Inr i) \<Rightarrow> preempt (l1\<lparr>lcServers := AList.update addr i (lcServers l1)\<rparr>)))"

definition reconcile :: "reconcile_env \<Rightarrow> Lifecycle \<Rightarrow> Lifecycle" where
  "reconcile env l =
     (if \<not> rcLeader env then stopAll (rcNow env) l
      else case rcNodes env of
        Inl e \<Rightarrow> l
      | Inr desired \<Rightarrow>
          let want = remdups desired; l1 = fold (review env want) (lcServers l) l
          in publishStatus (fold (connect_missing env) want l1))"

text \<open>The health scan stops at the first connection that needs attention.\<close>

fun scan_servers :: "int \<Rightarrow> (nat \<Rightarrow> bool) \<Rightarrow> (string \<times> nat) list \<Rightarrow> Lifecycle \<Rightarrow> Lifecycle \<times> bool" where
  "scan_servers now isConnected [] l = (l, False)"
| "scan_servers now isConnected ((a, i) # ss) l =
     (case lcConns l i of
        None \<Rightarrow> scan_servers now isConnected ss l
      | Some ns \<Rightarrow>
          let (ns', reason) = observe (scStaleConnTimeout (lcCfg l)) (isConnected i) now ns;
              l1 = l\<lparr>lcConns := (lcConns l)(i \<mapsto> ns')\<rparr>
          in if reason \<noteq> retireNone \<or> \<not> nsConnected ns' then (l1, True) else scan_servers now isConnected ss (preempt l1))"

definition needsFastDiscovery :: "int \<Rightarrow> (nat \<Rightarrow> bool) \<Rightarrow> Lifecycle \<Rightarrow> Lifecycle \<times> bool" where
  "needsFastDiscovery now isConnected l =
     (if now < lcPendingUntil l then (publishStatus l, True)
      else let (l1, b) = scan_servers now isConnected (lcServers l) l in (publishStatus l1, b))"

subsection \<open>The run loop\<close>

text \<open>
  Which case of the \<^verbatim>\<open>select\<close> fired. \<open>Other\<close> is an action of another goroutine while the loop waits;
  what they do during a pass is in the schedule.
\<close>

datatype run_event =
    LeaderChange reconcile_env
  | Wake reconcile_env
  | Watch int "nat \<Rightarrow> bool" reconcile_env
  | Tick reconcile_env
  | Other other_action
  | Cancelled int bool go_error

datatype handoff = Handoff Lifecycle

text \<open>
  \<^verbatim>\<open>transferLeadership\<close> is called with the state it finds; the store bounds the transfer itself and
  its error is only logged.
\<close>

definition transferLeadership :: "bool \<Rightarrow> Lifecycle \<Rightarrow> handoff list" where
  "transferLeadership isLeader l = (if isLeader then [Handoff l] else [])"

fun run_loop :: "run_event list \<Rightarrow> Lifecycle \<Rightarrow> (Lifecycle \<times> handoff list \<times> go_error) option" where
  "run_loop [] l = None"
| "run_loop (Cancelled now isLeader e # es) l =
     (let l1 = stopAll now l in Some ((preempt l1)\<lparr>lcStopping := []\<rparr>, transferLeadership isLeader l1, e))"
| "run_loop (LeaderChange env # es) l = run_loop es (reconcile env l)"
| "run_loop (Wake env # es) l = run_loop es (reconcile env (l\<lparr>lcWake := False\<rparr>))"
| "run_loop (Watch now isConnected env # es) l =
     (let (l1, fast) = needsFastDiscovery now isConnected l in run_loop es (if fast then reconcile env l1 else l1))"
| "run_loop (Tick env # es) l = run_loop es (reconcile env l)"
| "run_loop (Other a # es) l = run_loop es (act a l)"

definition Run :: "reconcile_env \<Rightarrow> run_event list \<Rightarrow> Lifecycle \<Rightarrow> (Lifecycle \<times> handoff list \<times> go_error) option" where
  "Run env es l = run_loop es (reconcile env l)"

subsection \<open>The invariant\<close>

text \<open>
  While no pass is under way the serving set holds live connectors under their own addresses, every
  other connector is retired, and the last socket of a retired connector is closed. During a pass this
  holds of all connectors but the one being started or retired: \<open>X\<close>.
\<close>

definition lc_inv_but :: "nat set \<Rightarrow> Lifecycle \<Rightarrow> bool" where
  "lc_inv_but X l \<longleftrightarrow>
     distinct (map fst (lcServers l)) \<and>
     (\<forall>a i. (a, i) \<in> set (lcServers l) \<longrightarrow> (\<exists>ns. lcConns l i = Some ns \<and> nsAddr ns = a \<and> (i \<notin> X \<longrightarrow> \<not> nsRetired ns))) \<and>
     (\<forall>i ns. lcConns l i = Some ns \<and> \<not> nsRetired ns \<and> i \<notin> X \<longrightarrow> (nsAddr ns, i) \<in> set (lcServers l)) \<and>
     (\<forall>i ns. lcConns l i = Some ns \<longrightarrow> i < lcFresh l) \<and>
     (\<forall>sk. lcSockets l sk \<noteq> None \<longrightarrow> sk < lcFresh l) \<and>
     (\<forall>i ns sk. lcConns l i = Some ns \<and> nsConn ns = Some sk \<longrightarrow>
        lcSockets l sk \<noteq> None \<and> (nsRetired ns \<and> i \<notin> X \<longrightarrow> lcSockets l sk = Some False))"

abbreviation lc_inv :: "Lifecycle \<Rightarrow> bool" where
  "lc_inv \<equiv> lc_inv_but {}"

lemma lc_inv_butD:
  assumes "lc_inv_but X l"
  shows "distinct (map fst (lcServers l))"
    "(a, i) \<in> set (lcServers l) \<Longrightarrow> \<exists>ns. lcConns l i = Some ns \<and> nsAddr ns = a \<and> (i \<notin> X \<longrightarrow> \<not> nsRetired ns)"
    "lcConns l i = Some ns \<Longrightarrow> \<not> nsRetired ns \<Longrightarrow> i \<notin> X \<Longrightarrow> (nsAddr ns, i) \<in> set (lcServers l)"
    "lcConns l i = Some ns \<Longrightarrow> i < lcFresh l"
    "lcSockets l sk \<noteq> None \<Longrightarrow> sk < lcFresh l"
    "lcConns l i = Some ns \<Longrightarrow> nsConn ns = Some sk \<Longrightarrow> lcSockets l sk \<noteq> None"
    "lcConns l i = Some ns \<Longrightarrow> nsConn ns = Some sk \<Longrightarrow> nsRetired ns \<Longrightarrow> i \<notin> X \<Longrightarrow> lcSockets l sk = Some False"
  using assms unfolding lc_inv_but_def by blast+

lemmas lc_invD = lc_inv_butD [where X = "{}", simplified]

lemma lc_inv_butI:
  assumes "distinct (map fst (lcServers l))"
    "\<And>a i. (a, i) \<in> set (lcServers l) \<Longrightarrow> \<exists>ns. lcConns l i = Some ns \<and> nsAddr ns = a \<and> (i \<notin> X \<longrightarrow> \<not> nsRetired ns)"
    "\<And>i ns. lcConns l i = Some ns \<Longrightarrow> \<not> nsRetired ns \<Longrightarrow> i \<notin> X \<Longrightarrow> (nsAddr ns, i) \<in> set (lcServers l)"
    "\<And>i ns. lcConns l i = Some ns \<Longrightarrow> i < lcFresh l"
    "\<And>sk. lcSockets l sk \<noteq> None \<Longrightarrow> sk < lcFresh l"
    "\<And>i ns sk. lcConns l i = Some ns \<Longrightarrow> nsConn ns = Some sk \<Longrightarrow> lcSockets l sk \<noteq> None"
    "\<And>i ns sk. lcConns l i = Some ns \<Longrightarrow> nsConn ns = Some sk \<Longrightarrow> nsRetired ns \<Longrightarrow> i \<notin> X \<Longrightarrow> lcSockets l sk = Some False"
  shows "lc_inv_but X l"
  using assms unfolding lc_inv_but_def by blast

lemma fresh_conn: "lc_inv_but X l \<Longrightarrow> lcFresh l \<le> i \<Longrightarrow> lcConns l i = None"
  using lc_inv_butD(4) [of X l i] by (cases "lcConns l i") auto

lemma fresh_socket: "lc_inv_but X l \<Longrightarrow> lcFresh l \<le> sk \<Longrightarrow> lcSockets l sk = None"
  using lc_inv_butD(5) [of X l sk] by (cases "lcSockets l sk") auto

lemma on_conn_simps [simp]:
  "lcServers (on_conn i u l) = lcServers l" "lcSockets (on_conn i u l) = lcSockets l" "lcFresh (on_conn i u l) = lcFresh l"
  "lcCfg (on_conn i u l) = lcCfg l"
  "lcConns (on_conn i u l) j = (if j = i then map_option u (lcConns l i) else lcConns l j)"
  by (simp_all add: on_conn_def)

lemma close_socket_simps [simp]:
  "lcServers (close_socket sk l) = lcServers l" "lcFresh (close_socket sk l) = lcFresh l" "lcConns (close_socket sk l) = lcConns l"
  "lcCfg (close_socket sk l) = lcCfg l" "lcSockets (close_socket sk l) x = (if x = sk then Some False else lcSockets l x)"
  by (simp_all add: close_socket_def)

lemma closeConn_simps [simp]:
  "lcServers (closeConn i l) = lcServers l" "lcFresh (closeConn i l) = lcFresh l" "lcConns (closeConn i l) = lcConns l"
  "lcCfg (closeConn i l) = lcCfg l"
  by (simp_all add: closeConn_def split: option.splits)

lemma closeConn_sockets:
  "lcSockets (closeConn i l) x =
     (if \<exists>ns. lcConns l i = Some ns \<and> nsConn ns = Some x then Some False else lcSockets l x)"
  by (auto simp: closeConn_def split: option.splits)

lemma publishStatus_simps [simp]:
  "lcServers (publishStatus l) = lcServers l" "lcFresh (publishStatus l) = lcFresh l" "lcConns (publishStatus l) = lcConns l"
  "lcCfg (publishStatus l) = lcCfg l" "lcSockets (publishStatus l) = lcSockets l"
  by (simp_all add: publishStatus_def)

text \<open>The invariant only reads these fields.\<close>

lemma lc_inv_same:
  assumes "lc_inv_but X l" "lcServers l' = lcServers l" "lcFresh l' = lcFresh l" "lcSockets l' = lcSockets l" "lcConns l' = lcConns l"
  shows "lc_inv_but X l'"
  using assms by (simp add: lc_inv_but_def)

lemma lc_inv_publish [simp]: "lc_inv l \<Longrightarrow> lc_inv (publishStatus l)"
  by (erule lc_inv_same) simp_all

text \<open>A change of a connector that keeps its address, its retirement and its socket.\<close>

lemma lc_inv_upd:
  assumes "lc_inv_but X l" "lcConns l i = Some ns" "nsAddr ns' = nsAddr ns" "nsRetired ns' = nsRetired ns" "nsConn ns' = nsConn ns"
    "l' = l\<lparr>lcConns := (lcConns l)(i \<mapsto> ns')\<rparr>"
  shows "lc_inv_but X l'"
  using assms unfolding lc_inv_but_def by (auto split: if_splits) (metis option.inject)+

lemma lc_inv_New: "lc_inv (New_Lifecycle cfg)"
  by (simp add: lc_inv_but_def New_Lifecycle_def)

subsection \<open>What the other goroutines keep\<close>

lemma close_socket_inv: "lc_inv_but X l \<Longrightarrow> lcSockets l sk \<noteq> None \<Longrightarrow> lc_inv_but X (close_socket sk l)"
  unfolding lc_inv_but_def by (auto split: if_splits)

lemma closeConn_inv: "lc_inv_but X l \<Longrightarrow> lc_inv_but X (closeConn i l)"
  using lc_inv_butD(6) close_socket_inv by (auto simp: closeConn_def split: option.splits)

lemma dial_connect_inv:
  assumes inv: "lc_inv_but X l"
  shows "lc_inv_but X (fst (dial_connect i e l))"
proof (cases e)
  case None
  note d = lc_inv_butD [OF inv]
  let ?l1 = "l\<lparr>lcSockets := (lcSockets l)(lcFresh l \<mapsto> True), lcFresh := Suc (lcFresh l)\<rparr>"
  have ns: "lcSockets l (lcFresh l) = None" by (rule fresh_socket [OF inv]) simp
  have fr: "lcConns l j = Some n \<Longrightarrow> nsConn n = Some sk \<Longrightarrow> sk \<noteq> lcFresh l" for j n sk using d(6) ns by metis
  have inv1: "lc_inv_but X ?l1"
    by (rule lc_inv_butI) (use d fr in \<open>auto simp: less_Suc_eq split: if_splits\<close>)
  show ?thesis
  proof (cases "\<exists>n. lcConns l i = Some n \<and> \<not> nsRetired n")
    case True
    then obtain n where n: "lcConns l i = Some n" "\<not> nsRetired n" by blast
    have "lc_inv_but X (on_conn i (\<lambda>ns. ns\<lparr>nsConn := Some (lcFresh l)\<rparr>) ?l1)"
      by (rule lc_inv_butI) (use lc_inv_butD [OF inv1] n in \<open>auto split: if_splits\<close>, (metis option.inject)+)
    then show ?thesis using n by (simp add: dial_connect_def None track_def Let_def)
  next
    case False
    then show ?thesis using close_socket_inv [OF inv1, of "lcFresh l"]
      by (auto simp: dial_connect_def None track_def Let_def split: option.splits)
  qed
qed (use inv in \<open>simp add: dial_connect_def\<close>)

lemma other_inv:
  assumes "lc_inv_but X l" "enabled a l"
  shows "lc_inv_but X (other a l)"
proof (cases a)
  case (Request now i)
  show ?thesis
  proof (cases "lcConns l i")
    case (Some ns)
    have "lc_inv_but X (touch now i l)"
      by (rule lc_inv_upd [OF assms(1) Some, of "ns\<lparr>nsLastActivity := now\<rparr>"]) (simp_all add: touch_def on_conn_def Some)
    then show ?thesis using closeConn_inv [OF assms(1)] by (simp add: Request handleRequest_def Some)
  qed (use assms in \<open>simp add: Request handleRequest_def\<close>)
next
  case (StopFinished i)
  then show ?thesis using lc_inv_same [OF assms(1)] by (simp add: stop_finished_def requestReconcile_def)
qed (use assms close_socket_inv dial_connect_inv in \<open>auto simp: dial_handshake_def dial_handover_def enabled_def\<close>)

lemma act_inv: "lc_inv_but X l \<Longrightarrow> lc_inv_but X (act a l)"
  by (simp add: act_def other_inv)

lemma acts_inv: "lc_inv_but X l \<Longrightarrow> lc_inv_but X (fold act acts l)"
  by (induction acts arbitrary: l) (simp_all add: act_inv)

lemma preempt_inv: "lc_inv_but X l \<Longrightarrow> lc_inv_but X (preempt l)"
  by (auto simp: preempt_def intro!: acts_inv elim: lc_inv_same split: list.split)

text \<open>They start and retire no connector, leave the serving set alone, and never reopen a socket.\<close>

definition same_conn :: "nodeServer \<Rightarrow> nodeServer \<Rightarrow> bool" where
  "same_conn ns ns' \<longleftrightarrow> nsAddr ns' = nsAddr ns \<and> nsRetired ns' = nsRetired ns \<and> (nsRetired ns \<longrightarrow> nsConn ns' = nsConn ns)"

definition others_only :: "Lifecycle \<Rightarrow> Lifecycle \<Rightarrow> bool" where
  "others_only l l' \<longleftrightarrow> lcServers l' = lcServers l \<and> lcCfg l' = lcCfg l \<and> lcFresh l \<le> lcFresh l' \<and>
     (\<forall>i. rel_option same_conn (lcConns l i) (lcConns l' i)) \<and>
     (\<forall>sk. lcSockets l sk = Some False \<and> sk < lcFresh l \<longrightarrow> lcSockets l' sk = Some False)"

lemma same_conn_refl [simp]: "same_conn ns ns"
  by (simp add: same_conn_def)

lemma same_conn_option [simp]: "rel_option same_conn x x"
  by (cases x) simp_all

lemma same_conn_trans: "rel_option same_conn x y \<Longrightarrow> rel_option same_conn y z \<Longrightarrow> rel_option same_conn x z"
  by (cases x; cases y; cases z) (simp_all add: same_conn_def)

lemma others_only_refl: "others_only l l"
  by (simp add: others_only_def)

lemma others_only_trans: "others_only l l' \<Longrightarrow> others_only l' l'' \<Longrightarrow> others_only l l''"
  unfolding others_only_def
  by (elim conjE, intro conjI allI impI) (auto intro: same_conn_trans)

lemma touch_simps [simp]:
  "lcServers (touch now i l) = lcServers l" "lcSockets (touch now i l) = lcSockets l" "lcFresh (touch now i l) = lcFresh l"
  "lcCfg (touch now i l) = lcCfg l"
  "lcConns (touch now i l) j = (if j = i then map_option (nsLastActivity_update (\<lambda>_. now)) (lcConns l i) else lcConns l j)"
  by (simp_all add: touch_def)

lemma act_others_only: "others_only l (act a l)"
proof (cases a)
  case (Request now i)
  then show ?thesis
    by (cases "lcConns l i") (auto simp: act_def enabled_def others_only_def handleRequest_def closeConn_sockets same_conn_def)
next
  case (Connect i e)
  then show ?thesis
    by (cases e; cases "lcConns l i")
      (auto simp: act_def enabled_def others_only_def dial_connect_def track_def Let_def same_conn_def)
qed (auto simp: act_def enabled_def others_only_def dial_handshake_def dial_handover_def stop_finished_def requestReconcile_def)

lemma acts_others_only: "others_only l (fold act acts l)"
proof (induction acts arbitrary: l)
  case (Cons a acts)
  show ?case using others_only_trans [OF act_others_only Cons.IH] by simp
qed (simp add: others_only_refl)

lemma preempt_others_only: "others_only l (preempt l)"
proof (cases "lcSched l")
  case (Cons acts rest)
  have "others_only l (l\<lparr>lcSched := rest\<rparr>)" by (simp add: others_only_def)
  then show ?thesis using others_only_trans [OF _ acts_others_only] by (simp add: preempt_def Cons)
qed (simp add: preempt_def others_only_refl)

lemma preempt_simps [simp]: "lcServers (preempt l) = lcServers l" "lcCfg (preempt l) = lcCfg l"
  using preempt_others_only [of l] by (simp_all add: others_only_def)

lemma preempt_fresh: "lcFresh l \<le> lcFresh (preempt l)"
  using preempt_others_only [of l] by (simp add: others_only_def)

lemma preempt_conn:
  assumes "lcConns l i = Some ns"
  obtains ns' where "lcConns (preempt l) i = Some ns'" "nsAddr ns' = nsAddr ns" "nsRetired ns' = nsRetired ns"
    "nsRetired ns \<Longrightarrow> nsConn ns' = nsConn ns"
proof -
  have "rel_option same_conn (lcConns l i) (lcConns (preempt l) i)" using preempt_others_only [of l] by (simp add: others_only_def)
  with assms that show thesis by (cases "lcConns (preempt l) i") (auto simp: same_conn_def)
qed

lemma preempt_quiet: "lcSched l = [] \<Longrightarrow> preempt l = l"
  by (simp add: preempt_def)

text \<open>A connector that no longer serves: retired, with its last socket closed.\<close>

definition dead :: "nat \<Rightarrow> Lifecycle \<Rightarrow> bool" where
  "dead i l \<longleftrightarrow> (\<exists>ns. lcConns l i = Some ns \<and> nsRetired ns \<and> (\<forall>sk. nsConn ns = Some sk \<longrightarrow> lcSockets l sk = Some False))"

lemma preempt_dead:
  assumes "lc_inv_but X l" "dead i l"
  shows "dead i (preempt l)"
proof -
  from assms(2) obtain ns where ns: "lcConns l i = Some ns" "nsRetired ns" "\<And>sk. nsConn ns = Some sk \<Longrightarrow> lcSockets l sk = Some False"
    unfolding dead_def by blast
  obtain ns' where ns': "lcConns (preempt l) i = Some ns'" "nsRetired ns'" "nsConn ns' = nsConn ns"
    by (rule preempt_conn [OF ns(1)]) (use ns in simp)
  have "lcSockets (preempt l) sk = Some False" if "nsConn ns = Some sk" for sk
    using preempt_others_only [of l] ns(3) [OF that] lc_inv_butD(5) [OF assms(1), of sk] unfolding others_only_def by blast
  then show ?thesis using ns' unfolding dead_def by simp
qed

subsection \<open>Retiring and starting\<close>

lemma retire_servers [simp]:
  "lcServers (retire now a i l) = AList.delete a (lcServers l)" "lcCfg (retire now a i l) = lcCfg l"
  by (simp_all add: retire_def Let_def)

lemma retire_quiet:
  assumes "lcSched l = []"
  shows "lcConns (retire now a i l) j =
      (if j = i then map_option (\<lambda>ns. ns\<lparr>nsRetired := True, nsDialStopped := True\<rparr>) (lcConns l i) else lcConns l j)"
    and "lcSched (retire now a i l) = []"
proof -
  have c: "lcSched (on_conn i u l) = lcSched l" "lcSched (closeConn i l) = lcSched l" for i u l
    by (simp_all add: on_conn_def closeConn_def close_socket_def split: option.splits)
  show "lcConns (retire now a i l) j =
      (if j = i then map_option (\<lambda>ns. ns\<lparr>nsRetired := True, nsDialStopped := True\<rparr>) (lcConns l i) else lcConns l j)"
    "lcSched (retire now a i l) = []"
    using assms by (simp_all add: retire_def Let_def preempt_quiet c option.map_comp comp_def)
qed

text \<open>A step on the exempt connector that keeps its address and its socket.\<close>

lemma on_exempt_inv:
  assumes "lc_inv_but X l" "i \<in> X" "\<And>ns. nsAddr (u ns) = nsAddr ns" "\<And>ns. nsConn (u ns) = nsConn ns"
  shows "lc_inv_but X (on_conn i u l)"
proof (rule lc_inv_butI)
  note d = lc_inv_butD [OF assms(1)]
  show "\<exists>ns. lcConns (on_conn i u l) j = Some ns \<and> nsAddr ns = a \<and> (j \<notin> X \<longrightarrow> \<not> nsRetired ns)"
    if "(a, j) \<in> set (lcServers (on_conn i u l))" for a j
    using d(2) [of a j] that assms(2,3) by (cases "j = i") auto
qed (use lc_inv_butD [OF assms(1)] assms(2-) in \<open>auto split: if_splits\<close>)

lemma lc_inv_but_mono: "lc_inv_but X l \<Longrightarrow> X \<subseteq> Y \<Longrightarrow> lc_inv_but Y l"
  unfolding lc_inv_but_def by blast

lemma preempt_retired:
  "\<exists>ns. lcConns l i = Some ns \<and> nsRetired ns \<Longrightarrow> \<exists>ns. lcConns (preempt l) i = Some ns \<and> nsRetired ns"
  by (metis preempt_conn)

text \<open>Leaving the serving set dead.\<close>

lemma leave_inv:
  assumes inv: "lc_inv_but {i} l" and ai: "(a, i) \<in> set (lcServers l)" and dead: "dead i l"
    and l': "l' = l\<lparr>lcServers := AList.delete a (lcServers l), lcPendingUntil := p, lcStopping := st\<rparr>"
  shows "lc_inv l'" "dead i l'"
proof -
  note d = lc_inv_butD [OF inv]
  obtain ns where ns: "lcConns l i = Some ns" "nsRetired ns" "\<And>sk. nsConn ns = Some sk \<Longrightarrow> lcSockets l sk = Some False"
    using dead unfolding dead_def by blast
  have addr: "nsAddr ns = a" using d(2) [OF ai] ns by auto
  have one: "j = i" if "(a, j) \<in> set (lcServers l)" for j using that ai d(1) by (meson eq_key_imp_eq_value)
  show "dead i l'" using dead by (simp add: dead_def l')
  show "lc_inv l'"
  proof (rule lc_inv_butI)
    show "distinct (map fst (lcServers l'))" using d(1) by (simp add: l' distinct_delete_keys)
  next
    fix b j assume "(b, j) \<in> set (lcServers l')"
    then have bj: "(b, j) \<in> set (lcServers l)" "b \<noteq> a" by (simp_all add: l' set_delete)
    then have "j \<noteq> i" using d(2) [OF bj(1)] ns addr by auto
    then show "\<exists>ns. lcConns l' j = Some ns \<and> nsAddr ns = b \<and> (j \<notin> {} \<longrightarrow> \<not> nsRetired ns)" using d(2) [OF bj(1)] by (simp add: l')
  next
    fix j ns' assume j: "lcConns l' j = Some ns'" "\<not> nsRetired ns'"
    then have ji: "j \<noteq> i" using ns by (auto simp: l')
    with j have "(nsAddr ns', j) \<in> set (lcServers l)" using d(3) by (simp add: l')
    moreover have "nsAddr ns' \<noteq> a" using calculation one ji by blast
    ultimately show "(nsAddr ns', j) \<in> set (lcServers l')" by (simp add: l' set_delete)
  next
    show "lcSockets l' sk = Some False" if "lcConns l' j = Some ns'" "nsConn ns' = Some sk" "nsRetired ns'" for j ns' sk
      using that d(7) ns by (cases "j = i") (auto simp: l')
  qed (use d(4,5,6) in \<open>auto simp: l'\<close>)
qed

lemma lc_inv_retire:
  assumes inv: "lc_inv l" and ai: "(a, i) \<in> set (lcServers l)"
  shows "lc_inv (retire now a i l)" "dead i (retire now a i l)"
proof -
  obtain ns where ns: "lcConns l i = Some ns" using lc_invD(2) [OF inv ai] by blast
  define l1 where "l1 = preempt (on_conn i (\<lambda>ns. ns\<lparr>nsRetired := True\<rparr>) l)"
  define l2 where "l2 = preempt (on_conn i (\<lambda>ns. ns\<lparr>nsDialStopped := True\<rparr>) l1)"
  define l3 where "l3 = preempt (closeConn i l2)"
  have "lc_inv_but {i} (on_conn i (\<lambda>ns. ns\<lparr>nsRetired := True\<rparr>) l)"
    by (rule on_exempt_inv) (use lc_inv_but_mono [OF inv] in auto)
  then have i1: "lc_inv_but {i} l1" unfolding l1_def by (rule preempt_inv)
  have i2: "lc_inv_but {i} l2" unfolding l2_def by (rule preempt_inv, rule on_exempt_inv [OF i1]) auto
  have r1: "\<exists>ns. lcConns l1 i = Some ns \<and> nsRetired ns" unfolding l1_def by (rule preempt_retired) (simp add: ns)
  have r2: "\<exists>ns. lcConns l2 i = Some ns \<and> nsRetired ns" unfolding l2_def by (rule preempt_retired) (use r1 in auto)
  have c: "lc_inv_but {i} (closeConn i l2)" by (rule closeConn_inv [OF i2])
  have "dead i (closeConn i l2)" using r2 by (auto simp: dead_def closeConn_sockets)
  then have d3: "dead i l3" unfolding l3_def by (rule preempt_dead [OF c])
  have i3: "lc_inv_but {i} l3" unfolding l3_def by (rule preempt_inv [OF c])
  have s3: "(a, i) \<in> set (lcServers l3)" using ai by (simp add: l3_def l2_def l1_def)
  note left = leave_inv [OF i3 s3 d3 refl, where p = "now + discoveryPendingWindow l3" and st = "i # lcStopping l3"]
  show "lc_inv (retire now a i l)" "dead i (retire now a i l)"
    unfolding retire_def Let_def l1_def [symmetric] l2_def [symmetric] l3_def [symmetric]
    using preempt_inv [OF left(1)] preempt_dead [OF left] by simp_all
qed

lemma observe_same: "observe st c now ns = (ns', r) \<Longrightarrow> nsAddr ns' = nsAddr ns \<and> nsRetired ns' = nsRetired ns \<and> nsConn ns' = nsConn ns"
  by (auto simp: observe_def split: if_splits)

text \<open>Reviewing one connection keeps the others.\<close>

lemma review_inv:
  assumes inv: "lc_inv l" and ai: "(a, i) \<in> set (lcServers l)"
  shows "lc_inv (review env want (a, i) l)" "b \<noteq> a \<Longrightarrow> (b, j) \<in> set (lcServers (review env want (a, i) l)) \<longleftrightarrow> (b, j) \<in> set (lcServers l)"
proof -
  obtain ns where ns: "lcConns l i = Some ns" "nsAddr ns = a" "\<not> nsRetired ns" using lc_invD(2) [OF inv ai] by blast
  obtain ns' r where ob: "observe (scStaleConnTimeout (lcCfg l)) (rcConnected env i) (rcNow env) ns = (ns', r)" by fastforce
  let ?l1 = "l\<lparr>lcConns := (lcConns l)(i \<mapsto> ns')\<rparr>"
  have inv1: "lc_inv ?l1" using lc_inv_upd [OF inv ns(1) _ _ _ refl] observe_same [OF ob] by blast
  have eq: "review env want (a, i) l = (if a \<notin> set want then retire (rcNow env) a i l
      else if r = retireSilent then retire (rcNow env) a i ?l1 else preempt ?l1)"
    by (simp add: review_def ns(1) ob)
  show "lc_inv (review env want (a, i) l)"
    using lc_inv_retire(1) [OF inv ai] lc_inv_retire(1) [OF inv1, of a i] preempt_inv [OF inv1] ai by (simp add: eq)
  show "b \<noteq> a \<Longrightarrow> (b, j) \<in> set (lcServers (review env want (a, i) l)) \<longleftrightarrow> (b, j) \<in> set (lcServers l)"
    by (auto simp: eq set_delete)
qed

lemma fold_review_inv:
  "lc_inv l \<Longrightarrow> set ss \<subseteq> set (lcServers l) \<Longrightarrow> distinct (map fst ss) \<Longrightarrow> lc_inv (fold (review env want) ss l)"
proof (induction ss arbitrary: l)
  case (Cons ai ss)
  obtain a i where ai: "ai = (a, i)" by fastforce
  have m: "(a, i) \<in> set (lcServers l)" using Cons.prems(2) ai by simp
  have "set ss \<subseteq> set (lcServers (review env want ai l))"
  proof
    fix x assume x: "x \<in> set ss"
    then have "fst x \<noteq> a" using Cons.prems(3) ai by force
    then show "x \<in> set (lcServers (review env want ai l))"
      using review_inv(2) [OF Cons.prems(1) m, of "fst x" "snd x"] x Cons.prems(2) by (auto simp: ai)
  qed
  then show ?case using Cons.IH [of "review env want ai l"] Cons.prems review_inv(1) [OF Cons.prems(1) m] by (simp add: ai)
qed simp

lemma fold_retire_inv:
  "lc_inv l \<Longrightarrow> set ss \<subseteq> set (lcServers l) \<Longrightarrow> distinct (map fst ss) \<Longrightarrow>
   lc_inv (fold (\<lambda>(a, i). retire now a i) ss l) \<and>
   set (lcServers (fold (\<lambda>(a, i). retire now a i) ss l)) = set (lcServers l) - set ss"
proof (induction ss arbitrary: l)
  case (Cons ai ss)
  obtain a i where ai: "ai = (a, i)" by fastforce
  have m: "(a, i) \<in> set (lcServers l)" using Cons.prems(2) ai by simp
  have one: "set (AList.delete a (lcServers l)) = set (lcServers l) - {(a, i)}"
    using m lc_invD(1) [OF Cons.prems(1)] by (auto simp: set_delete) (metis eq_key_imp_eq_value)
  have "set ss \<subseteq> set (lcServers (retire now a i l))"
    using Cons.prems(2,3) ai by (force simp: one)
  then show ?case using Cons.IH [of "retire now a i l"] Cons.prems lc_inv_retire(1) [OF Cons.prems(1) m] by (auto simp: ai one)
qed simp

lemma stopAll_inv:
  assumes "lc_inv l"
  shows "lc_inv (stopAll now l)" "lcServers (stopAll now l) = []"
  using fold_retire_inv [OF assms subset_refl lc_invD(1) [OF assms], of now] by (simp_all add: stopAll_def)

text \<open>Starting: the new connector is exempt until it is in the serving set.\<close>

lemma startOne_started:
  assumes inv: "lc_inv l" and st: "se a = None"
  obtains l1 ns where "startOne now se a l = (l1, Inr (lcFresh l))" "lc_inv_but {lcFresh l} l1"
    "lcConns l1 (lcFresh l) = Some ns" "nsAddr ns = a" "\<not> nsRetired ns" "lcServers l1 = lcServers l" "lcCfg l1 = lcCfg l"
    "lcFresh l < lcFresh l1"
proof -
  let ?i = "lcFresh l"
  let ?l = "l\<lparr>lcConns := (lcConns l)(?i \<mapsto> newNodeServer now a), lcFresh := Suc ?i\<rparr>"
  note d = lc_invD [OF inv]
  have fr: "lcConns l ?i = None" by (rule fresh_conn [OF inv]) simp
  have inv1: "lc_inv_but {?i} ?l"
  proof (rule lc_inv_butI)
    fix b j assume "(b, j) \<in> set (lcServers ?l)"
    then obtain ns where "lcConns l j = Some ns" "nsAddr ns = b" "\<not> nsRetired ns" using d(2) [of b j] by auto
    moreover have "j \<noteq> ?i" using calculation fr by auto
    ultimately show "\<exists>ns. lcConns ?l j = Some ns \<and> nsAddr ns = b \<and> (j \<notin> {?i} \<longrightarrow> \<not> nsRetired ns)" by simp
  qed (use d fr in \<open>auto simp: newNodeServer_def less_Suc_eq split: if_splits\<close>)
  obtain ns where "lcConns (preempt ?l) ?i = Some ns" "nsAddr ns = a" "\<not> nsRetired ns"
    by (rule preempt_conn [of ?l ?i "newNodeServer now a"]) (auto simp: newNodeServer_def)
  moreover have "?i < lcFresh (preempt ?l)" using preempt_fresh [of ?l] by simp
  ultimately show thesis using preempt_inv [OF inv1] by (intro that [of "preempt ?l" ns]) (simp_all add: startOne_def st Let_def)
qed

lemma join_inv:
  assumes inv: "lc_inv_but {i} l" and ns: "lcConns l i = Some ns" "nsAddr ns = a" "\<not> nsRetired ns"
    and new: "a \<notin> fst ` set (lcServers l)"
  shows "lc_inv (l\<lparr>lcServers := AList.update a i (lcServers l)\<rparr>)"
proof -
  note d = lc_inv_butD [OF inv]
  have upd: "AList.update a i (lcServers l) = lcServers l @ [(a, i)]" using new by (rule update_fresh)
  show ?thesis
  proof (rule lc_inv_butI)
    fix b j assume "(b, j) \<in> set (lcServers (l\<lparr>lcServers := AList.update a i (lcServers l)\<rparr>))"
    then have "(b, j) \<in> set (lcServers l) \<or> (b = a \<and> j = i)" by (auto simp: upd)
    then show "\<exists>ns. lcConns (l\<lparr>lcServers := AList.update a i (lcServers l)\<rparr>) j = Some ns \<and> nsAddr ns = b \<and> (j \<notin> {} \<longrightarrow> \<not> nsRetired ns)"
      using d(2) [of b j] ns by (cases "j = i") auto
  next
    show "distinct (map fst (lcServers (l\<lparr>lcServers := AList.update a i (lcServers l)\<rparr>)))" using d(1) new by (auto simp: upd)
  next
    fix j ns' assume "lcConns (l\<lparr>lcServers := AList.update a i (lcServers l)\<rparr>) j = Some ns'" "\<not> nsRetired ns'"
    then show "(nsAddr ns', j) \<in> set (lcServers (l\<lparr>lcServers := AList.update a i (lcServers l)\<rparr>))"
      using d(3) [of j ns'] ns by (cases "j = i") (auto simp: upd)
  next
    fix j ns' sk assume "lcConns (l\<lparr>lcServers := AList.update a i (lcServers l)\<rparr>) j = Some ns'" "nsConn ns' = Some sk" "nsRetired ns'"
    then show "lcSockets (l\<lparr>lcServers := AList.update a i (lcServers l)\<rparr>) sk = Some False"
      using d(7) [of j ns' sk] ns by (cases "j = i") auto
  qed (use d(4-6) in auto)
qed

lemma connect_missing_cases:
  assumes inv: "lc_inv l"
  obtains (kept) "connect_missing env a l = l" "a \<in> fst ` set (lcServers l) \<or> rcStart env a \<noteq> None"
  | (joined) l' where "connect_missing env a l = preempt l'" "lc_inv l'" "lcServers l' = lcServers l @ [(a, lcFresh l)]"
    "a \<notin> fst ` set (lcServers l)" "rcStart env a = None" "lcCfg l' = lcCfg l" "lcFresh l < lcFresh l'"
proof (cases "a \<in> fst ` set (lcServers l) \<or> rcStart env a \<noteq> None")
  case True
  have "connect_missing env a l = l"
  proof (cases "map_of (lcServers l) a")
    case None
    then have "a \<notin> fst ` set (lcServers l)" by (simp add: map_of_eq_None_iff)
    with True None show ?thesis by (auto simp: connect_missing_def startOne_def)
  qed (simp add: connect_missing_def)
  with True show thesis by (intro kept)
next
  case False
  then have n: "map_of (lcServers l) a = None" by (simp add: map_of_eq_None_iff)
  obtain l1 ns where s: "startOne (rcNow env) (rcStart env) a l = (l1, Inr (lcFresh l))" "lc_inv_but {lcFresh l} l1"
    "lcConns l1 (lcFresh l) = Some ns" "nsAddr ns = a" "\<not> nsRetired ns" "lcServers l1 = lcServers l" "lcCfg l1 = lcCfg l"
    "lcFresh l < lcFresh l1"
    by (rule startOne_started [OF inv, of "rcStart env" a "rcNow env"]) (use False in auto)
  show thesis
    by (rule joined [of "l1\<lparr>lcServers := AList.update a (lcFresh l) (lcServers l1)\<rparr>"])
      (use False n s join_inv [OF s(2-5)] in \<open>simp_all add: connect_missing_def update_fresh\<close>)
qed

lemma connect_missing_inv: "lc_inv l \<Longrightarrow> lc_inv (connect_missing env a l)"
  by (cases rule: connect_missing_cases [of l env a]) (simp_all add: preempt_inv)

lemma fold_connect_inv: "lc_inv l \<Longrightarrow> lc_inv (fold (connect_missing env) addrs l)"
  by (induction addrs arbitrary: l) (simp_all add: connect_missing_inv)

lemma reconcile_inv:
  assumes "lc_inv l"
  shows "lc_inv (reconcile env l)"
proof (cases "rcLeader env")
  case True
  show ?thesis
  proof (cases "rcNodes env")
    case (Inr desired)
    have "lc_inv (fold (review env (remdups desired)) (lcServers l) l)"
      by (rule fold_review_inv [OF assms subset_refl lc_invD(1) [OF assms]])
    then show ?thesis using True Inr by (simp add: reconcile_def Let_def fold_connect_inv)
  qed (use True assms in \<open>simp add: reconcile_def\<close>)
qed (simp add: reconcile_def stopAll_inv [OF assms])

lemma scan_servers_inv: "lc_inv l \<Longrightarrow> lc_inv (fst (scan_servers now c ss l))"
proof (induction ss arbitrary: l)
  case (Cons ai ss)
  obtain a i where ai: "ai = (a, i)" by fastforce
  show ?case
  proof (cases "lcConns l i")
    case (Some ns)
    obtain ns' r where ob: "observe (scStaleConnTimeout (lcCfg l)) (c i) now ns = (ns', r)" by fastforce
    have "lc_inv (l\<lparr>lcConns := (lcConns l)(i \<mapsto> ns')\<rparr>)"
      using lc_inv_upd [OF Cons.prems Some _ _ _ refl] observe_same [OF ob] by blast
    with Cons.IH [OF preempt_inv] show ?thesis by (simp add: ai Some ob Let_def)
  qed (use Cons ai in simp)
qed simp

lemma needsFastDiscovery_inv: "lc_inv l \<Longrightarrow> lc_inv (fst (needsFastDiscovery now c l))"
  by (simp add: needsFastDiscovery_def case_prod_beta Let_def scan_servers_inv)

subsection \<open>Reachable states\<close>

text \<open>The states between two passes. The schedule may be any.\<close>

inductive serving :: "ServerConfig \<Rightarrow> Lifecycle \<Rightarrow> bool" for cfg where
  started: "serving cfg (New_Lifecycle cfg)"
| reconciled: "serving cfg l \<Longrightarrow> serving cfg (reconcile env l)"
| scanned: "serving cfg l \<Longrightarrow> serving cfg (fst (needsFastDiscovery now c l))"
| woken: "serving cfg l \<Longrightarrow> serving cfg (l\<lparr>lcWake := False\<rparr>)"
| acted: "serving cfg l \<Longrightarrow> serving cfg (act a l)"
| stopped: "serving cfg l \<Longrightarrow> serving cfg (stopAll now l)"
| scheduled: "serving cfg l \<Longrightarrow> serving cfg (l\<lparr>lcSched := sched\<rparr>)"

lemma serving_inv: "serving cfg l \<Longrightarrow> lc_inv l"
proof (induction rule: serving.induct)
  case (woken l)
  from woken.IH show ?case by (rule lc_inv_same) simp_all
next
  case (scheduled l sched)
  from scheduled.IH show ?case by (rule lc_inv_same) simp_all
qed (simp_all add: lc_inv_New reconcile_inv needsFastDiscovery_inv act_inv stopAll_inv)

text \<open>Once nothing is served, the other goroutines cannot bring a connector back.\<close>

definition all_retired :: "Lifecycle \<Rightarrow> bool" where
  "all_retired l \<longleftrightarrow> lcServers l = [] \<and> (\<forall>i ns. lcConns l i = Some ns \<longrightarrow> nsRetired ns)"

lemma lc_inv_all_retired: "lc_inv l \<Longrightarrow> lcServers l = [] \<Longrightarrow> all_retired l"
  using lc_invD(3) by (fastforce simp: all_retired_def)

lemma other_all_retired: "all_retired l \<Longrightarrow> all_retired (other a l)"
  by (cases a) (auto simp: all_retired_def handleRequest_def touch_def dial_connect_def track_def Let_def dial_handshake_def
      dial_handover_def stop_finished_def requestReconcile_def split: option.splits if_splits)

lemma others_all_retired: "all_retired l \<Longrightarrow> all_retired (fold act acts l)"
  by (induction acts arbitrary: l) (simp_all add: act_def other_all_retired)

lemma preempt_all_retired: "all_retired l \<Longrightarrow> all_retired (preempt l)"
  using others_all_retired [of "l\<lparr>lcSched := rest\<rparr>" for rest] by (auto simp: preempt_def all_retired_def split: list.split)

subsection \<open>What a reconcile pass does\<close>

definition stays :: "reconcile_env \<Rightarrow> string list \<Rightarrow> Lifecycle \<Rightarrow> string \<times> nat \<Rightarrow> bool" where
  "stays env want l ai \<longleftrightarrow> fst ai \<in> set want \<and>
     (\<forall>ns. lcConns l (snd ai) = Some ns \<longrightarrow>
        snd (observe (scStaleConnTimeout (lcCfg l)) (rcConnected env (snd ai)) (rcNow env) ns) = retireNone)"

lemma one_address: "lc_inv l \<Longrightarrow> (a, i) \<in> set (lcServers l) \<Longrightarrow> (b, i) \<in> set (lcServers l) \<Longrightarrow> a = b"
  using lc_invD(2) by (metis option.inject)

text \<open>Without interruptions, exactly the connectors stay that are wanted and not silent.\<close>

lemma review_frame:
  assumes inv: "lc_inv l" and ai: "(a, i) \<in> set (lcServers l)" and quiet: "lcSched l = []"
  shows "j \<noteq> i \<Longrightarrow> lcConns (review env want (a, i) l) j = lcConns l j" "lcCfg (review env want (a, i) l) = lcCfg l"
    "(b, j) \<in> set (lcServers (review env want (a, i) l)) \<longleftrightarrow>
       (b, j) \<in> set (lcServers l) \<and> (b = a \<longrightarrow> stays env want l (a, i))"
    "lcSched (review env want (a, i) l) = []"
proof -
  obtain ns where ns: "lcConns l i = Some ns" using lc_invD(2) [OF inv ai] by blast
  obtain ns' r where ob: "observe (scStaleConnTimeout (lcCfg l)) (rcConnected env i) (rcNow env) ns = (ns', r)" by fastforce
  have eq: "review env want (a, i) l = (if a \<notin> set want then retire (rcNow env) a i l
      else if r = retireSilent then retire (rcNow env) a i (l\<lparr>lcConns := (lcConns l)(i \<mapsto> ns')\<rparr>)
      else l\<lparr>lcConns := (lcConns l)(i \<mapsto> ns')\<rparr>)"
    by (simp add: review_def ns ob preempt_quiet quiet)
  show "j \<noteq> i \<Longrightarrow> lcConns (review env want (a, i) l) j = lcConns l j" "lcCfg (review env want (a, i) l) = lcCfg l"
    "lcSched (review env want (a, i) l) = []"
    by (simp_all add: eq retire_quiet quiet)
  have st: "stays env want l (a, i) \<longleftrightarrow> a \<in> set want \<and> r \<noteq> retireSilent"
    by (cases r) (simp_all add: stays_def ns ob)
  show "(b, j) \<in> set (lcServers (review env want (a, i) l)) \<longleftrightarrow>
       (b, j) \<in> set (lcServers l) \<and> (b = a \<longrightarrow> stays env want l (a, i))"
    by (auto simp: eq set_delete st)
qed

lemma fold_review_servers:
  "lc_inv l \<Longrightarrow> set ss \<subseteq> set (lcServers l) \<Longrightarrow> distinct (map fst ss) \<Longrightarrow> lcSched l = [] \<Longrightarrow>
   (b, j) \<in> set (lcServers (fold (review env want) ss l)) \<longleftrightarrow>
     (b, j) \<in> set (lcServers l) \<and> ((b, j) \<in> set ss \<longrightarrow> stays env want l (b, j))"
proof (induction ss arbitrary: l)
  case (Cons ai ss)
  obtain a i where ai: "ai = (a, i)" by fastforce
  have m: "(a, i) \<in> set (lcServers l)" using Cons.prems(2) ai by simp
  let ?l = "review env want (a, i) l"
  note f = review_frame [OF Cons.prems(1) m Cons.prems(4), where env = env and want = want]
  have sub: "set ss \<subseteq> set (lcServers ?l)"
  proof
    fix x assume x: "x \<in> set ss"
    then have "fst x \<noteq> a" using Cons.prems(3) ai by force
    then show "x \<in> set (lcServers ?l)" using f(3) [of "fst x" "snd x"] x Cons.prems(2) by auto
  qed
  have other: "x \<in> set ss \<Longrightarrow> fst x \<noteq> a \<and> snd x \<noteq> i" for x
  proof -
    assume x: "x \<in> set ss"
    then have "fst x \<noteq> a" using Cons.prems(3) ai by force
    moreover have "x \<in> set (lcServers l)" using x Cons.prems(2) by auto
    ultimately show ?thesis using one_address [OF Cons.prems(1) m, of "fst x"] by (metis prod.collapse)
  qed
  have st: "stays env want ?l x = stays env want l x" if "x \<in> set ss" for x
    using other [OF that] f(1,2) by (simp add: stays_def)
  have dup: "(a, j) \<in> set (lcServers l) \<Longrightarrow> j = i" for j
    using m lc_invD(1) [OF Cons.prems(1)] by (meson eq_key_imp_eq_value)
  have "(b, j) \<in> set (lcServers (fold (review env want) ss ?l)) \<longleftrightarrow>
      (b, j) \<in> set (lcServers ?l) \<and> ((b, j) \<in> set ss \<longrightarrow> stays env want ?l (b, j))"
    using Cons.IH [OF review_inv(1) [OF Cons.prems(1) m] sub] Cons.prems(3) f(4) by simp
  then show ?case using st f(3) [of b j] other [of "(b, j)"] dup by (auto simp: ai)
qed simp

text \<open>Under every schedule: what is not wanted goes, nothing appears, and no connector is forgotten.\<close>

definition remembers :: "Lifecycle \<Rightarrow> Lifecycle \<Rightarrow> bool" where
  "remembers l l' \<longleftrightarrow> lcFresh l \<le> lcFresh l' \<and>
     (\<forall>i ns. lcConns l i = Some ns \<longrightarrow> (\<exists>ns'. lcConns l' i = Some ns' \<and> nsAddr ns' = nsAddr ns))"

lemma remembers_refl: "remembers l l"
  by (simp add: remembers_def)

lemma remembers_trans: "remembers l l' \<Longrightarrow> remembers l' l'' \<Longrightarrow> remembers l l''"
  unfolding remembers_def by (metis le_trans)

lemma remembers_preempt: "remembers l (preempt l)"
  unfolding remembers_def using preempt_fresh preempt_conn by metis

lemma remembers_on_conn: "(\<And>ns. nsAddr (u ns) = nsAddr ns) \<Longrightarrow> remembers l (on_conn i u l)"
  by (simp add: remembers_def)

lemma remembers_same: "lcFresh l' = lcFresh l \<Longrightarrow> lcConns l' = lcConns l \<Longrightarrow> remembers l l'"
  by (simp add: remembers_def)

lemma remembers_retire: "remembers l (retire now a i l)"
  unfolding retire_def Let_def
  by (rule remembers_trans [OF _ remembers_preempt], rule remembers_trans [OF _ remembers_same],
      rule remembers_trans [OF _ remembers_preempt], rule remembers_trans [OF _ remembers_same],
      rule remembers_trans [OF _ remembers_preempt], rule remembers_trans [OF _ remembers_on_conn],
      rule remembers_trans [OF _ remembers_preempt], rule remembers_on_conn) simp_all

lemma remembers_review: "remembers l (review env want ai l)"
proof -
  obtain a i where ai: "ai = (a, i)" by fastforce
  show ?thesis
  proof (cases "a \<in> set want")
    case True
    show ?thesis
    proof (cases "lcConns l i")
      case None
      with True show ?thesis by (simp add: review_def ai remembers_refl)
    next
      case (Some ns)
      obtain ns' r where ob: "observe (scStaleConnTimeout (lcCfg l)) (rcConnected env i) (rcNow env) ns = (ns', r)" by fastforce
      have "remembers l (l\<lparr>lcConns := (lcConns l)(i \<mapsto> ns')\<rparr>)"
        using observe_same [OF ob] Some by (simp add: remembers_def)
      with True Some ob show ?thesis
        by (auto simp: review_def ai Let_def intro: remembers_trans remembers_retire remembers_preempt)
    qed
  qed (simp add: review_def ai remembers_retire)
qed

lemma remembers_fold_review: "remembers l (fold (review env want) ss l)"
  by (induction ss arbitrary: l) (auto simp: remembers_refl intro: remembers_trans remembers_review)

lemma review_cfg: "lcCfg (review env want x l) = lcCfg l"
  by (auto simp: review_def Let_def case_prod_beta split: option.splits)

lemma review_servers:
  "set (lcServers (review env want (a, i) l)) \<subseteq> set (lcServers l)"
  "a \<notin> set want \<Longrightarrow> (a, j) \<notin> set (lcServers (review env want (a, i) l))"
  by (auto simp: review_def Let_def case_prod_beta set_delete split: option.splits)

lemma fold_review_sub:
  "set (lcServers (fold (review env want) ss l)) \<subseteq> set (lcServers l) - {ai \<in> set ss. fst ai \<notin> set want}"
proof (induction ss arbitrary: l)
  case (Cons ai ss)
  obtain a i where ai: "ai = (a, i)" by fastforce
  show ?case using Cons.IH [of "review env want ai l"] review_servers [where env = env and want = want and a = a and i = i and l = l] by (auto simp: ai)
qed simp

lemma connect_missing_step:
  assumes "lc_inv l"
  shows "set (lcServers l) \<subseteq> set (lcServers (connect_missing env a l))"
    "set (lcServers (connect_missing env a l)) \<subseteq> set (lcServers l) \<union> {(b, j). b = a \<and> rcStart env a = None \<and> lcFresh l \<le> j}"
    "rcStart env a = None \<Longrightarrow> a \<in> fst ` set (lcServers (connect_missing env a l))"
    "lcFresh l \<le> lcFresh (connect_missing env a l)" "lcCfg (connect_missing env a l) = lcCfg l"
  using assms
  by (cases rule: connect_missing_cases [of l env a]; auto simp: image_iff intro: le_trans [OF less_imp_le preempt_fresh])+

lemma fold_connect:
  assumes "lc_inv l"
  shows "set (lcServers l) \<subseteq> set (lcServers (fold (connect_missing env) addrs l))"
    "set (lcServers (fold (connect_missing env) addrs l)) \<subseteq>
       set (lcServers l) \<union> {(b, j). b \<in> set addrs \<and> rcStart env b = None \<and> lcFresh l \<le> j}"
    "a \<in> set addrs \<Longrightarrow> rcStart env a = None \<Longrightarrow> a \<in> fst ` set (lcServers (fold (connect_missing env) addrs l))"
proof -
  have "set (lcServers l) \<subseteq> set (lcServers (fold (connect_missing env) addrs l)) \<and>
    set (lcServers (fold (connect_missing env) addrs l)) \<subseteq>
       set (lcServers l) \<union> {(b, j). b \<in> set addrs \<and> rcStart env b = None \<and> lcFresh l \<le> j} \<and>
    (\<forall>a\<in>set addrs. rcStart env a = None \<longrightarrow> a \<in> fst ` set (lcServers (fold (connect_missing env) addrs l)))"
    using assms
  proof (induction addrs arbitrary: l)
    case (Cons c addrs)
    let ?l = "connect_missing env c l"
    note s = connect_missing_step [OF Cons.prems, where env = env and a = c]
    note IH = Cons.IH [OF connect_missing_inv [OF Cons.prems, of env c]]
    have "set (lcServers l) \<subseteq> set (lcServers (fold (connect_missing env) addrs ?l))" using IH s(1) by blast
    moreover have "b \<in> set (c # addrs) \<and> rcStart env b = None \<and> lcFresh l \<le> j"
      if "(b, j) \<in> set (lcServers (fold (connect_missing env) addrs ?l))" "(b, j) \<notin> set (lcServers l)" for b j
    proof -
      from that(1) IH have "(b, j) \<in> set (lcServers ?l) \<or> b \<in> set addrs \<and> rcStart env b = None \<and> lcFresh ?l \<le> j" by blast
      then show ?thesis using s(2) s(4) that(2) by auto
    qed
    then have "set (lcServers (fold (connect_missing env) addrs ?l)) \<subseteq>
        set (lcServers l) \<union> {(b, j). b \<in> set (c # addrs) \<and> rcStart env b = None \<and> lcFresh l \<le> j}" by blast
    moreover have "a \<in> fst ` set (lcServers (fold (connect_missing env) addrs ?l))"
      if "a \<in> set (c # addrs)" "rcStart env a = None" for a
    proof (cases "a = c")
      case True
      with that s(3) have "a \<in> fst ` set (lcServers ?l)" by simp
      then show ?thesis using image_mono [OF IH [THEN conjunct1], of fst] by (rule rev_subsetD)
    next
      case False
      with that have "a \<in> set addrs" by simp
      then show ?thesis using IH that(2) by blast
    qed
    ultimately show ?case unfolding fold.simps comp_apply by (intro conjI ballI impI)
  qed simp
  then show "set (lcServers l) \<subseteq> set (lcServers (fold (connect_missing env) addrs l))"
    "set (lcServers (fold (connect_missing env) addrs l)) \<subseteq>
       set (lcServers l) \<union> {(b, j). b \<in> set addrs \<and> rcStart env b = None \<and> lcFresh l \<le> j}"
    "a \<in> set addrs \<Longrightarrow> rcStart env a = None \<Longrightarrow> a \<in> fst ` set (lcServers (fold (connect_missing env) addrs l))"
    by simp_all
qed

lemma connect_cfg: "lcCfg (connect_missing env x l) = lcCfg l"
  by (auto simp: connect_missing_def startOne_def Let_def split: option.splits)

lemma remembers_connect:
  assumes "lc_inv l"
  shows "remembers l (connect_missing env a l)"
proof (cases "map_of (lcServers l) a \<noteq> None \<or> rcStart env a \<noteq> None")
  case True
  then show ?thesis by (auto simp: connect_missing_def startOne_def remembers_refl)
next
  case False
  let ?i = "lcFresh l"
  let ?l = "l\<lparr>lcConns := (lcConns l)(?i \<mapsto> newNodeServer (rcNow env) a), lcFresh := Suc ?i\<rparr>"
  have "remembers l ?l" using fresh_conn [OF assms, of ?i] by (simp add: remembers_def)
  note r = remembers_trans [OF this remembers_preempt]
  have "remembers l ((preempt ?l)\<lparr>lcServers := AList.update a ?i (lcServers (preempt ?l))\<rparr>)"
    by (rule remembers_trans [OF r remembers_same]) simp_all
  from remembers_trans [OF this remembers_preempt] False show ?thesis
    by (simp add: connect_missing_def startOne_def Let_def)
qed

lemma remembers_fold_connect: "lc_inv l \<Longrightarrow> remembers l (fold (connect_missing env) addrs l)"
proof (induction addrs arbitrary: l)
  case (Cons a addrs)
  show ?case using remembers_trans [OF remembers_connect [OF Cons.prems] Cons.IH [OF connect_missing_inv [OF Cons.prems]]] by simp
qed (simp add: remembers_refl)

text \<open>The pass as a whole.\<close>

lemma reconcile_leader:
  assumes inv: "lc_inv l" and "rcLeader env" and "rcNodes env = Inr desired"
  shows "(a, i) \<in> set (lcServers (reconcile env l)) \<Longrightarrow> a \<in> set desired \<and>
      ((a, i) \<in> set (lcServers l) \<or> lcConns l i = None \<and> rcStart env a = None)"
    "a \<in> set desired \<Longrightarrow> rcStart env a = None \<Longrightarrow> a \<in> fst ` set (lcServers (reconcile env l))"
    "remembers l (reconcile env l)"
    "lcSched l = [] \<Longrightarrow> (a, i) \<in> set (lcServers l) \<Longrightarrow>
       (a, i) \<in> set (lcServers (reconcile env l)) \<longleftrightarrow> stays env desired l (a, i)"
proof -
  let ?w = "remdups desired" let ?l1 = "fold (review env ?w) (lcServers l) l"
  let ?l2 = "fold (connect_missing env) ?w ?l1"
  have eq: "reconcile env l = publishStatus ?l2" using assms(2,3) by (simp add: reconcile_def Let_def)
  have inv1: "lc_inv ?l1" by (rule fold_review_inv [OF inv subset_refl lc_invD(1) [OF inv]])
  note c = fold_connect [OF inv1, where env = env and addrs = ?w]
  have r1: "remembers l ?l1" by (rule remembers_fold_review)
  have sub: "set (lcServers ?l1) \<subseteq> {x \<in> set (lcServers l). fst x \<in> set desired}"
    using fold_review_sub [of env ?w "lcServers l" l] by auto
  have fr: "lcConns l j = None" if "lcFresh ?l1 \<le> j" for j
    using fresh_conn [OF inv, of j] r1 that unfolding remembers_def by simp
  show "(a, i) \<in> set (lcServers (reconcile env l)) \<Longrightarrow> a \<in> set desired \<and>
      ((a, i) \<in> set (lcServers l) \<or> lcConns l i = None \<and> rcStart env a = None)"
    using c(2) sub fr by (auto simp: eq)
  show "a \<in> set desired \<Longrightarrow> rcStart env a = None \<Longrightarrow> a \<in> fst ` set (lcServers (reconcile env l))"
    using c(3) by (simp add: eq)
  show "remembers l (reconcile env l)" unfolding eq
    by (rule remembers_trans [OF r1 remembers_trans [OF remembers_fold_connect [OF inv1] remembers_same]]) simp_all
  assume q: "lcSched l = []" and ai: "(a, i) \<in> set (lcServers l)"
  have st: "stays env ?w l x = stays env desired l x" for x by (simp add: stays_def)
  have r: "(a, i) \<in> set (lcServers ?l1) \<longleftrightarrow> stays env desired l (a, i)"
    using fold_review_servers [OF inv subset_refl lc_invD(1) [OF inv] q, of a i env ?w] st ai by blast
  have "lcConns l i \<noteq> None" using lc_invD(2) [OF inv ai] by auto
  with c(1,2) r fr show "(a, i) \<in> set (lcServers (reconcile env l)) \<longleftrightarrow> stays env desired l (a, i)" by (auto simp: eq)
qed

lemma run_loop_end:
  assumes "lc_inv x" "run_loop es x = Some (l', hs, e)"
  shows "(\<forall>h. Handoff h \<in> set hs \<longrightarrow> all_retired h) \<and> all_retired l' \<and> (\<exists>now isLeader. Cancelled now isLeader e \<in> set es)"
  using assms
proof (induction es arbitrary: x)
  case (Cons ev es)
  have rest: ?case if "lc_inv y" "run_loop (ev # es) x = run_loop es y" for y
    using Cons.IH [OF that(1)] Cons.prems(2) that(2) by auto
  show ?case
  proof (cases ev)
    case (Cancelled now isLeader e')
    have "all_retired (stopAll now x)" using lc_inv_all_retired stopAll_inv [OF Cons.prems(1)] by blast
    moreover from preempt_all_retired [OF this] have "all_retired ((preempt (stopAll now x))\<lparr>lcStopping := []\<rparr>)"
      by (simp add: all_retired_def)
    ultimately show ?thesis using Cons.prems(2) Cancelled by (auto simp: Let_def transferLeadership_def split: if_splits)
  next
    case (Watch now c env)
    obtain x1 fast where n: "needsFastDiscovery now c x = (x1, fast)" by fastforce
    have "lc_inv x1" using needsFastDiscovery_inv [OF Cons.prems(1), of now c] n by simp
    then show ?thesis by (intro rest [of "if fast then reconcile env x1 else x1"]) (simp_all add: reconcile_inv Watch n)
  next
    case (Wake env)
    have "lc_inv (x\<lparr>lcWake := False\<rparr>)" using Cons.prems(1) by (rule lc_inv_same) simp_all
    then show ?thesis by (intro rest [OF reconcile_inv]) (simp_all add: Wake)
  next
    case (Other a)
    then show ?thesis by (intro rest [OF act_inv [OF Cons.prems(1)]]) simp
  next
    case (LeaderChange env)
    then show ?thesis by (intro rest [OF reconcile_inv [OF Cons.prems(1)]]) simp
  next
    case (Tick env)
    then show ?thesis by (intro rest [OF reconcile_inv [OF Cons.prems(1)]]) simp
  qed
qed simp

subsection \<open>Properties\<close>

text \<open>
  C25: a replica that is not the leader signs nothing. After a reconcile pass that finds the replica
  without leadership, and however many requests, dials and stops of other goroutines follow, the
  serving set is empty and every request on every connection ever made is passed to the handler
  under the retired chain id, which no chain has.
\<close>
theorem only_the_leader_serves:
  assumes "serving cfg l" "\<not> rcLeader env"
  shows "lcServers (fold act acts (reconcile env l)) = [] \<and>
    (\<forall>handler now i req cid. snd (handleRequest handler now i req cid (fold act acts (reconcile env l))) = handler retiredChainID req)"
proof -
  have "lc_inv (reconcile env l)" "lcServers (reconcile env l) = []"
    using serving_inv [OF assms(1)] assms(2) stopAll_inv by (simp_all add: reconcile_def)
  then have r: "all_retired (fold act acts (reconcile env l))" by (intro others_all_retired lc_inv_all_retired)
  then show ?thesis by (auto simp: all_retired_def handleRequest_def split: option.splits)
qed

definition ex_server_config :: ServerConfig where
  "ex_server_config = \<lparr>scChainID = ''chain-1'', scTimeoutReadWrite = 0, scRetryWait = 0, scReconcileInterval = 0, scStaleConnTimeout = 0\<rparr>"

definition ex_reconcile :: "bool \<Rightarrow> reconcile_env" where
  "ex_reconcile leader = \<lparr>rcLeader = leader, rcNodes = Inr [''n1:5555''], rcNow = 7, rcConnected = (\<lambda>_. True), rcStart = (\<lambda>_. None)\<rparr>"

definition ex_serving :: Lifecycle where
  "ex_serving = reconcile (ex_reconcile True) (New_Lifecycle ex_server_config)"

lemma ex_serving_reachable: "serving ex_server_config ex_serving"
  unfolding ex_serving_def by (intro serving.intros)

lemma ex_serving_conn: "lcConns ex_serving 0 = Some (newNodeServer 7 ''n1:5555'')"
  and ex_serving_servers: "lcServers ex_serving = [(''n1:5555'', 0)]"
  and ex_serving_fresh: "lcFresh ex_serving = 1" and ex_serving_quiet: "lcSched ex_serving = []"
  by (simp_all add: ex_serving_def reconcile_def ex_reconcile_def New_Lifecycle_def connect_missing_def startOne_def
      preempt_def publishStatus_def Let_def)

theorem only_the_leader_serves_witness:
  "lcServers (fold act [] (reconcile (ex_reconcile False) ex_serving)) = [] \<and>
   snd (handleRequest (\<lambda>c q. c) 9 0 () ''chain-1'' (fold act [] (reconcile (ex_reconcile False) ex_serving))) = retiredChainID"
proof -
  have "\<not> rcLeader (ex_reconcile False)" by (simp add: ex_reconcile_def)
  note l = only_the_leader_serves [OF ex_serving_reachable this, of "[]"]
  show ?thesis using l [THEN conjunct1] l [THEN conjunct2, rule_format, of "\<lambda>c q. c" 9 0 "()" "''chain-1''"] by simp
qed

text \<open>
  C26: what a reconcile pass of the leader serves. Whatever the other goroutines do meanwhile, it serves
  only resolved nodes, each through the connector it had or through a new one whose server started; it
  serves every resolved node whose server can be started; and the connectors of nodes that are gone are
  retired with their sockets closed. A pass that nobody interrupts keeps exactly the connectors that are
  wanted and not silent. When the nodes cannot be resolved, nothing changes.
\<close>
theorem reconcile_serves_targets:
  assumes "serving cfg l" "rcLeader env" "l' = reconcile env l"
  shows "(\<forall>e. rcNodes env = Inl e \<longrightarrow> l' = l) \<and>
    (\<forall>desired. rcNodes env = Inr desired \<longrightarrow>
       (\<forall>a i. (a, i) \<in> set (lcServers l') \<longrightarrow>
          a \<in> set desired \<and> ((a, i) \<in> set (lcServers l) \<or> lcConns l i = None \<and> rcStart env a = None)) \<and>
       (\<forall>a\<in>set desired. rcStart env a = None \<longrightarrow> a \<in> fst ` set (lcServers l')) \<and>
       (\<forall>a i. (a, i) \<in> set (lcServers l) \<and> a \<notin> set desired \<longrightarrow> dead i l') \<and>
       (lcSched l = [] \<longrightarrow> (\<forall>a i. (a, i) \<in> set (lcServers l) \<longrightarrow>
          ((a, i) \<in> set (lcServers l') \<longleftrightarrow> stays env desired l (a, i)))))"
proof (intro conjI allI impI ballI)
  have inv: "lc_inv l" by (rule serving_inv [OF assms(1)])
  have inv': "lc_inv l'" unfolding assms(3) by (rule reconcile_inv [OF inv])
  show "l' = l" if "rcNodes env = Inl e" for e using assms(2,3) that by (simp add: reconcile_def)
  fix desired assume d: "rcNodes env = Inr desired"
  note r = reconcile_leader [OF inv assms(2) d, folded assms(3)]
  show "a \<in> set desired" "(a, i) \<in> set (lcServers l) \<or> lcConns l i = None \<and> rcStart env a = None"
    if "(a, i) \<in> set (lcServers l')" for a i using r(1) [OF that] by blast+
  show "a \<in> fst ` set (lcServers l')" if "a \<in> set desired" "rcStart env a = None" for a using r(2) [OF that] .
  show "dead i l'" if ai: "(a, i) \<in> set (lcServers l) \<and> a \<notin> set desired" for a i
  proof -
    obtain ns where "lcConns l i = Some ns" "nsAddr ns = a" using lc_invD(2) [OF inv, of a i] ai by blast
    then obtain ns' where ns': "lcConns l' i = Some ns'" "nsAddr ns' = a" using r(3) by (auto simp: remembers_def)
    then have "nsRetired ns'" using lc_invD(3) [OF inv' ns'(1)] r(1) [of a i] ai by blast
    then show ?thesis using lc_invD(7) [OF inv' ns'(1)] ns' by (auto simp: dead_def)
  qed
  show "(a, i) \<in> set (lcServers l') \<longleftrightarrow> stays env desired l (a, i)" if "lcSched l = []" "(a, i) \<in> set (lcServers l)" for a i
    using r(4) [OF that] .
qed

theorem reconcile_serves_targets_witness:
  "(''n1:5555'', 0) \<in> set (lcServers (reconcile (ex_reconcile True) ex_serving)) \<and>
   dead 0 (reconcile ((ex_reconcile True)\<lparr>rcNodes := Inr [''n2:5555'']\<rparr>) (ex_serving\<lparr>lcSched := [[Request 8 0], [Connect 0 None]]\<rparr>))"
proof -
  let ?env = "(ex_reconcile True)\<lparr>rcNodes := Inr [''n2:5555'']\<rparr>"
  let ?l = "ex_serving\<lparr>lcSched := [[Request 8 0], [Connect 0 None]]\<rparr>"
  have l: "rcLeader (ex_reconcile True)" "rcLeader ?env" and n: "rcNodes (ex_reconcile True) = Inr [''n1:5555'']"
    "rcNodes ?env = Inr [''n2:5555'']" by (simp_all add: ex_reconcile_def)
  have "stays (ex_reconcile True) [''n1:5555''] ex_serving (''n1:5555'', 0)"
    by (simp add: stays_def ex_serving_conn newNodeServer_def observe_def ex_reconcile_def)
  moreover note reconcile_serves_targets [OF ex_serving_reachable l(1) refl, THEN conjunct2, rule_format, OF n(1),
    THEN conjunct2, THEN conjunct2, THEN conjunct2, rule_format, of "''n1:5555''" 0]
  moreover note reconcile_serves_targets [OF serving.scheduled [OF ex_serving_reachable] l(2) refl, THEN conjunct2, rule_format,
    OF n(2), THEN conjunct2, THEN conjunct2, THEN conjunct1, rule_format, of "''n1:5555''" 0]
  ultimately show ?thesis by (simp add: ex_serving_servers ex_serving_quiet)
qed

text \<open>
  C27: retired connections are closed, under any interleaving with the steps of a pass. Whenever no
  pass is under way (the lock of the serving set is free), whatever dials, requests and finished stops
  ran before, between and inside the passes: the last socket a retired connector opened is closed, and a
  connector that is not retired, so that a connection may be handed over to it, is in the serving set
  under its own address. In every state whatsoever, also in the middle of a retirement where the flag
  is set and the socket still open: a request on a retired connector has its socket closed before it
  is refused, and a dial that finds its connector retired, at the connect or after the handshake,
  closes what it opened and fails.
\<close>
theorem retired_connections_are_closed:
  assumes "serving cfg l" "lcConns l i = Some ns"
  shows "(nsRetired ns \<and> nsConn ns = Some sk \<longrightarrow> lcSockets l sk = Some False) \<and>
    (handOver i l \<longrightarrow> (nsAddr ns, i) \<in> set (lcServers l)) \<and>
    (\<forall>l' ns'. lcConns l' i = Some ns' \<and> nsRetired ns' \<longrightarrow>
       (\<forall>handler now req cid sk'. nsConn ns' = Some sk' \<longrightarrow>
          lcSockets (fst (handleRequest handler now i req cid l')) sk' = Some False) \<and>
       (\<forall>handler now req cid. snd (handleRequest handler now i req cid l') = handler retiredChainID req) \<and>
       (let (l1, ph) = dial_connect i None l' in ph = DialFailed \<and> lcSockets l1 (lcFresh l') = Some False) \<and>
       (\<forall>sk'. let (l1, ph) = dial_handover i sk' l' in ph = DialFailed \<and> lcSockets l1 sk' = Some False))"
  using lc_invD(3,7) [OF serving_inv [OF assms(1)] assms(2)] assms(2)
  by (auto simp: handOver_def dial_connect_def dial_handover_def track_def handleRequest_def closeConn_sockets Let_def)

theorem retired_connections_are_closed_witness:
  "handOver 0 ex_serving \<and> (''n1:5555'', 0) \<in> set (lcServers ex_serving) \<and>
   lcSockets (fst (handleRequest (\<lambda>c q. c) 9 0 () ''chain-1''
     (on_conn 0 (\<lambda>ns. ns\<lparr>nsRetired := True\<rparr>) (act (Connect 0 None) ex_serving)))) 1 = Some False"
proof -
  let ?l = "on_conn 0 (\<lambda>ns. ns\<lparr>nsRetired := True\<rparr>) (act (Connect 0 None) ex_serving)"
  note c = retired_connections_are_closed [OF ex_serving_reachable ex_serving_conn]
  have h: "handOver 0 ex_serving" by (simp add: handOver_def ex_serving_conn newNodeServer_def)
  have "lcConns ?l 0 = Some ((newNodeServer 7 ''n1:5555'')\<lparr>nsRetired := True, nsConn := Some 1\<rparr>)"
    by (simp add: act_def enabled_def dial_connect_def track_def ex_serving_conn ex_serving_fresh newNodeServer_def Let_def)
  then obtain ns' where "lcConns ?l 0 = Some ns' \<and> nsRetired ns'" "nsConn ns' = Some 1" by (simp del: on_conn_simps)
  note k = this
  have "lcSockets (fst (handleRequest (\<lambda>c q. c) 9 0 () ''chain-1'' ?l)) 1 = Some False"
    using c [THEN conjunct2, THEN conjunct2, THEN spec, THEN spec, THEN mp, OF k(1), THEN conjunct1, THEN spec, THEN spec,
        THEN spec, THEN spec, THEN spec, THEN mp, OF k(2), of "\<lambda>c q. c" 9 "()" "''chain-1''"] .
  moreover have "(''n1:5555'', 0) \<in> set (lcServers ex_serving)"
    using c [THEN conjunct2, THEN conjunct1] h by (simp add: newNodeServer_def)
  ultimately show ?thesis using h by blast
qed

text \<open>
  C28: on shutdown every connection is retired before leadership is handed over, so a node never gets
  an answer from a leader that is giving leadership up; and Run returns only after the context ended.
\<close>
theorem retired_before_handoff:
  assumes "serving cfg l" "Run env es l = Some (l', hs, e)"
  shows "(\<forall>h. Handoff h \<in> set hs \<longrightarrow> all_retired h) \<and> all_retired l' \<and> (\<exists>now isLeader. Cancelled now isLeader e \<in> set es)"
  using run_loop_end [OF reconcile_inv [OF serving_inv [OF assms(1)]]] assms(2) unfolding Run_def by blast

theorem retired_before_handoff_witness:
  "\<exists>l' h. Run (ex_reconcile True) [Cancelled 9 True (Sentinel ContextCanceled)] ex_serving = Some (l', [Handoff h], Sentinel ContextCanceled) \<and>
     all_retired h \<and> all_retired l'"
proof -
  obtain l' h where r: "Run (ex_reconcile True) [Cancelled 9 True (Sentinel ContextCanceled)] ex_serving =
      Some (l', [Handoff h], Sentinel ContextCanceled)"
    by (simp add: Run_def transferLeadership_def Let_def)
  from retired_before_handoff [OF ex_serving_reachable r] r show ?thesis by auto
qed

text \<open>
  The loop's timing is bounded: whatever the configuration says, the health scan and the tick run
  at positive intervals, the scan never less often than the tick, and the fast discovery window after
  a retirement is at most 30 seconds and at most one interval.
\<close>
theorem timing_is_bounded:
  "serving cfg l \<longrightarrow> 0 < watchInterval l \<and> watchInterval l \<le> scReconcileInterval (lcCfg l) \<and>
   0 < discoveryPendingWindow l \<and> discoveryPendingWindow l \<le> 30 * second \<and>
   discoveryPendingWindow l \<le> scReconcileInterval (lcCfg l)"
proof
  have cfg_fold: "lcCfg (fold f xs l) = lcCfg l" if "\<And>x l. lcCfg (f x l) = lcCfg l" for f :: "'a \<Rightarrow> Lifecycle \<Rightarrow> Lifecycle" and xs l
    by (induction xs arbitrary: l) (simp_all add: that)
  have sa: "lcCfg (stopAll now l) = lcCfg l" for now l by (simp add: stopAll_def cfg_fold case_prod_beta)
  have sc: "lcCfg (fst (scan_servers now c ss l)) = lcCfg l" for now c ss l
    by (induction ss arbitrary: l) (auto simp: Let_def case_prod_beta split: option.splits)
  have ot: "lcCfg (other a l) = lcCfg l" for a l
    by (cases a) (auto simp: handleRequest_def touch_def dial_connect_def track_def Let_def dial_handshake_def dial_handover_def
        stop_finished_def requestReconcile_def split: option.splits)
  assume "serving cfg l"
  then have "scReconcileInterval (lcCfg l) > 0 \<and> scStaleConnTimeout (lcCfg l) > 0"
  proof (induction rule: serving.induct)
    case (reconciled l env)
    then show ?case by (auto simp: reconcile_def sa Let_def cfg_fold [OF connect_cfg] cfg_fold [OF review_cfg] split: sum.splits)
  next
    case (scanned l now c)
    then show ?case by (simp add: needsFastDiscovery_def Let_def case_prod_beta sc)
  qed (simp_all add: New_Lifecycle_def second_def act_def ot sa)
  then show "0 < watchInterval l \<and> watchInterval l \<le> scReconcileInterval (lcCfg l) \<and>
   0 < discoveryPendingWindow l \<and> discoveryPendingWindow l \<le> 30 * second \<and>
   discoveryPendingWindow l \<le> scReconcileInterval (lcCfg l)"
    by (auto simp: watchInterval_def discoveryPendingWindow_def second_def Let_def)
qed

theorem timing_is_bounded_witness: "0 < watchInterval ex_serving"
  using timing_is_bounded [of ex_server_config ex_serving] ex_serving_reachable by blast

end
