(* ===== verification/Health.thy ===== *)
theory Health
  imports Lifecycle Fsm
begin

section \<open>The health endpoints (internal/health/health.go)\<close>

text \<open>
  A disabled listener is a nil \<^verbatim>\<open>*Server\<close>, here \<open>None\<close>. The role of the replica and its connections
  are read when a request is answered, so the server holds functions of the state of the process
  (\<open>'w\<close>). The HTTP library is an argument only where it can fail: binding the address.
\<close>

record Info =
  infVersion :: string
  infChainID :: string
  infRaftNodeID :: string

record HealthRaft =
  hrState :: string
  hrLeader :: bool

record HealthNode =
  hnAddress :: string
  hnConnected :: bool
  hnLastActivity :: time

record 'w HealthServer =
  hsInfo :: Info
  hsReady :: bool
  hsRaft :: "('w \<Rightarrow> HealthRaft) option"
  hsNodes :: "('w \<Rightarrow> HealthNode list) option"

definition health_Start :: "go_error option \<Rightarrow> Info \<Rightarrow> 'w HealthServer result" where
  "health_Start listenErr info =
     (case listenErr of
        Some e \<Rightarrow> Inl (Errorf ''listen on http_addr'' [e])
      | None \<Rightarrow> Inr \<lparr>hsInfo = info, hsReady = False, hsRaft = None, hsNodes = None\<rparr>)"

definition SetReady :: "bool \<Rightarrow> 'w HealthServer option \<Rightarrow> 'w HealthServer option" where
  "SetReady ready = map_option (hsReady_update (\<lambda>_. ready))"

definition SetRaft :: "('w \<Rightarrow> HealthRaft) \<Rightarrow> 'w HealthServer option \<Rightarrow> 'w HealthServer option" where
  "SetRaft fn = map_option (hsRaft_update (\<lambda>_. Some fn))"

definition SetNodes :: "('w \<Rightarrow> HealthNode list) \<Rightarrow> 'w HealthServer option \<Rightarrow> 'w HealthServer option" where
  "SetNodes fn = map_option (hsNodes_update (\<lambda>_. Some fn))"

type_synonym response = "nat \<times> string"

definition writeText :: "nat \<Rightarrow> string \<Rightarrow> response" where
  "writeText code body = (code, body @ [CHR 0x0A])"

definition livez :: "'w HealthServer \<Rightarrow> response" where
  "livez s = writeText 200 ''ok''"

definition readyz :: "'w HealthServer \<Rightarrow> response" where
  "readyz s = (if \<not> hsReady s then writeText 503 ''not ready'' else writeText 200 ''ok'')"

text \<open>A time that cannot be written in the JSON layout makes the encoder fail and the body empty.\<close>

definition node_json :: "HealthNode \<Rightarrow> json option" where
  "node_json n =
     (let base = [(''address'', JStr (hnAddress n)), (''connected'', JBool (hnConnected n))] in
      if hnLastActivity n = zero_time then Some (JObj base)
      else map_option (\<lambda>t. JObj (base @ [(''last_activity'', JStr t)])) (format_rfc3339 (hnLastActivity n)))"

definition status_json :: "'w \<Rightarrow> 'w HealthServer \<Rightarrow> json option" where
  "status_json w s =
     (let raft = (case hsRaft s of Some fn \<Rightarrow> fn w | None \<Rightarrow> \<lparr>hrState = ''unknown'', hrLeader = False\<rparr>);
          nodes = (case hsNodes s of Some fn \<Rightarrow> map node_json (fn w) | None \<Rightarrow> []) in
      if None \<in> set nodes then None
      else Some (JObj
        [(''version'', JStr (infVersion (hsInfo s))), (''chain_id'', JStr (infChainID (hsInfo s))),
         (''raft'', JObj [(''node_id'', JStr (infRaftNodeID (hsInfo s))), (''state'', JStr (hrState raft)), (''leader'', JBool (hrLeader raft))]),
         (''ready'', JBool (hsReady s)), (''nodes'', JArr (map the nodes))]))"

definition status :: "'w \<Rightarrow> 'w HealthServer \<Rightarrow> response" where
  "status w s = (200, case status_json w s of None \<Rightarrow> [] | Some j \<Rightarrow> json_marshal j @ [CHR 0x0A])"

text \<open>
  The nodes of the lifecycle as start.go hands them over: unix nanoseconds become instants, an
  unknown activity is the zero time.
\<close>

definition unix_epoch :: time where
  "unix_epoch = 62135596800 * 1000000000"

definition lifecycle_nodes :: "Lifecycle \<Rightarrow> HealthNode list" where
  "lifecycle_nodes l =
     map (\<lambda>n. \<lparr>hnAddress = stAddress n, hnConnected = stConnected n,
       hnLastActivity = (case stLastActivity n of Some t \<Rightarrow> unix_epoch + t | None \<Rightarrow> zero_time)\<rparr>) (Status l)"

lemma node_json_ok:
  assumes "node_json n = Some j" "ascii (hnAddress n)"
  shows "json_depth j \<le> 1" "json_ascii j"
  using assms by (auto simp: node_json_def Let_def dest: parse_format_rfc3339(2) split: if_splits)

definition ascii_server :: "'w \<Rightarrow> 'w HealthServer \<Rightarrow> bool" where
  "ascii_server w s \<longleftrightarrow> ascii (infVersion (hsInfo s)) \<and> ascii (infChainID (hsInfo s)) \<and> ascii (infRaftNodeID (hsInfo s)) \<and>
     (\<forall>fn. hsRaft s = Some fn \<longrightarrow> ascii (hrState (fn w))) \<and> (\<forall>fn. hsNodes s = Some fn \<longrightarrow> list_all (\<lambda>n. ascii (hnAddress n)) (fn w))"

lemma status_json_ok:
  assumes "status_json w s = Some j" "ascii_server w s"
  shows "json_depth j \<le> 10000" "json_ascii j"
proof -
  obtain kvs where j: "j = JObj kvs" using assms(1) by (auto simp: status_json_def Let_def split: if_splits)
  let ?nodes = "case hsNodes s of Some fn \<Rightarrow> map node_json (fn w) | None \<Rightarrow> []"
  have nd: "json_depth x \<le> 1 \<and> json_ascii x" if "Some x \<in> set ?nodes" for x
  proof -
    from that obtain fn n where "hsNodes s = Some fn" "n \<in> set (fn w)" "node_json n = Some x"
      by (cases "hsNodes s") auto
    moreover have "ascii (hnAddress n)" using calculation assms(2) by (auto simp: ascii_server_def list_all_iff)
    ultimately show ?thesis using node_json_ok by blast
  qed
  have none: "None \<notin> set ?nodes" using assms(1) by (auto simp: status_json_def Let_def split: if_splits)
  have arr: "x \<in> set (map the ?nodes) \<Longrightarrow> json_depth x \<le> 1 \<and> json_ascii x" for x
    using nd none by (metis (no_types, lifting) image_iff list.set_map option.collapse)
  have "json_depth (JArr (map the ?nodes)) \<le> 2"
    using arr by (simp add: foldr_max_le)
  moreover have "json_ascii (JArr (map the ?nodes))" using arr by (simp add: list_all_iff)
  ultimately show "json_depth j \<le> 10000" "json_ascii j"
    using assms by (auto simp: status_json_def Let_def ascii_server_def simp del: json_ascii.simps(3) json_depth.simps(1) split: if_splits option.splits)
qed

definition served_nodes :: "'w \<Rightarrow> 'w HealthServer \<Rightarrow> HealthNode list" where
  "served_nodes w s = (case hsNodes s of Some fn \<Rightarrow> fn w | None \<Rightarrow> [])"

text \<open>The last activity of a node can be written as a JSON time, or there is none to write.\<close>

definition writable :: "HealthNode \<Rightarrow> bool" where
  "writable n \<longleftrightarrow> hnLastActivity n = zero_time \<or> format_rfc3339 (hnLastActivity n) \<noteq> None"

lemma node_json_writable: "node_json n \<noteq> None \<longleftrightarrow> writable n"
  by (simp add: node_json_def writable_def Let_def)

definition node_entry :: "HealthNode \<Rightarrow> json \<Rightarrow> bool" where
  "node_entry n j \<longleftrightarrow>
     (if hnLastActivity n = zero_time
      then j = JObj [(''address'', JStr (hnAddress n)), (''connected'', JBool (hnConnected n))]
      else \<exists>t. parse_rfc3339 t = Some (hnLastActivity n) \<and>
        j = JObj [(''address'', JStr (hnAddress n)), (''connected'', JBool (hnConnected n)), (''last_activity'', JStr t)])"

lemma node_json_entry: "writable n \<Longrightarrow> node_entry n (the (node_json n))"
  by (auto simp: writable_def node_entry_def node_json_def Let_def dest: parse_format_rfc3339(1))

text \<open>
  C29: the status endpoint tells the truth in a document every JSON reader gets back. For a server whose
  strings are ASCII and whose nodes' times can be written, the body parses to an object with exactly
  the version, chain id and raft node id of the process, the replica's role and leader flag at the
  time of the request, the flag the readiness endpoint answers by, and one entry per served node, in
  order, with its address, whether it is connected, and its last activity exactly when there was one,
  in a form that parses back to the same instant. Liveness is answered the same whatever the state.
\<close>
theorem status_document_round_trip:
  fixes s :: "'w HealthServer"
  assumes "ascii_server w s" and "list_all writable (served_nodes w s)"
  shows "\<exists>state leader entries. fst (status w s) = 200 \<and>
    json_unmarshal (snd (status w s)) = Some (JObj
      [(''version'', JStr (infVersion (hsInfo s))), (''chain_id'', JStr (infChainID (hsInfo s))),
       (''raft'', JObj [(''node_id'', JStr (infRaftNodeID (hsInfo s))), (''state'', JStr state), (''leader'', JBool leader)]),
       (''ready'', JBool (fst (readyz s) = 200)), (''nodes'', JArr entries)]) \<and>
    (case hsRaft s of Some fn \<Rightarrow> state = hrState (fn w) \<and> leader = hrLeader (fn w) | None \<Rightarrow> state = ''unknown'' \<and> \<not> leader) \<and>
    list_all2 node_entry (served_nodes w s) entries \<and>
    (fst (readyz s) = 200 \<longleftrightarrow> hsReady s) \<and> (\<forall>s' :: 'w HealthServer. livez s' = livez s)"
proof -
  let ?raft = "case hsRaft s of Some fn \<Rightarrow> fn w | None \<Rightarrow> \<lparr>hrState = ''unknown'', hrLeader = False\<rparr>"
  let ?nodes = "case hsNodes s of Some fn \<Rightarrow> map node_json (fn w) | None \<Rightarrow> []"
  have nodes: "?nodes = map node_json (served_nodes w s)" by (simp add: served_nodes_def split: option.split)
  have "None \<notin> set ?nodes" unfolding nodes using assms(2) node_json_writable by (force simp: list_all_iff)
  then obtain j where j: "status_json w s = Some j" and doc: "j = JObj
      [(''version'', JStr (infVersion (hsInfo s))), (''chain_id'', JStr (infChainID (hsInfo s))),
       (''raft'', JObj [(''node_id'', JStr (infRaftNodeID (hsInfo s))), (''state'', JStr (hrState ?raft)), (''leader'', JBool (hrLeader ?raft))]),
       (''ready'', JBool (hsReady s)), (''nodes'', JArr (map the ?nodes))]"
    by (simp add: status_json_def Let_def)
  have r: "fst (readyz s) = 200 \<longleftrightarrow> hsReady s" by (simp add: readyz_def writeText_def)
  have "json_unmarshal (snd (status w s)) = Some j" "fst (status w s) = 200"
    using json_unmarshal_line [OF status_json_ok(2) [OF j assms(1)] status_json_ok(1) [OF j assms(1)]] j by (simp_all add: status_def)
  moreover have "list_all2 node_entry (served_nodes w s) (map the ?nodes)"
    unfolding nodes using assms(2) node_json_entry by (auto simp: list_all2_conv_all_nth list_all_length)
  moreover have "case hsRaft s of Some fn \<Rightarrow> hrState ?raft = hrState (fn w) \<and> hrLeader ?raft = hrLeader (fn w)
      | None \<Rightarrow> hrState ?raft = ''unknown'' \<and> \<not> hrLeader ?raft" by (simp split: option.split)
  ultimately show ?thesis unfolding doc r livez_def by blast
qed

definition ex_health :: "unit HealthServer" where
  "ex_health = \<lparr>hsInfo = \<lparr>infVersion = ''v1'', infChainID = ''chain-1'', infRaftNodeID = ''n1''\<rparr>, hsReady = True,
     hsRaft = Some (\<lambda>_. \<lparr>hrState = ''leader'', hrLeader = True\<rparr>), hsNodes = Some (\<lambda>_. [\<lparr>hnAddress = ''a:1'', hnConnected = True, hnLastActivity = unix_epoch\<rparr>])\<rparr>"

theorem status_document_round_trip_witness:
  "\<exists>t. parse_rfc3339 t = Some unix_epoch \<and> json_unmarshal (snd (status () ex_health)) = Some (JObj
      [(''version'', JStr ''v1''), (''chain_id'', JStr ''chain-1''),
       (''raft'', JObj [(''node_id'', JStr ''n1''), (''state'', JStr ''leader''), (''leader'', JBool True)]),
       (''ready'', JBool True),
       (''nodes'', JArr [JObj [(''address'', JStr ''a:1''), (''connected'', JBool True), (''last_activity'', JStr t)]])])"
proof -
  have a: "ascii_server () ex_health" by (simp add: ascii_server_def ex_health_def)
  have "format_rfc3339 unix_epoch = Some ''1970-01-01T00:00:00Z''" by code_simp
  then have "list_all writable (served_nodes () ex_health)"
    by (simp add: served_nodes_def ex_health_def writable_def unix_epoch_def zero_time_def)
  from status_document_round_trip [OF a this] obtain es where
    "list_all2 node_entry (served_nodes () ex_health) es" "json_unmarshal (snd (status () ex_health)) = Some (JObj
      [(''version'', JStr ''v1''), (''chain_id'', JStr ''chain-1''),
       (''raft'', JObj [(''node_id'', JStr ''n1''), (''state'', JStr ''leader''), (''leader'', JBool True)]),
       (''ready'', JBool True), (''nodes'', JArr es)])" by (auto simp: ex_health_def)
  then show ?thesis
    by (auto simp: served_nodes_def ex_health_def node_entry_def unix_epoch_def zero_time_def list_all2_Cons1)
qed

end
