(* ===== verification/Start.thy ===== *)
theory Start
  imports Software Health
begin

section \<open>The start command (cmd/cosmosigner/cmd/start.go)\<close>

text \<open>
  How a signer comes up: the key backend, the raft store, the cluster identity, the key's claim, the
  preflight, and only then the connections. The claim lives in a registry whose state is threaded
  through; what the other collaborators answered is an argument, and the calls that matter for the
  order are logged.
\<close>

subsection \<open>Preparing: identity, claim, preflight\<close>

definition verifyExpectedPublicKey :: "bytes result \<Rightarrow> string \<Rightarrow> go_error option" where
  "verifyExpectedPublicKey pubKey expected =
     (if expected = [] then None
      else case b64_decode expected of
        None \<Rightarrow> Some (errors_New ''decode expected public key'')
      | Some want \<Rightarrow>
     (case pubKey of
        Inl e \<Rightarrow> Some (Errorf ''get backend public key'' [e])
      | Inr pub \<Rightarrow> if pub \<noteq> want then Some (errors_New ''backend public key does not match expected public key'') else None))"

text \<open>
  \<^verbatim>\<open>claimWithConfig\<close>: the claim goes through the runtime backend, or through one built from the claim
  credentials and closed right after.
\<close>

datatype start_call =
    EnsureIdentity | ReadBinding | OpenClaimBackend | ClaimKey string | CloseClaimBackend | Preflight | StartRenewal
  | OpenStore | CloseStore | PrintIdentity string | AwaitShutdown | NewSigner | LoadConnKey | BuildNodes | MarkReady bool | RunLifecycle
  | ShutdownBegins | RetireConnections | HandOff | StartHealth | CloseHealth | OpenBackend | CloseBackend

definition claimWithConfig ::
  "bool \<Rightarrow> go_error option \<Rightarrow> (string \<Rightarrow> 's \<Rightarrow> ('s \<times> go_error option) option) \<Rightarrow> string \<Rightarrow> 's \<Rightarrow>
   start_call list \<times> ('s \<times> go_error option) option" where
  "claimWithConfig separate openErr claim cid s =
     (case (if separate then openErr else None) of
        Some e \<Rightarrow> ([OpenClaimBackend], Some (s, Some (Errorf ''build claim backend'' [e])))
      | None \<Rightarrow>
          ((if separate then [OpenClaimBackend] else []) @ [ClaimKey cid] @ (if separate then [CloseClaimBackend] else []),
           map_option (\<lambda>(s', r). (s', map_option (\<lambda>e. Errorf ''claim'' [e]) r)) (claim cid s)))"

record 's startup_env =
  suEnsure :: "string result"
  suRead :: "'s \<Rightarrow> string result"
  suClaim :: "(string \<Rightarrow> 's \<Rightarrow> start_call list \<times> ('s \<times> go_error option) option) option"
  suReread :: "'s \<Rightarrow> string result"
  suPreflight :: "go_error option option"
  suCtx :: "go_error option"
  suRenewal :: "go_error option option"

text \<open>After the binding is known to be this cluster's.\<close>

definition finish_startup :: "'s startup_env \<Rightarrow> string \<Rightarrow> start_call list \<times> string result" where
  "finish_startup env cid =
     (case suPreflight env of
        Some (Some e) \<Rightarrow> ([Preflight], Inl (Errorf ''backend preflight'' [e]))
      | pf \<Rightarrow>
     (let cs = (if pf = None then [] else [Preflight]) in
      case suCtx env of
        Some e \<Rightarrow> (cs, Inl e)
      | None \<Rightarrow>
     (case suRenewal env of
        None \<Rightarrow> (cs, Inr cid)
      | Some (Some e) \<Rightarrow> (cs @ [StartRenewal], Inl (Errorf ''start backend renewal'' [e]))
      | Some None \<Rightarrow> (cs @ [StartRenewal], Inr cid))))"

text \<open>\<open>None\<close> while the claim still waits for its lock.\<close>

definition prepareStartupWithClaim ::
  "'s startup_env \<Rightarrow> bool \<Rightarrow> 's \<Rightarrow> start_call list \<times> ('s \<times> string result) option" where
  "prepareStartupWithClaim env initializeOnly s =
     (case suEnsure env of
        Inl e \<Rightarrow> ([EnsureIdentity], Some (s, Inl (Errorf ''ensure Raft cluster ID'' [e])))
      | Inr cid \<Rightarrow>
          if initializeOnly then ([EnsureIdentity], Some (s, Inr cid))
          else
     (case (RequireClusterBinding (suRead env s) cid, suClaim env) of
        (None, _) \<Rightarrow>
          let (cs, r) = finish_startup env cid in ([EnsureIdentity, ReadBinding] @ cs, Some (s, r))
      | (Some e, Some claim) \<Rightarrow>
          if \<not> errors_is e ErrBindingUnclaimed then ([EnsureIdentity, ReadBinding], Some (s, Inl e))
          else
     (case claim cid s of
        (ccs, None) \<Rightarrow> ([EnsureIdentity, ReadBinding] @ ccs, None)
      | (ccs, Some (s', Some ce)) \<Rightarrow> ([EnsureIdentity, ReadBinding] @ ccs, Some (s', Inl ce))
      | (ccs, Some (s', None)) \<Rightarrow>
     (case RequireClusterBinding (suReread env s') cid of
        Some e \<Rightarrow> ([EnsureIdentity, ReadBinding] @ ccs @ [ReadBinding], Some (s', Inl e))
      | None \<Rightarrow> let (cs, r) = finish_startup env cid in ([EnsureIdentity, ReadBinding] @ ccs @ [ReadBinding] @ cs, Some (s', r))))
      | (Some e, None) \<Rightarrow> ([EnsureIdentity, ReadBinding], Some (s, Inl e))))"

definition prepareStartup :: "'s startup_env \<Rightarrow> bool \<Rightarrow> 's \<Rightarrow> start_call list \<times> ('s \<times> string result) option" where
  "prepareStartup env initializeOnly s = prepareStartupWithClaim (env\<lparr>suClaim := None\<rparr>) initializeOnly s"

definition buildNodeSource :: "Config \<Rightarrow> NodeSource result" where
  "buildNodeSource cfg =
     (if NodeService cfg \<noteq> []
      then (case NewHeadlessServiceNodes (NodeService cfg) of Inl e \<Rightarrow> Inl e | Inr h \<Rightarrow> Inr (Headless h))
      else Inr (StaticNodes (NodeAddrs cfg)))"

lemma finish_startup_ok: "finish_startup env cid = (cs, Inr c) \<Longrightarrow> c = cid"
  by (auto simp: finish_startup_def Let_def split: option.splits)

lemma finish_startup_calls: "finish_startup env cid = (cs, r) \<Longrightarrow> set cs \<subseteq> {Preflight, StartRenewal}"
  by (auto simp: finish_startup_def Let_def split: option.splits if_splits)

lemma prepareStartup_ok:
  assumes "prepareStartupWithClaim env False s = (cs, Some (s', Inr cid))"
  shows "suEnsure env = Inr cid \<and> valid_id cid \<and> (suRead env s = Inr cid \<and> s' = s \<or>
     (\<exists>claim ccs. suClaim env = Some claim \<and> claim cid s = (ccs, Some (s', None)) \<and> suReread env s' = Inr cid))"
  using assms
  by (auto simp: prepareStartupWithClaim_def Let_def RequireClusterBinding_None
      split: sum.splits option.splits prod.splits if_splits dest!: finish_startup_ok)

subsection \<open>runStartWithContext\<close>

text \<open>
  What the collaborators answered after the raft store is open. \<open>rwMembership\<close> is the number of
  voters in the persisted membership, \<open>rwEnded\<close> whether the context has ended before the connection
  loop is entered, \<open>rwAfterFunc\<close> when the function registered with \<^verbatim>\<open>context.AfterFunc\<close> runs.
\<close>

record 's run_env =
  rwStore :: "go_error option"
  rwStartup :: "'s startup_env"
  rwClaimOpen :: "go_error option"
  rwClaim :: "string \<Rightarrow> 's \<Rightarrow> ('s \<times> go_error option) option"
  rwMembership :: "nat result"
  rwPrint :: "go_error option"
  rwShutdown :: go_error
  rwSigner :: "go_error option"
  rwConnKey :: "go_error option"
  rwRun :: "go_error option"
  rwEnded :: bool
  rwAfterFunc :: "nat option"

text \<open>The claimer handed to \<^verbatim>\<open>prepareStartupWithClaim\<close>.\<close>

definition startup_of :: "Config \<Rightarrow> 's run_env \<Rightarrow> 's startup_env" where
  "startup_of cfg env =
     (rwStartup env)\<lparr>suClaim :=
        if ClaimIfUnclaimed cfg
        then Some (claimWithConfig (HasSeparateClaimCredentials (Backend cfg)) (rwClaimOpen env) (rwClaim env))
        else None\<rparr>"

definition initialize_only :: "'s run_env \<Rightarrow> string \<Rightarrow> start_call list \<times> go_error option" where
  "initialize_only env cid =
     (case rwMembership env of
        Inl e \<Rightarrow> ([], Some (Errorf ''read persisted Raft membership'' [e]))
      | Inr voters \<Rightarrow>
          if voters = 0 then ([], Some (errors_New ''persisted Raft membership has no voters''))
          else (case rwPrint env of
              Some e \<Rightarrow> ([PrintIdentity cid], Some e)
            | None \<Rightarrow>
                if voters > 1 then
                  ([PrintIdentity cid, AwaitShutdown],
                   if errors_is (rwShutdown env) ContextCanceled then None else Some (rwShutdown env))
                else ([PrintIdentity cid], None)))"

text \<open>
  \<^verbatim>\<open>context.AfterFunc\<close> runs its function in a goroutine of its own once the context has ended: after any
  number of the calls the main goroutine makes from then on, or never, when it is stopped first. (When
  it runs even later than the deferred calls, readiness is withdrawn already.)
\<close>

definition with_after_func :: "nat option \<Rightarrow> start_call list \<Rightarrow> start_call list" where
  "with_after_func at cs = (case at of None \<Rightarrow> cs | Some k \<Rightarrow> take k cs @ [MarkReady False] @ drop k cs)"

text \<open>
  Readiness is withdrawn twice: by that function and by the deferred call after \<^verbatim>\<open>Run\<close> has returned.
  \<^verbatim>\<open>Run\<close> returns only after the context has ended, having retired the connections and handed
  leadership over.
\<close>

definition serve :: "Config \<Rightarrow> 's run_env \<Rightarrow> start_call list \<times> go_error option" where
  "serve cfg env =
     (case rwSigner env of
        Some e \<Rightarrow> ([NewSigner], Some e)
      | None \<Rightarrow>
     (case rwConnKey env of
        Some e \<Rightarrow> ([NewSigner, LoadConnKey], Some e)
      | None \<Rightarrow>
     (case buildNodeSource cfg of
        Inl e \<Rightarrow> ([NewSigner, LoadConnKey, BuildNodes], Some e)
      | Inr _ \<Rightarrow>
          ([NewSigner, LoadConnKey, BuildNodes, MarkReady True] @
           (if rwEnded env
            then ShutdownBegins # with_after_func (rwAfterFunc env) [RunLifecycle, RetireConnections, HandOff, MarkReady False]
            else [RunLifecycle, ShutdownBegins] @ with_after_func (rwAfterFunc env) [RetireConnections, HandOff, MarkReady False]),
           case rwRun env of
             Some e \<Rightarrow> if errors_is e ContextCanceled then None else Some e
           | None \<Rightarrow> None))))"






definition runStartWithContext ::
  "Config \<Rightarrow> 's run_env \<Rightarrow> bool \<Rightarrow> 's \<Rightarrow> start_call list \<times> ('s \<times> go_error option) option" where
  "runStartWithContext cfg env initializeOnly s =
     (case rwStore env of
        Some e \<Rightarrow> ([OpenStore], Some (s, Some e))
      | None \<Rightarrow>
     (case prepareStartupWithClaim (startup_of cfg env) initializeOnly s of
        (ps, None) \<Rightarrow> (OpenStore # ps, None)
      | (ps, Some (s', Inl e)) \<Rightarrow> (OpenStore # ps @ [CloseStore], Some (s', Some e))
      | (ps, Some (s', Inr cid)) \<Rightarrow>
          let (cs, r) = (if initializeOnly then initialize_only env cid else serve cfg env) in
          (OpenStore # ps @ cs @ [CloseStore], Some (s', r))))"







subsection \<open>runStart\<close>

text \<open>The warnings printed first; the second one is for an environment variable that is no longer read.\<close>

definition writeInsecureRaftWarning :: "bool \<Rightarrow> string list" where
  "writeInsecureRaftWarning insecure =
     (if insecure then [''WARNING: raft transport is insecure; configure mutual TLS for production''] else [])"

definition maxRetriesEnv :: string where
  "maxRetriesEnv = ''COSMOSIGNER_CONN_MAX_RETRIES''"

definition writeMaxRetriesWarning :: "string \<Rightarrow> string list" where
  "writeMaxRetriesWarning val =
     (if val \<noteq> [] then [''WARNING: '' @ maxRetriesEnv @
        '' is deprecated and ignored; a node is dialed until it leaves the target set''] else [])"

definition start_warnings :: "Config \<Rightarrow> string \<Rightarrow> string list" where
  "start_warnings cfg maxRetries = writeInsecureRaftWarning (rsInsecure (Raft cfg)) @ writeMaxRetriesWarning maxRetries"

text \<open>\<open>None\<close> is the nil server of a configuration without an address.\<close>

definition startHealthServer :: "string \<Rightarrow> go_error option \<Rightarrow> Config \<Rightarrow> 'w HealthServer option result" where
  "startHealthServer version listenErr cfg =
     (if HTTPAddr cfg = [] then Inr None
      else case health_Start listenErr
             \<lparr>infVersion = version, infChainID = ChainID cfg, infRaftNodeID = rsNodeID (Raft cfg)\<rparr> of
        Inl e \<Rightarrow> Inl e
      | Inr hs \<Rightarrow> Inr (Some hs))"

record 's start_env =
  stVersion :: string
  stHealth :: "go_error option"
  stOpen :: "go_error option"
  stPubKey :: "bytes result"
  stRun :: "'s run_env"
  stCtxErr :: go_error

text \<open>
  After a PIN failure with the health endpoints on, the process stays up, blocked, until it is told to
  stop: a restart would try the PIN again.
\<close>

definition open_and_run ::
  "Config \<Rightarrow> 's start_env \<Rightarrow> bool \<Rightarrow> 's \<Rightarrow> start_call list \<times> ('s \<times> go_error option) option" where
  "open_and_run cfg env initializeOnly s =
     (case stOpen env of
        Some e \<Rightarrow> ([OpenBackend], Some (s, Some e))
      | None \<Rightarrow>
     (case verifyExpectedPublicKey (stPubKey env) (ExpectedPublicKey cfg) of
        Some e \<Rightarrow> ([OpenBackend, CloseBackend], Some (s, Some e))
      | None \<Rightarrow>
     (case runStartWithContext cfg (stRun env) initializeOnly s of
        (rs, None) \<Rightarrow> (OpenBackend # rs, None)
      | (rs, Some r) \<Rightarrow> (OpenBackend # rs @ [CloseBackend], Some r))))"


definition runStart :: "Config \<Rightarrow> 's start_env \<Rightarrow> bool \<Rightarrow> 's \<Rightarrow> start_call list \<times> ('s \<times> go_error option) option" where
  "runStart cfg env initializeOnly s =
     (case (startHealthServer (stVersion env) (stHealth env) cfg :: unit HealthServer option result) of
        Inl e \<Rightarrow> ([StartHealth], Some (s, Some e))
      | Inr server \<Rightarrow>
     (let health = (server \<noteq> None); hs = (if health then [StartHealth] else []); hc = (if health then [CloseHealth] else []) in
      case open_and_run cfg env initializeOnly s of
        (cs, None) \<Rightarrow> (hs @ cs, None)
      | (cs, Some (s', r)) \<Rightarrow>
          if health \<and> (case r of Some e \<Rightarrow> errors_is e ErrPKCS11PINFailure | None \<Rightarrow> False)
          then (hs @ cs @ [AwaitShutdown] @ hc,
                Some (s', if errors_is (stCtxErr env) ContextCanceled then None else Some (stCtxErr env)))
          else (hs @ cs @ hc, Some (s', r))))"

text \<open>
  The command: the configuration file comes from its flag or else from the environment; everything
  the run meets may depend on the configuration.
\<close>

definition start_command ::
  "config_sources \<Rightarrow> flags \<Rightarrow> string \<Rightarrow> string \<Rightarrow> (Config \<Rightarrow> 's start_env) \<Rightarrow> bool \<Rightarrow> 's \<Rightarrow> start_call list \<times> ('s \<times> go_error option) option" where
  "start_command sources f configFlag configEnv env initializeOnly s =
     (let cfgFile = (if configFlag = [] then configEnv else configFlag) in
      case Load sources cfgFile (Some (overlayStartFlags f)) of
        Inl e \<Rightarrow> ([], Some (s, Some e))
      | Inr cfg \<Rightarrow> runStart cfg (env cfg) initializeOnly s)"

text \<open>Nothing is opened, started or claimed under a configuration that does not validate.\<close>

lemma start_command_validated:
  assumes "start_command sources f cf ce env io s = (cs, r)" "cs \<noteq> []"
  shows "\<exists>cfg. Config_Validate cfg = None \<and> runStart cfg (env cfg) io s = (cs, r)"
  using assms by (auto simp: start_command_def Load_def Let_def split: sum.splits option.splits if_splits)

subsection \<open>Startup over a claim registry\<close>

text \<open>A signer of one key: reads through the registry, claims with or without separate credentials.\<close>

definition registry_startup ::
  "('e \<Rightarrow> 's \<Rightarrow> string result) \<Rightarrow> ('f \<Rightarrow> string \<Rightarrow> 's \<Rightarrow> ('s \<times> go_error option) option) \<Rightarrow> 'e \<Rightarrow> 'e \<Rightarrow> 'f \<Rightarrow>
   bool \<Rightarrow> bool \<Rightarrow> go_error option \<Rightarrow> 's startup_env \<Rightarrow> 's startup_env" where
  "registry_startup binding claim e1 e2 f mayClaim separate openErr env =
     env\<lparr>suRead := binding e1, suReread := binding e2,
         suClaim := (if mayClaim then Some (claimWithConfig separate openErr (claim f)) else None)\<rparr>"

context claim_registry
begin

lemma startup_owns:
  assumes "fair_read e1" "fair_read e2"
    "prepareStartupWithClaim (registry_startup cluster_binding claim_cluster e1 e2 f mc sep oe env) False s = (cs, Some (s', Inr cid))"
  shows "owner s' = Some cid"
  using prepareStartup_ok [OF assms(3)] binding_is_owner [OF assms(1)] binding_is_owner [OF assms(2)]
  by (auto simp: registry_startup_def)

lemma startup_keeps:
  assumes "fair f" "owner s = Some cid"
    "prepareStartupWithClaim (registry_startup cluster_binding claim_cluster e1 e2 f mc sep oe env) io s = (cs, Some (s', r))"
  shows "owner s' = Some cid"
proof -
  have "owner s2 = Some cid" if "claimWithConfig sep oe (claim_cluster f) c s = (ccs, Some (s2, r2))" for c ccs s2 r2
    using that claim_keeps_owner [OF assms(1,2)] assms(2)
    by (auto simp: claimWithConfig_def split: option.splits if_splits)
  then show ?thesis using assms(2,3)
    by (auto simp: prepareStartupWithClaim_def registry_startup_def Let_def
        split: sum.splits option.splits prod.splits if_splits)
qed

lemma startups_agree:
  assumes "fair f'" "fair_read e1" "fair_read e2" "owner s1 = Some a"
    "prepareStartupWithClaim (registry_startup cluster_binding claim_cluster e1 e2 f' mc sep oe env) False s1 = (cs, Some (s2, Inr b))"
  shows "b = a"
  using startup_keeps [OF assms(1,4,5)] startup_owns [OF assms(2,3,5)] by simp

end

subsection \<open>Properties\<close>

text \<open>
  Two signers that come up on the same key marker belong to the same raft history. When a start
  succeeds for cluster a, then as long as nobody changes a published marker, every later start over
  that marker, whether it may claim or not and with whatever faults, succeeds only for cluster a.
\<close>
theorem signers_share_history:
  assumes "wf_binding s" "fair_env s f'" "kept (fbPath s) fs1 fs2"
    "prepareStartupWithClaim (registry_startup (fb_read s) (fb_claim s pre) e1 e2 f mc sep oe env) False fs = (cs, Some (fs1, Inr a))"
    "prepareStartupWithClaim (registry_startup (fb_read s) (fb_claim s pre') e1' e2' f' mc' sep' oe' env') False fs2 = (cs', Some (fs3, Inr b))"
  shows "a = b"
proof -
  have "file_owner s fs2 = Some a" using kept_owner [OF assms(3) file_registry.startup_owns [OF TrueI TrueI assms(4)]] .
  then show ?thesis using file_registry.startups_agree [OF _ TrueI TrueI _ assms(5)] assms(1,2) by simp
qed

definition ex_startup_env :: "fs startup_env" where
  "ex_startup_env = \<lparr>suEnsure = Inr ex_uuid, suRead = (\<lambda>_. Inl (errors_New [])), suClaim = None, suReread = (\<lambda>_. Inl (errors_New [])),
     suPreflight = Some None, suCtx = None, suRenewal = None\<rparr>"

definition ex_signer_startup :: "fs startup_env" where
  "ex_signer_startup = registry_startup (fb_read ex_binding) (fb_claim ex_binding (\<lambda>_. None)) quiet_read quiet_read (quiet_env ''1'')
     True False None ex_startup_env"

definition ex_claimed :: fs where
  "ex_claimed = [fbLockPath ex_binding @ softwareLockSuffix \<mapsto> [], fbPath ex_binding \<mapsto> marker_bytes ex_binding ex_uuid]"

lemma ex_startup_claims: "\<exists>cs. prepareStartupWithClaim ex_signer_startup False Map.empty = (cs, Some (ex_claimed, Inr ex_uuid))"
proof -
  have "fb_read ex_binding quiet_read Map.empty = Inl (Errorf ''marker'' [Sentinel ErrBindingUnclaimed])"
    by (simp add: fb_read_def quiet_read_def os_ReadFile_def)
  moreover have "fb_read ex_binding quiet_read ex_claimed = Inr ex_uuid"
    by (rule quiet_read_back) (simp_all add: ex_uuid_valid ex_claimed_def)
  moreover have "fb_claim ex_binding (\<lambda>_. None) (quiet_env ''1'') ex_uuid Map.empty = Some (ex_claimed, None)"
    using ex_claim by (simp add: ex_claimed_def)
  ultimately show ?thesis
    by (simp add: prepareStartupWithClaim_def ex_signer_startup_def registry_startup_def ex_startup_env_def RequireClusterBinding_def
        ex_uuid_valid claimWithConfig_def finish_startup_def)
qed

lemma ex_startup_again: "\<exists>cs. prepareStartupWithClaim ex_signer_startup False ex_claimed = (cs, Some (ex_claimed, Inr ex_uuid))"
proof -
  have "fb_read ex_binding quiet_read ex_claimed = Inr ex_uuid"
    by (rule quiet_read_back) (simp_all add: ex_uuid_valid ex_claimed_def)
  then show ?thesis
    by (simp add: prepareStartupWithClaim_def ex_signer_startup_def registry_startup_def ex_startup_env_def RequireClusterBinding_def
        ex_uuid_valid finish_startup_def)
qed

theorem signers_share_history_witness:
  "\<exists>cs a. prepareStartupWithClaim ex_signer_startup False Map.empty = (cs, Some (ex_claimed, Inr a)) \<and> a = ex_uuid"
proof -
  obtain cs cs' where s: "prepareStartupWithClaim ex_signer_startup False Map.empty = (cs, Some (ex_claimed, Inr ex_uuid))"
    "prepareStartupWithClaim ex_signer_startup False ex_claimed = (cs', Some (ex_claimed, Inr ex_uuid))"
    using ex_startup_claims ex_startup_again by blast
  from signers_share_history [OF ex_binding_wf(1) quiet_fair kept_refl s [unfolded ex_signer_startup_def]] s show ?thesis by blast
qed

text \<open>
  C30: a start that succeeds returns the store's own identity, and the runtime backend itself answered
  with that identity when the binding was read last. A claim is attempted only when claiming is
  configured and the key was read as unclaimed, always for that identity; the token renewal starts
  only after the binding was confirmed.
\<close>
theorem startup_checks_the_claim:
  assumes "prepareStartupWithClaim (registry_startup binding claim e1 e2 f mc sep oe env) False s = (cs, Some (s', Inr cid))"
  shows "suEnsure env = Inr cid \<and> valid_id cid \<and> (binding e1 s' = Inr cid \<or> binding e2 s' = Inr cid) \<and>
    (\<forall>c. ClaimKey c \<in> set cs \<longrightarrow> mc \<and> c = cid \<and> (\<exists>e. binding e1 s = Inl e \<and> errors_is e ErrBindingUnclaimed)) \<and>
    (StartRenewal \<in> set cs \<longrightarrow> ReadBinding \<in> set cs)"
proof -
  let ?env = "registry_startup binding claim e1 e2 f mc sep oe env"
  have ok: "suEnsure env = Inr cid" "valid_id cid" "binding e1 s' = Inr cid \<or> binding e2 s' = Inr cid"
    using prepareStartup_ok [OF assms] by (auto simp: registry_startup_def)
  have fin: "ClaimKey c \<notin> set fs" if "finish_startup ?env x = (fs, r)" for c fs r x
    using finish_startup_calls [OF that] by auto
  have clm: "ClaimKey c \<in> set fs \<Longrightarrow> c = x" if "claimWithConfig sep oe (claim f) x y = (fs, z)" for c fs x y z
    using that by (auto simp: claimWithConfig_def split: option.splits if_splits)
  have "mc \<and> c = cid \<and> (\<exists>e. binding e1 s = Inl e \<and> errors_is e ErrBindingUnclaimed)" if "ClaimKey c \<in> set cs" for c
    using assms that ok(1) fin clm RequireClusterBinding_unclaimed [of "binding e1 s" cid]
    by (auto simp: prepareStartupWithClaim_def registry_startup_def Let_def split: option.splits prod.splits if_splits)
  moreover have "StartRenewal \<in> set cs \<longrightarrow> ReadBinding \<in> set cs"
    using assms by (auto simp: prepareStartupWithClaim_def Let_def split: sum.splits option.splits prod.splits if_splits)
  ultimately show ?thesis using ok by blast
qed

theorem startup_checks_the_claim_witness:
  "\<exists>cs. prepareStartupWithClaim ex_signer_startup False Map.empty = (cs, Some (ex_claimed, Inr ex_uuid)) \<and> valid_id ex_uuid"
proof -
  obtain cs where s: "prepareStartupWithClaim ex_signer_startup False Map.empty = (cs, Some (ex_claimed, Inr ex_uuid))"
    using ex_startup_claims by blast
  from startup_checks_the_claim [OF s [unfolded ex_signer_startup_def]] s show ?thesis by blast
qed





end
