(* ===== verification/Vault.thy ===== *)
theory Vault
  imports Backend
begin

section \<open>The Vault Transit backend (internal/backend/vault*.go)\<close>

text \<open>
  Signing through Vault's Transit engine with a pinned key version, the claim as a KV version 2
  record created with check-and-set 0, the token renewal loop and the key import. Vault itself, its
  API client, X.509 and the wrapping primitives are third-party code: what they answer is an
  argument. An answer \<^verbatim>\<open>secret\<close> is the decoded \<^verbatim>\<open>Data\<close> map, \<open>None\<close> when the secret or its data is nil.
\<close>

subsection \<open>Decoded JSON values\<close>

text \<open>
  The dynamic types \<^verbatim>\<open>toInt\<close> distinguishes. A float is given by its integer part; a missing map entry
  reads as nil.
\<close>

datatype any = ANil | AStr string | ABool bool | ANumber string | AFloat int | AInt int | AMap "(string \<times> any) list"

type_synonym anymap = "(string \<times> any) list"
type_synonym secret = "anymap option"

definition field :: "anymap \<Rightarrow> string \<Rightarrow> any" where
  "field d k = (case map_of d k of Some v \<Rightarrow> v | None \<Rightarrow> ANil)"

definition as_string :: "any \<Rightarrow> string option" where
  "as_string v = (case v of AStr s \<Rightarrow> Some s | _ \<Rightarrow> None)"

definition as_bool :: "any \<Rightarrow> bool option" where
  "as_bool v = (case v of ABool b \<Rightarrow> Some b | _ \<Rightarrow> None)"

definition as_map :: "any \<Rightarrow> anymap option" where
  "as_map v = (case v of AMap m \<Rightarrow> Some m | _ \<Rightarrow> None)"

text \<open>\<^verbatim>\<open>json.Number.Int64\<close>: a decimal 64-bit integer.\<close>

definition ParseInt :: "string \<Rightarrow> int result" where
  "ParseInt s =
     (let (neg, ds) = (case s of CHR ''-'' # t \<Rightarrow> (True, t) | CHR ''+'' # t \<Rightarrow> (False, t) | _ \<Rightarrow> (False, s)) in
      case (if ds = [] then None else digits_value 0 ds) of
        None \<Rightarrow> Inl (errors_New ''invalid syntax'')
      | Some n \<Rightarrow>
          let i = (if neg then - int n else int n) in
          if - (2 ^ 63) \<le> i \<and> i < 2 ^ 63 then Inr i else Inl (errors_New ''value out of range''))"

definition toInt :: "any \<Rightarrow> int result" where
  "toInt v =
     (case v of
        ANumber s \<Rightarrow> ParseInt s
      | AFloat i \<Rightarrow> Inr i
      | AInt i \<Rightarrow> Inr i
      | _ \<Rightarrow> Inl (errors_New ''unexpected number type''))"

subsection \<open>The client\<close>

record vaultClient =
  clAddress :: "string option"
  clNamespace :: "string option"
  clToken :: string

text \<open>Vault's answers to a client. An API error carries the HTTP status, if there was one.\<close>

datatype vault_error = VaultError (http_status: "nat option") (api_error: go_error)

record vault_server =
  vsRead :: "vaultClient \<Rightarrow> string \<Rightarrow> secret result"
  vsWrite :: "vaultClient \<Rightarrow> string \<Rightarrow> anymap \<Rightarrow> secret result"
  vsCapabilities :: "vaultClient \<Rightarrow> string \<Rightarrow> vault_error + string list"
  vsLookupSelf :: "vaultClient \<Rightarrow> vault_error + int \<times> bool"

definition isVaultPermissionDenied :: "vault_error \<Rightarrow> bool" where
  "isVaultPermissionDenied e \<longleftrightarrow> http_status e = Some 403"

definition hasCapability :: "string list \<Rightarrow> string \<Rightarrow> bool" where
  "hasCapability caps want = list_ex (\<lambda>c. c = want \<or> c = ''root'') caps"

record client_env =
  ncTLS :: "go_error option"
  ncNew :: "go_error option"
  ncTokenFile :: "bytes result"

definition NewVaultClient :: "client_env \<Rightarrow> VaultConfig \<Rightarrow> vaultClient result" where
  "NewVaultClient env cfg =
     (case (if vcTLSCACert cfg \<noteq> [] then ncTLS env else None) of
        Some e \<Rightarrow> Inl (Errorf ''configure TLS'' [e])
      | None \<Rightarrow>
     (case ncNew env of
        Some e \<Rightarrow> Inl (Errorf ''new vault client'' [e])
      | None \<Rightarrow>
     (case ncTokenFile env of
        Inl e \<Rightarrow> Inl (Errorf ''read token file'' [e])
      | Inr token \<Rightarrow>
          Inr \<lparr>clAddress = (if vcAddress cfg \<noteq> [] then Some (vcAddress cfg) else None),
               clNamespace = (if vcNamespace cfg \<noteq> [] then Some (vcNamespace cfg) else None),
               clToken = TrimSpace token\<rparr>)))"

subsection \<open>The key and its signatures\<close>

record Vault =
  vClient :: vaultClient
  vMount :: string
  vBindingMount :: string
  vKeyName :: string
  vTokenFile :: string
  vPub :: bytes
  vRequestedKeyVersion :: int
  vKeyVersion :: int
  vStopped :: bool
  vStarted :: bool
  vClosed :: bool
  vLoops :: nat

definition keys_path :: "Vault \<Rightarrow> string" where
  "keys_path v = vMount v @ ''/keys/'' @ vKeyName v"

definition sign_path :: "Vault \<Rightarrow> string" where
  "sign_path v = vMount v @ ''/sign/'' @ vKeyName v"

text \<open>The public key of one version of the key document.\<close>

definition version_key :: "anymap \<Rightarrow> int \<Rightarrow> bytes result" where
  "version_key keys selected =
     (case map_of keys (int_str selected) of
        None \<Rightarrow> Inl (errors_New ''transit key missing version'')
      | Some ver \<Rightarrow>
     (case as_map ver of
        None \<Rightarrow> Inl (errors_New ''transit key version malformed'')
      | Some verMap \<Rightarrow>
     (case as_string (field verMap ''public_key'') of
        None \<Rightarrow> Inl (errors_New ''transit key has no public_key'')
      | Some pkB64 \<Rightarrow>
          if pkB64 = [] then Inl (errors_New ''transit key has no public_key'')
          else (case b64_decode pkB64 of
              None \<Rightarrow> Inl (errors_New ''decode public_key'')
            | Some raw \<Rightarrow> if length raw \<noteq> 32 then Inl (errors_New ''public key size'') else Inr raw))))"

text \<open>\<open>Inr None\<close> when the key does not exist; otherwise key, version and minimum signing version.\<close>

definition fetchPubKeyIfExists :: "vault_server \<Rightarrow> Vault \<Rightarrow> bool \<Rightarrow> (bytes \<times> int \<times> int) option result" where
  "fetchPubKeyIfExists srv v requireSigningVersion =
     (case vsRead srv (vClient v) (keys_path v) of
        Inl e \<Rightarrow> Inl (Errorf ''read transit key'' [e])
      | Inr None \<Rightarrow> Inr None
      | Inr (Some d) \<Rightarrow>
          if (case as_string (field d ''type'') of Some kt \<Rightarrow> kt \<noteq> [] \<and> kt \<noteq> ''ed25519'' | None \<Rightarrow> False)
          then Inl (errors_New ''transit key has another type, want ed25519'')
          else
     (case toInt (field d ''latest_version'') of
        Inl e \<Rightarrow> Inl (Errorf ''transit key latest_version'' [e])
      | Inr latest \<Rightarrow>
     (case as_map (field d ''keys'') of
        None \<Rightarrow> Inl (errors_New ''transit key has no keys map'')
      | Some keys \<Rightarrow>
     (let selected = (if vRequestedKeyVersion v = 0 then latest else vRequestedKeyVersion v) in
      case (case map_of d ''min_encryption_version'' of None \<Rightarrow> Inr 0 | Some raw \<Rightarrow> toInt raw) of
        Inl e \<Rightarrow> Inl (Errorf ''transit key min_encryption_version'' [e])
      | Inr minimum \<Rightarrow>
          if map_of d ''min_encryption_version'' \<noteq> None \<and> requireSigningVersion \<and> selected < minimum
          then Inl (errors_New ''transit key version is below Vault's minimum signing version'')
          else (case version_key keys selected of
              Inl e \<Rightarrow> Inl e
            | Inr pk \<Rightarrow> Inr (Some (pk, selected, minimum)))))))"

definition fetchPubKey :: "vault_server \<Rightarrow> Vault \<Rightarrow> (bytes \<times> int) result" where
  "fetchPubKey srv v =
     (case fetchPubKeyIfExists srv v True of
        Inl e \<Rightarrow> Inl e
      | Inr None \<Rightarrow> Inl (errors_New ''transit key not found'')
      | Inr (Some (pub, version, _)) \<Rightarrow> Inr (pub, version))"

definition NewVault :: "client_env \<Rightarrow> vault_server \<Rightarrow> VaultConfig \<Rightarrow> Vault result" where
  "NewVault env srv cfg =
     (let mount = (if vcMount cfg = [] then ''transit'' else vcMount cfg);
          bindingMount = (if vcBindingMount cfg = [] then ''cosmosigner'' else vcBindingMount cfg) in
      case first_error [check (vcKeyName cfg = []) ''vault backend requires a key name'',
             check (vcTokenFile cfg = []) ''vault backend requires a token file'',
             check (vcKeyVersion cfg < 0) ''vault key version must be zero or greater''] of
        Some e \<Rightarrow> Inl e
      | None \<Rightarrow>
     (case normalizeVaultMount mount of
        Inl e \<Rightarrow> Inl e
      | Inr m \<Rightarrow>
     (case normalizeVaultMount bindingMount of
        Inl e \<Rightarrow> Inl e
      | Inr bm \<Rightarrow>
     (case normalizeVaultKeyName (vcKeyName cfg) of
        Inl e \<Rightarrow> Inl e
      | Inr kn \<Rightarrow>
     (case NewVaultClient env cfg of
        Inl e \<Rightarrow> Inl e
      | Inr cl \<Rightarrow>
     (let v = \<lparr>vClient = cl, vMount = m, vBindingMount = bm, vKeyName = kn, vTokenFile = vcTokenFile cfg, vPub = [],
               vRequestedKeyVersion = vcKeyVersion cfg, vKeyVersion = 0, vStopped = False, vStarted = False, vClosed = False, vLoops = 0\<rparr> in
      case fetchPubKey srv v of
        Inl e \<Rightarrow> Inl e
      | Inr (pub, version) \<Rightarrow> Inr (v\<lparr>vPub := pub, vKeyVersion := version\<rparr>)))))))"

definition parseTransitSignature :: "string \<Rightarrow> bytes result" where
  "parseTransitSignature s =
     (case Split (CHR '':'') s of
        [p0, p1, p2] \<Rightarrow>
          if p0 \<noteq> ''vault'' then Inl (errors_New ''malformed transit signature'')
          else (case b64_decode p2 of
              None \<Rightarrow> Inl (errors_New ''decode signature'')
            | Some raw \<Rightarrow> if length raw \<noteq> 64 then Inl (errors_New ''signature size'') else Inr raw)
      | _ \<Rightarrow> Inl (errors_New ''malformed transit signature''))"

definition sign_request :: "Vault \<Rightarrow> bytes \<Rightarrow> anymap" where
  "sign_request v msg = [(''input'', AStr (b64_encode msg)), (''key_version'', AInt (vKeyVersion v))]"

definition signWithClient :: "vault_server \<Rightarrow> vaultClient \<Rightarrow> Vault \<Rightarrow> bytes \<Rightarrow> bytes result" where
  "signWithClient srv cl v msg =
     (case vsWrite srv cl (sign_path v) (sign_request v msg) of
        Inl e \<Rightarrow> Inl (Errorf ''transit sign'' [e])
      | Inr None \<Rightarrow> Inl (errors_New ''empty transit sign response'')
      | Inr (Some d) \<Rightarrow>
          (case as_string (field d ''signature'') of
             None \<Rightarrow> Inl (errors_New ''transit sign response missing signature'')
           | Some sigField \<Rightarrow> parseTransitSignature sigField))"

definition Vault_Sign :: "vault_server \<Rightarrow> Vault \<Rightarrow> bytes \<Rightarrow> bytes result" where
  "Vault_Sign srv v msg = signWithClient srv (vClient v) v msg"

definition vaultPreflightMessage :: bytes where
  "vaultPreflightMessage = ''cosmosigner/vault preflight - not a consensus message''"

definition verifySigningKeyWithClient ::
  "(bytes \<Rightarrow> bytes \<Rightarrow> bytes \<Rightarrow> bool) \<Rightarrow> vault_server \<Rightarrow> vaultClient \<Rightarrow> Vault \<Rightarrow> go_error option" where
  "verifySigningKeyWithClient verify srv cl v =
     (case signWithClient srv cl v vaultPreflightMessage of
        Inl e \<Rightarrow> Some e
      | Inr sig \<Rightarrow>
          if \<not> verify (vPub v) vaultPreflightMessage sig
          then Some (errors_New ''signature does not verify against the selected public key'') else None)"

definition verifyClientCanSign ::
  "(bytes \<Rightarrow> bytes \<Rightarrow> bytes \<Rightarrow> bool) \<Rightarrow> vault_server \<Rightarrow> vaultClient \<Rightarrow> Vault \<Rightarrow> go_error option" where
  "verifyClientCanSign verify srv cl v =
     (case (case vsCapabilities srv cl (sign_path v) of
              Inl e \<Rightarrow>
                if isVaultPermissionDenied e then None else Some (Errorf ''check token capabilities'' [api_error e])
            | Inr caps \<Rightarrow> if \<not> hasCapability caps ''update'' then Some (errors_New ''vault token lacks 'update' '') else None) of
        Some e \<Rightarrow> Some e
      | None \<Rightarrow>
     (case vsLookupSelf srv cl of
        Inl e \<Rightarrow>
          Some (Errorf (if isVaultPermissionDenied e then ''permission denied on auth/token/lookup-self'' else ''look up vault token'') [api_error e])
      | Inr (ttl, renewable) \<Rightarrow>
          if ttl > 0 \<and> \<not> renewable then Some (errors_New ''vault token has a finite TTL and is not renewable'')
          else map_option (\<lambda>e. Errorf ''vault key cannot sign'' [e]) (verifySigningKeyWithClient verify srv cl v)))"

definition Vault_VerifyCanSign :: "(bytes \<Rightarrow> bytes \<Rightarrow> bytes \<Rightarrow> bool) \<Rightarrow> vault_server \<Rightarrow> Vault \<Rightarrow> go_error option" where
  "Vault_VerifyCanSign verify srv v = verifyClientCanSign verify srv (vClient v) v"
subsection \<open>Token renewal\<close>

definition Vault_Close :: "Vault \<Rightarrow> Vault" where
  "Vault_Close v = v\<lparr>vClosed := True, vStopped := True\<rparr>"

text \<open>\<open>vLoops\<close> counts the renewal loops started.\<close>

definition StartRenewal :: "Vault \<Rightarrow> Vault \<times> go_error option" where
  "StartRenewal v =
     (if vClosed v then (v, Some (errors_New ''vault backend is closed''))
      else if vStarted v then (v, None)
      else (v\<lparr>vStarted := True, vLoops := Suc (vLoops v)\<rparr>, None))"

text \<open>
  One round of the renewal loop: what the token file held, whether the client could be cloned, the
  server's answers, the three readings of the clock, the renewal's outcome and whether the stop
  channel was closed during the wait.
\<close>

record renew_round =
  rrFile :: "bytes result"
  rrClone :: "go_error option"
  rrServer :: vault_server
  rrNowSchedule :: time
  rrNowDue :: time
  rrNowWait :: time
  rrRenew :: "go_error option"
  rrStop :: bool

text \<open>Adopting a replacement token: it must pass the checks of a start.\<close>

definition adopt_token ::
  "(bytes \<Rightarrow> bytes \<Rightarrow> bytes \<Rightarrow> bool) \<Rightarrow> renew_round \<Rightarrow> Vault \<times> time option \<Rightarrow> Vault \<times> time option" where
  "adopt_token verify r st =
     (let (v, renewAt) = st in
      case rrFile r of
        Inl _ \<Rightarrow> (v, renewAt)
      | Inr raw \<Rightarrow>
          let token = TrimSpace raw; candidate = (vClient v)\<lparr>clToken := token\<rparr> in
          if token \<noteq> [] \<and> token \<noteq> clToken (vClient v) \<and> rrClone r = None \<and>
             verifyClientCanSign verify (rrServer r) candidate v = None
          then (v\<lparr>vClient := candidate\<rparr>, None)
          else (v, renewAt))"

text \<open>The round's result: the new state and the wait, \<open>None\<close> after a renewal (no wait).\<close>

definition renew_once ::
  "(bytes \<Rightarrow> bytes \<Rightarrow> bytes \<Rightarrow> bool) \<Rightarrow> int \<Rightarrow> renew_round \<Rightarrow> Vault \<times> time option \<Rightarrow> (Vault \<times> time option) \<times> int option" where
  "renew_once verify poll r st =
     (let (v, renewAt) = adopt_token verify r st in
      case vsLookupSelf (rrServer r) (vClient v) of
        Inl e \<Rightarrow> ((v, renewAt), Some (min poll (30 * second)))
      | Inr (ttl, renewable) \<Rightarrow>
          if \<not> renewable \<or> ttl \<le> 0 then ((v, None), Some poll)
          else
            let due = (case renewAt of None \<Rightarrow> rrNowSchedule r + max (ttl div 2) second | Some t \<Rightarrow> t) in
            if rrNowDue r < due then ((v, Some due), Some (min (due - rrNowWait r) poll))
            else case rrRenew r of
              Some e \<Rightarrow> ((v, Some due), Some (min poll (5 * second)))
            | None \<Rightarrow> ((v, None), None))"

text \<open>The loop over its rounds; the flag says whether it returned.\<close>

fun renew_rounds ::
  "(bytes \<Rightarrow> bytes \<Rightarrow> bytes \<Rightarrow> bool) \<Rightarrow> int \<Rightarrow> renew_round list \<Rightarrow> Vault \<times> time option \<Rightarrow> (Vault \<times> time option) \<times> int list \<times> bool" where
  "renew_rounds verify poll [] st = (st, [], False)"
| "renew_rounds verify poll (r # rs) st =
     (case renew_once verify poll r st of
        (st', None) \<Rightarrow> renew_rounds verify poll rs st'
      | (st', Some w) \<Rightarrow>
          if rrStop r then (st', [w], True)
          else let (st'', ws, fin) = renew_rounds verify poll rs st' in (st'', w # ws, fin))"

definition renewLoopWithPollInterval ::
  "(bytes \<Rightarrow> bytes \<Rightarrow> bytes \<Rightarrow> bool) \<Rightarrow> int \<Rightarrow> renew_round list \<Rightarrow> Vault \<Rightarrow> (Vault \<times> time option) \<times> int list \<times> bool" where
  "renewLoopWithPollInterval verify pollInterval rs v =
     renew_rounds verify (if pollInterval \<le> 0 then 60 * second else pollInterval) rs (v, None)"

definition renewLoop ::
  "(bytes \<Rightarrow> bytes \<Rightarrow> bytes \<Rightarrow> bool) \<Rightarrow> renew_round list \<Rightarrow> Vault \<Rightarrow> (Vault \<times> time option) \<times> int list \<times> bool" where
  "renewLoop verify rs v = renewLoopWithPollInterval verify (60 * second) rs v"

subsection \<open>The claim record\<close>

record vaultBindingRecord =
  vbVersion :: int
  vbClusterID :: string
  vbTransitMount :: string
  vbKeyName :: string

text \<open>SHA-256 is an argument; the digest is written in hexadecimal.\<close>

fun hex_encode :: "bytes \<Rightarrow> string" where
  "hex_encode [] = []"
| "hex_encode (b # bs) = hex_nat (of_char b div 16) # hex_nat (of_char b mod 16) # hex_encode bs"

definition vaultBindingAddress :: "(bytes \<Rightarrow> bytes) \<Rightarrow> string \<Rightarrow> string \<Rightarrow> string" where
  "vaultBindingAddress sha256 transitMount keyName = hex_encode (sha256 (transitMount @ CHR 0x00 # keyName))"

definition bindingDataPath :: "(bytes \<Rightarrow> bytes) \<Rightarrow> Vault \<Rightarrow> string" where
  "bindingDataPath sha256 v = vBindingMount v @ ''/data/cluster-bindings/'' @ vaultBindingAddress sha256 (vMount v) (vKeyName v)"

definition bindingMetadataPath :: "(bytes \<Rightarrow> bytes) \<Rightarrow> Vault \<Rightarrow> string" where
  "bindingMetadataPath sha256 v = vBindingMount v @ ''/metadata/cluster-bindings/'' @ vaultBindingAddress sha256 (vMount v) (vKeyName v)"

definition corrupt :: "string \<Rightarrow> go_error" where
  "corrupt m = Errorf m [Sentinel ErrBindingCorrupt]"

definition unreadable :: "string \<Rightarrow> go_error" where
  "unreadable m = Errorf m [Sentinel ErrBindingUnreadable]"

definition unclaimed :: "string \<Rightarrow> go_error" where
  "unclaimed m = Errorf m [Sentinel ErrBindingUnclaimed]"

definition parseBindingRecord :: "Vault \<Rightarrow> anymap \<Rightarrow> vaultBindingRecord result" where
  "parseBindingRecord v d =
     (if length (remdups (map fst d)) \<noteq> 4 then Inl (corrupt ''record has unexpected fields'')
      else if toInt (field d ''version'') \<noteq> Inr 1 then Inl (corrupt ''record has invalid version'')
      else
     (case as_string (field d ''cluster_id'') of
        None \<Rightarrow> Inl (corrupt ''record has invalid cluster ID'')
      | Some cid \<Rightarrow>
          if Validate cid \<noteq> None then Inl (corrupt ''record has invalid cluster ID'')
          else
     (case (as_string (field d ''transit_mount''), as_string (field d ''key_name'')) of
        (Some mount, Some keyName) \<Rightarrow>
          if mount \<noteq> vMount v \<or> keyName \<noteq> vKeyName v then Inl (corrupt ''record addresses a different transit key'')
          else Inr \<lparr>vbVersion = 1, vbClusterID = cid, vbTransitMount = mount, vbKeyName = keyName\<rparr>
      | _ \<Rightarrow> Inl (corrupt ''record addresses a different transit key''))))"

text \<open>The current value out of a KV answer.\<close>

definition current_value :: "anymap \<Rightarrow> anymap result" where
  "current_value d =
     (case as_map (field d ''metadata'') of
        None \<Rightarrow> Inl (corrupt ''response has no metadata'')
      | Some metadata \<Rightarrow>
     (case as_bool (field metadata ''destroyed'') of
        None \<Rightarrow> Inl (corrupt ''response metadata has invalid destroyed field'')
      | Some destroyed \<Rightarrow>
          if destroyed then Inl (corrupt ''current version is destroyed'')
          else
     (case as_string (field metadata ''deletion_time'') of
        None \<Rightarrow> Inl (corrupt ''response metadata has invalid deletion_time field'')
      | Some deletionTime \<Rightarrow>
          if deletionTime \<noteq> [] then Inl (corrupt ''current version is deleted'')
          else (case as_map (field d ''data'') of None \<Rightarrow> Inl (corrupt ''has no current value'') | Some m \<Rightarrow> Inr m))))"

text \<open>The answers to up to three reads: the value, the metadata, the value again.\<close>

record kv_answers =
  kvData :: "secret result"
  kvMetadata :: "secret result"
  kvDataAgain :: "secret result"

definition read_record :: "kv_answers \<Rightarrow> anymap result" where
  "read_record a =
     (case kvData a of
        Inl e \<Rightarrow> Inl (unreadable ''read record'')
      | Inr (Some d) \<Rightarrow> Inr d
      | Inr None \<Rightarrow>
     (case kvMetadata a of
        Inl e \<Rightarrow> Inl (unreadable ''inspect metadata'')
      | Inr None \<Rightarrow> Inl (unclaimed ''record'')
      | Inr (Some _) \<Rightarrow>
     (case kvDataAgain a of
        Inl e \<Rightarrow> Inl (unreadable ''read record'')
      | Inr None \<Rightarrow> Inl (corrupt ''has metadata but no readable current value'')
      | Inr (Some d) \<Rightarrow> Inr d)))"

text \<open>The operands of the description printed by the claim command.\<close>

definition Vault_bindingResource :: "(bytes \<Rightarrow> bytes) \<Rightarrow> Vault \<Rightarrow> string list" where
  "Vault_bindingResource sha256 v =
     [vBindingMount v, vaultBindingAddress sha256 (vMount v) (vKeyName v), vMount v, vKeyName v]"

definition Vault_ClusterBinding :: "Vault \<Rightarrow> kv_answers \<Rightarrow> string result" where
  "Vault_ClusterBinding v a =
     (case read_record a of
        Inl e \<Rightarrow> Inl e
      | Inr d \<Rightarrow>
     (case current_value d of
        Inl e \<Rightarrow> Inl e
      | Inr m \<Rightarrow> (case parseBindingRecord v m of Inl e \<Rightarrow> Inl e | Inr rec \<Rightarrow> Inr (vbClusterID rec))))"

definition claim_payload :: "Vault \<Rightarrow> string \<Rightarrow> anymap" where
  "claim_payload v cid =
     [(''data'', AMap [(''version'', AInt 1), (''cluster_id'', AStr cid), (''transit_mount'', AStr (vMount v)), (''key_name'', AStr (vKeyName v))]),
      (''options'', AMap [(''cas'', AInt 0)])]"

text \<open>
  A claim against a KV store: \<open>'s\<close> is what the store holds at the record's path. Reads answer
  according to the store; a write returns the store as it is when the record is read again, whether
  or not the write was acknowledged.
\<close>

record 's kv_env =
  keRead :: "'s \<Rightarrow> kv_answers"
  keWrite :: "string \<Rightarrow> anymap \<Rightarrow> 's \<Rightarrow> 's \<times> go_error option"
  keReread :: "'s \<Rightarrow> kv_answers"

definition Vault_ClaimCluster ::
  "(bytes \<Rightarrow> bytes) \<Rightarrow> Vault \<Rightarrow> 's kv_env \<Rightarrow> string \<Rightarrow> 's \<Rightarrow> 's \<times> go_error option" where
  "Vault_ClaimCluster sha256 v env cid s =
     (case Validate cid of
        Some e \<Rightarrow> (s, Some (Errorf ''invalid cluster ID'' [e]))
      | None \<Rightarrow>
     (case Vault_ClusterBinding v (keRead env s) of
        Inr owner \<Rightarrow> (s, requireClaimOwner cid owner)
      | Inl e \<Rightarrow>
          if \<not> errors_is e ErrBindingUnclaimed then (s, Some e)
          else
            let (s', writeErr) = keWrite env (bindingDataPath sha256 v) (claim_payload v cid) s in
            (case Vault_ClusterBinding v (keReread env s') of
               Inr owner \<Rightarrow> (s', requireClaimOwner cid owner)
             | Inl readErr \<Rightarrow>
                 if writeErr \<noteq> None then (s', Some (Errorf ''claim with create-only CAS'' [readErr]))
                 else (s', Some (Errorf ''claim was not durable'' [readErr])))))"

subsection \<open>The record is a claim registry\<close>

text \<open>
  The store is the record's current value. Hypotheses on Vault: a read that shows a current value
  shows the stored one, and a write with check-and-set 0 leaves an existing value alone (the KV
  version 2 contract); nobody deletes or rewrites a claim behind the writer's back.
\<close>

definition vault_owner :: "Vault \<Rightarrow> anymap option \<Rightarrow> string option" where
  "vault_owner v s =
     (case s of
        None \<Rightarrow> None
      | Some m \<Rightarrow> (case parseBindingRecord v m of Inl _ \<Rightarrow> None | Inr r \<Rightarrow> Some (vbClusterID r)))"

definition kv_truthful :: "(anymap option \<Rightarrow> kv_answers) \<Rightarrow> bool" where
  "kv_truthful f \<longleftrightarrow>
     (\<forall>s d m. (kvData (f s) = Inr (Some d) \<or> kvDataAgain (f s) = Inr (Some d)) \<and> current_value d = Inr m \<longrightarrow> s = Some m)"

definition cas_zero :: "anymap \<Rightarrow> bool" where
  "cas_zero payload \<longleftrightarrow> (\<exists>opts. as_map (field payload ''options'') = Some opts \<and> field opts ''cas'' = AInt 0)"

definition kv_fair :: "anymap option kv_env \<Rightarrow> bool" where
  "kv_fair env \<longleftrightarrow> kv_truthful (keRead env) \<and> kv_truthful (keReread env) \<and>
     (\<forall>path payload m. cas_zero payload \<longrightarrow> fst (keWrite env path payload (Some m)) = Some m)"

lemma binding_shows_record:
  assumes "kv_truthful f" "Vault_ClusterBinding v (f s) = Inr cid"
  shows "vault_owner v s = Some cid"
proof -
  obtain d m r where d: "read_record (f s) = Inr d" "current_value d = Inr m" "parseBindingRecord v m = Inr r" "vbClusterID r = cid"
    using assms(2) by (auto simp: Vault_ClusterBinding_def split: sum.splits)
  have "kvData (f s) = Inr (Some d) \<or> kvDataAgain (f s) = Inr (Some d)"
    using d(1) by (auto simp: read_record_def split: sum.splits option.splits)
  with d(2) have "s = Some m" using assms(1) unfolding kv_truthful_def by blast
  with d show ?thesis by (simp add: vault_owner_def)
qed

lemma claim_payload_cas [simp]: "cas_zero (claim_payload v cid)"
  by (simp add: cas_zero_def claim_payload_def field_def as_map_def)

lemma Vault_claim_cases:
  assumes "Vault_ClaimCluster sha v env cid s = (s', r)"
  obtains (kept) "s' = s" "r = None \<longrightarrow> Vault_ClusterBinding v (keRead env s) = Inr cid"
  | (wrote) we where "keWrite env (bindingDataPath sha v) (claim_payload v cid) s = (s', we)"
      "r = None \<longrightarrow> Vault_ClusterBinding v (keReread env s') = Inr cid"
  using assms by (auto simp: Vault_ClaimCluster_def Let_def split: option.splits sum.splits if_splits prod.splits)

interpretation vault_registry: claim_registry "vault_owner v" "\<lambda>f s. Vault_ClusterBinding v (f s)"
  "\<lambda>env cid s. Some (Vault_ClaimCluster sha v env cid s)" kv_truthful kv_fair
  for v sha
proof
  show "vault_owner v s = Some cid" if "kv_truthful f" "Vault_ClusterBinding v (f s) = Inr cid" for f s cid
    by (rule binding_shows_record [OF that])
next
  fix env s cid i s' r
  assume f: "kv_fair env" and o: "vault_owner v s = Some cid" and c: "Some (Vault_ClaimCluster sha v env i s) = Some (s', r)"
  from o obtain m where "s = Some m" by (auto simp: vault_owner_def split: option.splits)
  from c have "Vault_ClaimCluster sha v env i s = (s', r)" by simp
  then have "s' = s"
  proof (cases rule: Vault_claim_cases)
    case kept
    then show ?thesis by simp
  next
    case (wrote we)
    have "fst (keWrite env (bindingDataPath sha v) (claim_payload v i) (Some m)) = Some m" using f by (simp add: kv_fair_def)
    with wrote(1) \<open>s = Some m\<close> show ?thesis by simp
  qed
  with o show "vault_owner v s' = Some cid" by simp
next
  fix env i s s'
  assume f: "kv_fair env" and c: "Some (Vault_ClaimCluster sha v env i s) = Some (s', None)"
  from c have "Vault_ClaimCluster sha v env i s = (s', None)" by simp
  then show "vault_owner v s' = Some i"
    by (cases rule: Vault_claim_cases) (use f binding_shows_record in \<open>auto simp: kv_fair_def\<close>)
qed

subsection \<open>Properties\<close>

text \<open>A KV store that answers and writes without faults.\<close>

definition kv_answer :: "anymap option \<Rightarrow> kv_answers" where
  "kv_answer s =
     (let a = Inr (map_option (\<lambda>m. [(''data'', AMap m), (''metadata'', AMap [(''destroyed'', ABool False), (''deletion_time'', AStr [])])]) s)
      in \<lparr>kvData = a, kvMetadata = a, kvDataAgain = a\<rparr>)"

definition honest_kv :: "anymap option kv_env" where
  "honest_kv = \<lparr>keRead = kv_answer,
     keWrite = (\<lambda>path payload s. case s of Some m \<Rightarrow> (s, Some (errors_New ''check-and-set parameter did not match''))
       | None \<Rightarrow> (as_map (field payload ''data''), None)),
     keReread = kv_answer\<rparr>"

lemma current_value_answer [simp]:
  "current_value [(''data'', AMap m), (''metadata'', AMap [(''destroyed'', ABool False), (''deletion_time'', AStr [])])] = Inr m"
  by (simp add: current_value_def field_def as_map_def as_bool_def as_string_def)

lemma kv_answer_truthful [simp]: "kv_truthful kv_answer"
  by (auto simp: kv_truthful_def kv_answer_def Let_def)

lemma honest_kv_fair [simp]: "kv_fair honest_kv"
  by (simp add: kv_fair_def honest_kv_def)

lemma parse_claim_payload:
  "valid_id cid \<Longrightarrow> parseBindingRecord v [(''version'', AInt 1), (''cluster_id'', AStr cid), (''transit_mount'', AStr (vMount v)), (''key_name'', AStr (vKeyName v))]
     = Inr \<lparr>vbVersion = 1, vbClusterID = cid, vbTransitMount = vMount v, vbKeyName = vKeyName v\<rparr>"
  by (simp add: parseBindingRecord_def field_def as_string_def toInt_def)

lemma honest_claim:
  assumes "valid_id cid"
  shows "\<exists>m. Vault_ClaimCluster sha v honest_kv cid None = (Some m, None) \<and> Vault_ClusterBinding v (kv_answer (Some m)) = Inr cid"
  using assms
  by (simp add: Vault_ClaimCluster_def Vault_ClusterBinding_def read_record_def kv_answer_def honest_kv_def unclaimed_def claim_payload_def
      field_def as_map_def parse_claim_payload Let_def)

text \<open>
  A Vault key has one owner. Over any history of claims by any clusters through any tokens, with
  lost replies and other writers, as long as Vault honours check-and-set 0 and shows what it stores:
  at most one cluster's claim ever succeeds, two reads of the claim never name different clusters,
  and an unclaimed key is claimed and read back when nothing fails.
\<close>
theorem vault_key_has_one_owner:
  assumes "\<forall>(env, i)\<in>set cs. kv_fair env"
    and "claim_registry.claims (\<lambda>env cid s. Some (Vault_ClaimCluster sha v env cid s)) cs s = (s', outcomes)"
  shows "((a, None) \<in> set outcomes \<and> (b, None) \<in> set outcomes \<longrightarrow> a = b) \<and>
    (\<forall>f g. kv_truthful f \<and> kv_truthful g \<and> Vault_ClusterBinding v (f s) = Inr a \<and> Vault_ClusterBinding v (g s') = Inr b \<longrightarrow> a = b) \<and>
    ((a, None) \<in> set outcomes \<longrightarrow> (\<forall>g. kv_truthful g \<and> Vault_ClusterBinding v (g s') = Inr b \<longrightarrow> b = a)) \<and>
    (valid_id a \<longrightarrow> (\<exists>m. Vault_ClaimCluster sha v honest_kv a None = (Some m, None) \<and> Vault_ClusterBinding v (kv_answer (Some m)) = Inr a))"
proof (intro conjI impI allI)
  let ?claims = "claim_registry.claims (\<lambda>env cid s. Some (Vault_ClaimCluster sha v env cid s))"
  have o: "snd (?claims cs s) = outcomes" "fst (?claims cs s) = s'" using assms(2) by simp_all
  show "a = b" if "(a, None) \<in> set outcomes \<and> (b, None) \<in> set outcomes"
    using vault_registry.one_winner [OF assms(1), of a sha v s b] that o by simp
  show "a = b" if "kv_truthful f \<and> kv_truthful g \<and> Vault_ClusterBinding v (f s) = Inr a \<and> Vault_ClusterBinding v (g s') = Inr b" for f g
    using vault_registry.bound_after_claims [OF assms(1), of f g v s a sha b] that o by simp
  show "b = a" if "(a, None) \<in> set outcomes" "kv_truthful g \<and> Vault_ClusterBinding v (g s') = Inr b" for g
    using vault_registry.claims_winner [OF assms(1), of a sha v s] that o binding_shows_record [of g v s' b] by simp
  show "\<exists>m. Vault_ClaimCluster sha v honest_kv a None = (Some m, None) \<and> Vault_ClusterBinding v (kv_answer (Some m)) = Inr a" if "valid_id a"
    by (rule honest_claim [OF that])
qed

definition ex_vault :: Vault where
  "ex_vault = \<lparr>vClient = \<lparr>clAddress = None, clNamespace = None, clToken = ''t''\<rparr>, vMount = ''transit'', vBindingMount = ''cosmosigner'',
     vKeyName = ''val'', vTokenFile = ''/token'', vPub = replicate 32 (CHR ''p''), vRequestedKeyVersion = 0, vKeyVersion = 1, vStopped = False,
     vStarted = False, vClosed = False, vLoops = 0\<rparr>"

theorem vault_key_has_one_owner_witness:
  "\<exists>s'. claim_registry.claims (\<lambda>env cid s. Some (Vault_ClaimCluster (\<lambda>b. b) ex_vault env cid s)) [(honest_kv, ex_uuid)] None =
     (s', [(ex_uuid, None)]) \<and> (\<forall>g b. kv_truthful g \<and> Vault_ClusterBinding ex_vault (g s') = Inr b \<longrightarrow> b = ex_uuid)"
proof -
  obtain m where "Vault_ClaimCluster (\<lambda>b. b) ex_vault honest_kv ex_uuid None = (Some m, None)"
    using honest_claim [OF ex_uuid_valid] by blast
  then have c: "claim_registry.claims (\<lambda>env cid s. Some (Vault_ClaimCluster (\<lambda>b. b) ex_vault env cid s)) [(honest_kv, ex_uuid)] None =
      (Some m, [(ex_uuid, None)])"
    by (simp add: vault_registry.claims.simps)
  have "\<forall>(env, i)\<in>set [(honest_kv, ex_uuid)]. kv_fair env" by simp
  from vault_key_has_one_owner [OF this c, of ex_uuid] c show ?thesis by auto
qed

subsection \<open>The pinned key\<close>

lemma parseTransitSignature_size: "parseTransitSignature s = Inr sig \<Longrightarrow> length sig = 64"
  by (auto simp: parseTransitSignature_def split: list.splits option.splits if_splits)

lemma as_map_Some [simp]: "as_map v = Some m \<longleftrightarrow> v = AMap m"
  by (cases v) (auto simp: as_map_def)

lemma as_string_Some [simp]: "as_string v = Some t \<longleftrightarrow> v = AStr t"
  by (cases v) (auto simp: as_string_def)

lemma field_AMap [simp]: "field d k = AMap m \<longleftrightarrow> map_of d k = Some (AMap m)"
  by (auto simp: field_def split: option.splits)

lemma field_AStr [simp]: "field d k = AStr t \<longleftrightarrow> map_of d k = Some (AStr t)"
  by (auto simp: field_def split: option.splits)

lemma version_key_ok:
  assumes "version_key keys n = Inr pk"
  shows "length pk = 32 \<and> (\<exists>vm k. map_of keys (int_str n) = Some (AMap vm) \<and> map_of vm ''public_key'' = Some (AStr k) \<and> b64_decode k = Some pk)"
proof -
  from assms obtain ver verMap k where "map_of keys (int_str n) = Some ver" "as_map ver = Some verMap"
      "as_string (field verMap ''public_key'') = Some k" "b64_decode k = Some pk" "length pk = 32"
    by (auto simp: version_key_def simp del: as_map_Some as_string_Some split: option.splits if_splits)
  then show ?thesis by auto
qed

lemma fetch_ok:
  assumes "fetchPubKeyIfExists srv v req = Inr (Some (pk, n, mn))"
  shows "\<exists>d keys. vsRead srv (vClient v) (keys_path v) = Inr (Some d) \<and> map_of d ''keys'' = Some (AMap keys) \<and>
    version_key keys n = Inr pk \<and> (vRequestedKeyVersion v \<noteq> 0 \<longrightarrow> n = vRequestedKeyVersion v) \<and>
    (vRequestedKeyVersion v = 0 \<longrightarrow> toInt (field d ''latest_version'') = Inr n) \<and>
    (\<forall>raw. map_of d ''min_encryption_version'' = Some raw \<longrightarrow> toInt raw = Inr mn \<and> (req \<longrightarrow> mn \<le> n))"
proof -
  let ?min = "\<lambda>d. case map_of d ''min_encryption_version'' of None \<Rightarrow> Inr 0 | Some raw \<Rightarrow> toInt raw"
  from assms obtain d where d: "vsRead srv (vClient v) (keys_path v) = Inr (Some d)"
    by (auto simp: fetchPubKeyIfExists_def split: sum.splits option.splits)
  with assms obtain latest keys where k: "toInt (field d ''latest_version'') = Inr latest" "as_map (field d ''keys'') = Some keys"
    by (auto simp: fetchPubKeyIfExists_def simp del: as_map_Some split: sum.splits option.splits if_splits)
  define sel where "sel = (if vRequestedKeyVersion v = 0 then latest else vRequestedKeyVersion v)"
  from assms d k have m: "?min d = Inr mn" "version_key keys sel = Inr pk" "n = sel"
      "\<not> (map_of d ''min_encryption_version'' \<noteq> None \<and> req \<and> sel < mn)"
    by (auto simp: fetchPubKeyIfExists_def sel_def Let_def simp del: as_map_Some not_None_eq split: sum.splits if_splits)
  show ?thesis using d k m by (intro exI [of _ d] exI [of _ keys]) (auto simp: sel_def split: if_splits)
qed

lemma NewVault_ok:
  assumes "NewVault env srv cfg = Inr v"
  obtains cl v0 where "NewVaultClient env cfg = Inr cl" "fetchPubKey srv v0 = Inr (vPub v, vKeyVersion v)" "vClient v0 = cl"
    "vMount v0 = vMount v" "vKeyName v0 = vKeyName v" "vRequestedKeyVersion v0 = vcKeyVersion cfg"
    "vClient v = cl" "normalizeVaultKeyName (vcKeyName cfg) = Inr (vKeyName v)" "vcTokenFile cfg \<noteq> []" "0 \<le> vcKeyVersion cfg"
    "\<not> vStarted v" "\<not> vClosed v" "\<not> vStopped v" "vLoops v = 0"
proof -
  let ?P = "normalizeVaultMount (if vcMount cfg = [] then ''transit'' else vcMount cfg)"
  let ?B = "normalizeVaultMount (if vcBindingMount cfg = [] then ''cosmosigner'' else vcBindingMount cfg)"
  from assms obtain m bm kn cl where s: "?P = Inr m" "?B = Inr bm" "normalizeVaultKeyName (vcKeyName cfg) = Inr kn" "NewVaultClient env cfg = Inr cl"
      "vcTokenFile cfg \<noteq> []" "0 \<le> vcKeyVersion cfg"
    by (auto simp: NewVault_def Let_def split: sum.splits option.splits)
  define v0 where "v0 = \<lparr>vClient = cl, vMount = m, vBindingMount = bm, vKeyName = kn, vTokenFile = vcTokenFile cfg, vPub = [],
               vRequestedKeyVersion = vcKeyVersion cfg, vKeyVersion = 0, vStopped = False, vStarted = False, vClosed = False, vLoops = 0\<rparr>"
  have "\<exists>pub n. fetchPubKey srv v0 = Inr (pub, n) \<and> v = v0\<lparr>vPub := pub, vKeyVersion := n\<rparr>"
    using assms s by (auto simp: NewVault_def v0_def Let_def split: sum.splits option.splits)
  then show thesis using s by (intro that [of cl v0]) (auto simp: v0_def)
qed

text \<open>
  C34: the signing key is pinned. A Vault backend that was constructed holds the 32-byte public key
  that Vault's key document lists for one version: the requested version, or the latest at that
  moment, and not below Vault's minimum signing version. From then on every signature is requested
  for exactly that version, whatever the key is rotated to, and has 64 bytes; and a preflight that
  passes has seen a signature of that version verify under that public key.
\<close>
theorem vault_key_is_pinned:
  assumes "NewVault env srv cfg = Inr v"
  shows "length (vPub v) = 32 \<and>
    (vcKeyVersion cfg \<noteq> 0 \<longrightarrow> vKeyVersion v = vcKeyVersion cfg) \<and>
    (\<exists>d keys vm k. vsRead srv (vClient v) (keys_path v) = Inr (Some d) \<and> map_of d ''keys'' = Some (AMap keys) \<and>
       map_of keys (int_str (vKeyVersion v)) = Some (AMap vm) \<and> map_of vm ''public_key'' = Some (AStr k) \<and> b64_decode k = Some (vPub v) \<and>
       (vcKeyVersion cfg = 0 \<longrightarrow> toInt (field d ''latest_version'') = Inr (vKeyVersion v)) \<and>
       (\<forall>raw mn. map_of d ''min_encryption_version'' = Some raw \<and> toInt raw = Inr mn \<longrightarrow> mn \<le> vKeyVersion v)) \<and>
    (\<forall>srv' msg sig. Vault_Sign srv' v msg = Inr sig \<longrightarrow> length sig = 64 \<and>
       (\<exists>d s. vsWrite srv' (vClient v) (sign_path v) [(''input'', AStr (b64_encode msg)), (''key_version'', AInt (vKeyVersion v))] = Inr (Some d) \<and>
          map_of d ''signature'' = Some (AStr s) \<and> parseTransitSignature s = Inr sig)) \<and>
    (\<forall>srv' verify. Vault_VerifyCanSign verify srv' v = None \<longrightarrow>
       (\<exists>sig. Vault_Sign srv' v vaultPreflightMessage = Inr sig \<and> verify (vPub v) vaultPreflightMessage sig))"
proof -
  from NewVault_ok [OF assms] obtain v0 where v0: "fetchPubKey srv v0 = Inr (vPub v, vKeyVersion v)" "vClient v0 = vClient v"
      "vMount v0 = vMount v" "vKeyName v0 = vKeyName v" "vRequestedKeyVersion v0 = vcKeyVersion cfg" by metis
  then obtain mn where f: "fetchPubKeyIfExists srv v0 True = Inr (Some (vPub v, vKeyVersion v, mn))"
    by (auto simp: fetchPubKey_def split: sum.splits option.splits)
  have kp: "keys_path v0 = keys_path v" using v0 by (simp add: keys_path_def)
  from fetch_ok [OF f] v0(2,5) kp obtain d keys where d: "vsRead srv (vClient v) (keys_path v) = Inr (Some d)" "map_of d ''keys'' = Some (AMap keys)"
      "version_key keys (vKeyVersion v) = Inr (vPub v)" "vcKeyVersion cfg \<noteq> 0 \<longrightarrow> vKeyVersion v = vcKeyVersion cfg"
      "vcKeyVersion cfg = 0 \<longrightarrow> toInt (field d ''latest_version'') = Inr (vKeyVersion v)"
      "\<forall>raw. map_of d ''min_encryption_version'' = Some raw \<longrightarrow> toInt raw = Inr mn \<and> mn \<le> vKeyVersion v"
    by auto
  from version_key_ok [OF d(3)] obtain vm k where k: "length (vPub v) = 32" "map_of keys (int_str (vKeyVersion v)) = Some (AMap vm)"
      "map_of vm ''public_key'' = Some (AStr k)" "b64_decode k = Some (vPub v)" by blast
  have doc: "\<exists>d keys vm k. vsRead srv (vClient v) (keys_path v) = Inr (Some d) \<and> map_of d ''keys'' = Some (AMap keys) \<and>
       map_of keys (int_str (vKeyVersion v)) = Some (AMap vm) \<and> map_of vm ''public_key'' = Some (AStr k) \<and> b64_decode k = Some (vPub v) \<and>
       (vcKeyVersion cfg = 0 \<longrightarrow> toInt (field d ''latest_version'') = Inr (vKeyVersion v)) \<and>
       (\<forall>raw mn. map_of d ''min_encryption_version'' = Some raw \<and> toInt raw = Inr mn \<longrightarrow> mn \<le> vKeyVersion v)"
    using d k by (intro exI [of _ d] exI [of _ keys] exI [of _ vm] exI [of _ k]) auto
  have sg: "length sig = 64 \<and> (\<exists>d s. vsWrite srv' (vClient v) (sign_path v) [(''input'', AStr (b64_encode msg)), (''key_version'', AInt (vKeyVersion v))]
      = Inr (Some d) \<and> map_of d ''signature'' = Some (AStr s) \<and> parseTransitSignature s = Inr sig)"
    if "Vault_Sign srv' v msg = Inr sig" for srv' msg sig
  proof -
    from that obtain d s where "vsWrite srv' (vClient v) (sign_path v) (sign_request v msg) = Inr (Some d)"
        "as_string (field d ''signature'') = Some s" "parseTransitSignature s = Inr sig"
      by (auto simp: Vault_Sign_def signWithClient_def simp del: as_string_Some split: sum.splits option.splits)
    then show ?thesis using parseTransitSignature_size by (auto simp: sign_request_def)
  qed
  have pre: "\<exists>sig. Vault_Sign srv' v vaultPreflightMessage = Inr sig \<and> verify (vPub v) vaultPreflightMessage sig"
    if "Vault_VerifyCanSign verify srv' v = None" for srv' verify
    using that by (auto simp: Vault_VerifyCanSign_def verifyClientCanSign_def verifySigningKeyWithClient_def Vault_Sign_def
        split: option.splits sum.splits prod.splits if_splits)
  show ?thesis using k(1) d(4) doc sg pre by blast
qed

definition ex_vault_server :: vault_server where
  "ex_vault_server = \<lparr>vsRead = (\<lambda>_ _. Inr (Some [(''type'', AStr ''ed25519''), (''latest_version'', ANumber ''3''), (''min_encryption_version'', ANumber ''2''),
       (''keys'', AMap [(''3'', AMap [(''public_key'', AStr (b64_encode (replicate 32 (CHR ''p''))))])])])),
     vsWrite = (\<lambda>_ _ _. Inr (Some [(''signature'', AStr (''vault:v3:'' @ b64_encode (replicate 64 (CHR ''s''))))])),
     vsCapabilities = (\<lambda>_ _. Inr [''update'']), vsLookupSelf = (\<lambda>_. Inr (3600 * second, True))\<rparr>"

definition ex_client_env :: client_env where
  "ex_client_env = \<lparr>ncTLS = None, ncNew = None, ncTokenFile = Inr ''t''\<rparr>"

definition ex_vault_config :: VaultConfig where
  "ex_vault_config = \<lparr>vcAddress = [], vcTokenFile = ''/token'', vcMount = [], vcBindingMount = [], vcKeyName = ''val'', vcKeyVersion = 0,
     vcNamespace = [], vcTLSCACert = [], vcClaimTokenFile = []\<rparr>"

lemma b64_encode_Nil_iff: "b64_encode bs = [] \<longleftrightarrow> bs = []"
  by (cases bs rule: b64_encode.cases) (auto simp: Let_def)

theorem vault_key_is_pinned_witness:
  "\<exists>v. NewVault ex_client_env ex_vault_server ex_vault_config = Inr v \<and> vKeyVersion v = 3 \<and> length (vPub v) = 32"
proof -
  have t: "TrimSpace ''transit'' = ''transit''" "TrimSpace ''cosmosigner'' = ''cosmosigner''" "TrimSpace ''val'' = ''val''" "TrimSpace ''t'' = ''t''"
    by (rule TrimSpace_graphic; simp)+
  have n: "normalizeVaultMount ''transit'' = Inr ''transit''" "normalizeVaultMount ''cosmosigner'' = Inr ''cosmosigner''"
      "normalizeVaultKeyName ''val'' = Inr ''val''"
    by (simp_all add: normalizeVaultMount_def normalizeVaultKeyName_def Trim_def ambiguous_def t)
  have i: "int_str 3 = ''3''" by code_simp
  have "version_key [(''3'', AMap [(''public_key'', AStr (b64_encode (replicate 32 (CHR ''p''))))])] 3 = Inr (replicate 32 (CHR ''p''))"
    by (simp add: version_key_def i as_map_def as_string_def field_def b64_encode_Nil_iff)
  moreover have "toInt (ANumber ''3'') = Inr 3" "toInt (ANumber ''2'') = Inr 2"
    by (simp_all add: toInt_def ParseInt_def digit_val_def)
  ultimately obtain v where "NewVault ex_client_env ex_vault_server ex_vault_config = Inr v" "vKeyVersion v = 3"
    by (simp add: NewVault_def NewVaultClient_def ex_client_env_def ex_vault_config_def n t fetchPubKey_def fetchPubKeyIfExists_def
        ex_vault_server_def field_def as_map_def as_string_def check_def Let_def)
  with vault_key_is_pinned [OF this(1)] show ?thesis by blast
qed

subsection \<open>Renewal keeps a proven token\<close>

lemma adopt_token_cases:
  assumes "adopt_token verify r (v, at) = (v', at')"
  obtains "v' = v" "at' = at"
  | t where "v' = v\<lparr>vClient := (vClient v)\<lparr>clToken := t\<rparr>\<rparr>" "at' = None" "t \<noteq> []" "\<exists>raw. rrFile r = Inr raw \<and> t = TrimSpace raw"
      "verifyClientCanSign verify (rrServer r) (vClient v') v = None"
  using assms by (auto simp: adopt_token_def Let_def split: sum.splits if_splits)

lemma renew_once_adopts:
  "renew_once verify poll r st = ((v', at'), w) \<Longrightarrow> \<exists>at''. adopt_token verify r st = (v', at'')"
  by (auto simp: renew_once_def Let_def split: prod.splits sum.splits if_splits option.splits)

lemma renew_once_waits: "renew_once verify poll r st = (st', Some w) \<Longrightarrow> w \<le> poll"
  by (auto simp: renew_once_def Let_def split: prod.splits sum.splits if_splits option.splits)

text \<open>A token the loop uses: the one it started with, or one from the file that passed the checks of a start.\<close>

definition proven_token ::
  "(bytes \<Rightarrow> bytes \<Rightarrow> bytes \<Rightarrow> bool) \<Rightarrow> renew_round list \<Rightarrow> Vault \<Rightarrow> vaultClient \<Rightarrow> bool" where
  "proven_token verify rs v cl \<longleftrightarrow>
     cl = vClient v \<or>
     (\<exists>r\<in>set rs. \<exists>raw. rrFile r = Inr raw \<and> clToken cl = TrimSpace raw \<and> clToken cl \<noteq> [] \<and> verifyClientCanSign verify (rrServer r) cl v = None)"

text \<open>The checks read the pinned key and addresses only, which renewal leaves alone.\<close>

lemma sign_client [simp]:
  "sign_path (v\<lparr>vClient := c\<rparr>) = sign_path v" "sign_request (v\<lparr>vClient := c\<rparr>) = sign_request v"
  "signWithClient srv cl (v\<lparr>vClient := c\<rparr>) = signWithClient srv cl v" "vPub (v\<lparr>vClient := c\<rparr>) = vPub v"
  by (simp_all add: sign_path_def sign_request_def signWithClient_def fun_eq_iff)

lemma verifyClientCanSign_client [simp]:
  "verifyClientCanSign verify srv cl (v\<lparr>vClient := c\<rparr>) = verifyClientCanSign verify srv cl v"
  unfolding verifyClientCanSign_def verifySigningKeyWithClient_def sign_client by simp

lemma proven_token_step:
  assumes "renew_once verify poll r (v, at) = ((v1, at1), w)" "proven_token verify rs v1 cl"
  shows "proven_token verify (r # rs) v cl \<and> (\<exists>c. v1 = v\<lparr>vClient := c\<rparr>)"
proof -
  obtain at'' where "adopt_token verify r (v, at) = (v1, at'')" using renew_once_adopts [OF assms(1)] by blast
  then show ?thesis
  proof (cases rule: adopt_token_cases)
    case 1
    then have "\<exists>c. v1 = v\<lparr>vClient := c\<rparr>" by (intro exI [of _ "vClient v"]) simp
    moreover have "proven_token verify (r # rs) v cl" using 1 assms(2) by (auto simp: proven_token_def)
    ultimately show ?thesis by blast
  next
    case (2 t)
    have "clToken (vClient v1) = t" using 2(1) by simp
    then have "proven_token verify (r # rs) v (vClient v1)" using 2(3,4,5) by (auto simp: proven_token_def)
    moreover have "verifyClientCanSign verify srv cl v1 = verifyClientCanSign verify srv cl v" for srv using 2(1) by simp
    then have "proven_token verify (r # rs) v cl" if "cl \<noteq> vClient v1" using assms(2) that by (auto simp: proven_token_def)
    ultimately show ?thesis using 2(1) by metis
  qed
qed

lemma renew_rounds_ok:
  "renew_rounds verify poll rs (v, at) = ((v', at'), ws, fin) \<Longrightarrow>
   proven_token verify rs v (vClient v') \<and> (\<exists>c. v' = v\<lparr>vClient := c\<rparr>) \<and> (\<forall>w\<in>set ws. w \<le> poll)"
proof (induction rs arbitrary: v at v' at' ws fin)
  case Nil
  then show ?case by (auto simp: proven_token_def intro: exI [of _ "vClient v"])
next
  case (Cons r rs)
  obtain v1 at1 w where o: "renew_once verify poll r (v, at) = ((v1, at1), w)" by (metis surj_pair)
  have step: "proven_token verify (r # rs) v cl \<and> (\<exists>c. v1 = v\<lparr>vClient := c\<rparr>)" if "proven_token verify rs v1 cl" for cl
    by (rule proven_token_step [OF o that])
  have v1: "proven_token verify (r # rs) v (vClient v1)" "\<exists>c. v1 = v\<lparr>vClient := c\<rparr>"
    using step [of "vClient v1"] by (auto simp: proven_token_def)
  show ?case
  proof (cases "w \<noteq> None \<and> rrStop r")
    case True
    then have "v' = v1" "\<forall>x\<in>set ws. x \<le> poll" using Cons.prems o renew_once_waits by (auto split: option.splits)
    with v1 show ?thesis by simp
  next
    case False
    then obtain ws' where rest: "renew_rounds verify poll rs (v1, at1) = ((v', at'), ws', fin)" "ws = (case w of None \<Rightarrow> [] | Some x \<Rightarrow> [x]) @ ws'"
      using Cons.prems o by (auto split: option.splits prod.splits)
    from Cons.IH [OF rest(1)] have i: "proven_token verify rs v1 (vClient v')" "\<exists>c. v' = v1\<lparr>vClient := c\<rparr>" "\<forall>x\<in>set ws'. x \<le> poll" by auto
    have "\<forall>x\<in>set ws. x \<le> poll" using i(3) rest(2) renew_once_waits [of verify poll r "(v, at)"] o by (auto split: option.splits)
    moreover have "\<exists>c. v' = v\<lparr>vClient := c\<rparr>" using i(2) v1(2) by auto
    ultimately show ?thesis using step [OF i(1)] by blast
  qed
qed

lemma renew_rounds_stopped:
  "renew_rounds verify poll rs st = (st', ws, fin) \<Longrightarrow> \<forall>r\<in>set rs. rrStop r \<Longrightarrow> ws \<noteq> [] \<Longrightarrow> fin \<and> length ws = 1"
  by (induction rs arbitrary: st) (auto split: prod.splits option.splits)

text \<open>
  C40: renewal never swaps in a token that cannot sign. Whatever the token file holds, however lookups
  and renewals fail, the token in use is the one the backend started with or one read from the
  token file that passed every check of a start (capability, lifetime, and a signature of the pinned
  version under the pinned key); pinned key, version and addresses stay as they are. No wait is
  longer than the poll interval, so a replacement is noticed within it, and a backend that was
  closed starts no loop and ends the running one at its next wait.
\<close>
theorem vault_renewal_is_safe:
  assumes "renewLoopWithPollInterval verify poll rs v = ((v', at'), ws, fin)"
  shows "(vClient v' = vClient v \<or>
      (\<exists>r\<in>set rs. \<exists>raw. rrFile r = Inr raw \<and> clToken (vClient v') = TrimSpace raw \<and> clToken (vClient v') \<noteq> [] \<and>
         verifyClientCanSign verify (rrServer r) (vClient v') v = None)) \<and>
    v' = v\<lparr>vClient := vClient v'\<rparr> \<and>
    (\<forall>w\<in>set ws. w \<le> (if poll \<le> 0 then 60 * second else poll)) \<and>
    ((\<forall>r\<in>set rs. rrStop r) \<and> ws \<noteq> [] \<longrightarrow> fin \<and> length ws = 1) \<and>
    snd (StartRenewal (Vault_Close v)) \<noteq> None \<and> vLoops (fst (StartRenewal (Vault_Close v))) = vLoops v"
proof -
  let ?poll = "if poll \<le> 0 then 60 * second else poll"
  have r: "renew_rounds verify ?poll rs (v, None) = ((v', at'), ws, fin)" using assms by (simp add: renewLoopWithPollInterval_def)
  from renew_rounds_ok [OF r] have ok: "proven_token verify rs v (vClient v')" "\<exists>c. v' = v\<lparr>vClient := c\<rparr>" "\<forall>w\<in>set ws. w \<le> ?poll" by auto
  have "v' = v\<lparr>vClient := vClient v'\<rparr>" using ok(2) by auto
  moreover have "(\<forall>r\<in>set rs. rrStop r) \<and> ws \<noteq> [] \<longrightarrow> fin \<and> length ws = 1" using renew_rounds_stopped [OF r] by blast
  ultimately show ?thesis using ok(1,3) unfolding proven_token_def by (simp add: StartRenewal_def Vault_Close_def)
qed

definition ex_round :: renew_round where
  "ex_round = \<lparr>rrFile = Inr ''t'', rrClone = None, rrServer = ex_vault_server, rrNowSchedule = 0, rrNowDue = 0, rrNowWait = 0, rrRenew = None,
     rrStop = True\<rparr>"

theorem vault_renewal_is_safe_witness:
  "\<exists>v' at' ws fin. renewLoopWithPollInterval (\<lambda>_ _ _. True) 0 [ex_round] ex_vault = ((v', at'), ws, fin) \<and> fin \<and> ws = [60 * second] \<and>
     vClient v' = vClient ex_vault"
proof -
  have t: "TrimSpace ''t'' = ''t''" by (rule TrimSpace_graphic; simp)
  obtain v' at' ws fin where r: "renewLoopWithPollInterval (\<lambda>_ _ _. True) 0 [ex_round] ex_vault = ((v', at'), ws, fin)" by (metis surj_pair)
  then have w: "ws = [60 * second]" "v' = ex_vault"
    by (auto simp: renewLoopWithPollInterval_def renew_once_def adopt_token_def ex_round_def t ex_vault_server_def ex_vault_def second_def Let_def)
  have "fin" using vault_renewal_is_safe [OF r] w by (simp add: ex_round_def)
  with r w show ?thesis by blast
qed

end
