(* ===== verification/CryptoLib.thy ===== *)
theory CryptoLib
  imports Backend
begin

section \<open>Key formats and key wrapping\<close>

text \<open>
  The primitives of \<^verbatim>\<open>crypto/x509\<close>, \<^verbatim>\<open>crypto/rsa\<close>, \<^verbatim>\<open>encoding/pem\<close> and the key-wrap library that the cloud
  backends call, collected as one argument. A parsed key is given by what the code looks at: its kind,
  the bytes of an ed25519 key, the modulus and size of an RSA key.
\<close>

datatype pkix_key = RSAKey bytes nat | Ed25519Pub bytes | OtherPub

datatype pkcs8_key = Ed25519Private bytes | OtherPrivate

record crypto_lib =
  pemDecode :: "string \<Rightarrow> bytes option"
  parsePKIX :: "bytes \<Rightarrow> pkix_key result"
  parsePKCS8 :: "bytes \<Rightarrow> pkcs8_key result"
  ed25519Public :: "bytes \<Rightarrow> bytes"
  encryptOAEP :: "bytes \<Rightarrow> bytes \<Rightarrow> bytes result"
  newKWP :: "bytes \<Rightarrow> go_error option"
  kwpWrap :: "bytes \<Rightarrow> bytes \<Rightarrow> bytes result"
  verifySignature :: "bytes \<Rightarrow> bytes \<Rightarrow> bytes \<Rightarrow> bool"

end
