(* ===== verification/GcpKms.thy ===== *)
theory GcpKms
  imports CryptoLib
begin

section \<open>The Cloud KMS backend (internal/backend/gcpkms.go, gcpkms_binding.go)\<close>

text \<open>
  Signing through Cloud KMS with the integrity checks of every answer, and the claim as a label of the
  CryptoKey. Cloud KMS and its client are third-party code: their answers are arguments. Labels are
  a map; a request carries the whole map it asks for.
\<close>

subsection \<open>CRC-32C\<close>

text \<open>\<^verbatim>\<open>crc32.Checksum\<close> with the Castagnoli polynomial, bit by bit.\<close>

definition crc_step :: "32 word \<Rightarrow> 32 word" where
  "crc_step c = (if bit c 0 then xor (drop_bit 1 c) 0x82F63B78 else drop_bit 1 c)"

definition crc_byte :: "char \<Rightarrow> 32 word \<Rightarrow> 32 word" where
  "crc_byte b c = (crc_step ^^ 8) (xor c (of_char b))"

definition crc32c :: "bytes \<Rightarrow> int" where
  "crc32c bs = uint (not (fold crc_byte bs (not 0)))"

subsection \<open>Credentials and names\<close>

definition credential_types :: "string list" where
  "credential_types = [''service_account'', ''authorized_user'', ''impersonated_service_account'', ''external_account'',
     ''gdc_service_account'', ''external_account_authorized_user'']"

definition credTypeFromJSON :: "bytes \<Rightarrow> string result" where
  "credTypeFromJSON d =
     (case (case json_unmarshal d of
              None \<Rightarrow> None
            | Some j \<Rightarrow> decode_struct [(''type'', \<lambda>v r. dec_string r v)] [] j) of
        None \<Rightarrow> Inl (errors_New ''parse credentials type'')
      | Some t \<Rightarrow> if t \<in> set credential_types then Inr t else Inl (errors_New ''unknown credentials type''))"

text \<open>The explicit credentials of a client, \<open>None\<close> for the ambient ones.\<close>

definition GCPClientOptions :: "bytes result \<Rightarrow> string \<Rightarrow> (string \<times> bytes) option result" where
  "GCPClientOptions file credsFile =
     (if credsFile = [] then Inr None
      else case file of
        Inl e \<Rightarrow> Inl (Errorf ''read credentials file'' [e])
      | Inr d \<Rightarrow> (case credTypeFromJSON d of Inl e \<Rightarrow> Inl e | Inr t \<Rightarrow> Inr (Some (t, d))))"

definition gcp_words :: "string list" where
  "gcp_words = [''projects'', ''locations'', ''keyRings'', ''cryptoKeys'', ''cryptoKeyVersions'']"

definition gcpCryptoKeyName :: "string \<Rightarrow> string result" where
  "gcpCryptoKeyName version =
     (let parts = Split (CHR ''/'') version; bad = Inl (errors_New ''invalid GCP CryptoKeyVersion resource'') in
      if length parts \<noteq> 10 \<or> map (\<lambda>i. parts ! (2 * i)) [0..<5] \<noteq> gcp_words then bad
      else if list_ex (\<lambda>i. ambiguous (parts ! (2 * i + 1))) [0..<5] then bad
      else Inr (Join (CHR ''/'') (take 8 parts)))"

subsection \<open>Construction and signing\<close>

datatype gcp_algorithm = EC_SIGN_ED25519 | OtherAlgorithm

record gcp_public_key =
  gpAlgorithm :: gcp_algorithm
  gpPem :: string

record gcp_signature =
  gsVerifiedDataCrc :: bool
  gsName :: string
  gsSignature :: bytes
  gsSignatureCrc :: "int option"

record GCPKMS =
  gKeyVersion :: string
  gKeyResource :: string
  gTimeout :: int
  gPub :: bytes

definition gcp_fetchPubKey :: "crypto_lib \<Rightarrow> gcp_public_key result \<Rightarrow> bytes result" where
  "gcp_fetchPubKey cl got =
     (case got of
        Inl e \<Rightarrow> Inl (Errorf ''get public key'' [e])
      | Inr resp \<Rightarrow>
          if gpAlgorithm resp \<noteq> EC_SIGN_ED25519 then Inl (errors_New ''key algorithm, want EC_SIGN_ED25519'')
          else
     (case pemDecode cl (gpPem resp) of
        None \<Rightarrow> Inl (errors_New ''failed to decode public key PEM'')
      | Some block \<Rightarrow>
     (case parsePKIX cl block of
        Inl e \<Rightarrow> Inl (Errorf ''parse public key'' [e])
      | Inr (Ed25519Pub edPub) \<Rightarrow>
          if length edPub \<noteq> 32 then Inl (errors_New ''ed25519 public key size'') else Inr edPub
      | Inr _ \<Rightarrow> Inl (errors_New ''public key is not ed25519''))))"

record gcp_new_env =
  gnFile :: "bytes result"
  gnClient :: "go_error option"
  gnPublicKey :: "string \<Rightarrow> gcp_public_key result"

definition NewGCPKMS :: "crypto_lib \<Rightarrow> gcp_new_env \<Rightarrow> GCPKMSConfig \<Rightarrow> GCPKMS result" where
  "NewGCPKMS cl env cfg =
     (if gcKeyVersion cfg = [] then Inl (errors_New ''gcpkms backend requires a key version resource name'')
      else
     (case gcpCryptoKeyName (gcKeyVersion cfg) of
        Inl e \<Rightarrow> Inl e
      | Inr keyResource \<Rightarrow>
     (case GCPClientOptions (gnFile env) (gcCredentialsFile cfg) of
        Inl e \<Rightarrow> Inl e
      | Inr opts \<Rightarrow>
     (case gnClient env of
        Some e \<Rightarrow> Inl (Errorf ''new kms client'' [e])
      | None \<Rightarrow>
     (case gcp_fetchPubKey cl (gnPublicKey env (gcKeyVersion cfg)) of
        Inl e \<Rightarrow> Inl e
      | Inr pub \<Rightarrow>
          Inr \<lparr>gKeyVersion = gcKeyVersion cfg, gKeyResource = keyResource,
               gTimeout = (if gcTimeout cfg \<le> 0 then 10 * second else gcTimeout cfg), gPub = pub\<rparr>)))))"

text \<open>\<open>sign name data crc\<close> is KMS's answer to a signing request.\<close>

definition gcp_sign :: "(string \<Rightarrow> bytes \<Rightarrow> int \<Rightarrow> gcp_signature result) \<Rightarrow> GCPKMS \<Rightarrow> bytes \<Rightarrow> bytes result" where
  "gcp_sign kms g msg =
     (case kms (gKeyVersion g) msg (crc32c msg) of
        Inl e \<Rightarrow> Inl (Errorf ''kms asymmetric sign'' [e])
      | Inr resp \<Rightarrow>
          if \<not> gsVerifiedDataCrc resp then Inl (errors_New ''kms did not verify request data integrity'')
          else if gsName resp \<noteq> gKeyVersion g then Inl (errors_New ''kms response key mismatch'')
          else if gsSignatureCrc resp \<noteq> Some (crc32c (gsSignature resp))
          then Inl (errors_New ''kms response signature corrupted in transit'')
          else if length (gsSignature resp) \<noteq> 64 then Inl (errors_New ''signature size'')
          else Inr (gsSignature resp))"

definition gcpPreflightMessage :: bytes where
  "gcpPreflightMessage =
     ''cosmosigner/gcpkms preflight '' @ [CHR 0xE2, CHR 0x80, CHR 0x94] @ '' not a consensus message''"

definition gcp_VerifyCanSign :: "crypto_lib \<Rightarrow> (string \<Rightarrow> bytes \<Rightarrow> int \<Rightarrow> gcp_signature result) \<Rightarrow> GCPKMS \<Rightarrow> go_error option" where
  "gcp_VerifyCanSign cl kms g =
     (case gcp_sign kms g gcpPreflightMessage of
        Inl e \<Rightarrow> Some (Errorf ''kms key cannot sign'' [e])
      | Inr sig \<Rightarrow>
          if \<not> verifySignature cl (gPub g) gcpPreflightMessage sig
          then Some (errors_New ''kms key produced a signature that does not verify against its public key'') else None)"

subsection \<open>The label\<close>

definition gcpClusterIDLabel :: string where
  "gcpClusterIDLabel = ''cosmosigner-cluster-id''"

type_synonym labels = "string \<rightharpoonup> string"

record gcp_key =
  gkName :: string
  gkLabels :: labels

definition getCryptoKey :: "GCPKMS \<Rightarrow> gcp_key option result \<Rightarrow> gcp_key result" where
  "getCryptoKey g got =
     (case got of
        Inl e \<Rightarrow> Inl (Errorf ''get GCP CryptoKey'' [e])
      | Inr None \<Rightarrow> Inl (errors_New ''GCP CryptoKey response resource mismatch'')
      | Inr (Some key) \<Rightarrow>
          if gkName key \<noteq> gKeyResource g then Inl (errors_New ''GCP CryptoKey response resource mismatch'') else Inr key)"

definition gcp_bindingResource :: "GCPKMS \<Rightarrow> string list" where
  "gcp_bindingResource g = [gKeyResource g, gcpClusterIDLabel]"

definition gcp_ClusterBinding :: "GCPKMS \<Rightarrow> gcp_key option result \<Rightarrow> string result" where
  "gcp_ClusterBinding g got =
     (case getCryptoKey g got of
        Inl e \<Rightarrow> Inl (Errorf ''unreadable'' [Sentinel ErrBindingUnreadable])
      | Inr key \<Rightarrow>
     (case gkLabels key gcpClusterIDLabel of
        None \<Rightarrow> Inl (Errorf ''no label'' [Sentinel ErrBindingUnclaimed])
      | Some cid \<Rightarrow>
          if Validate cid \<noteq> None then Inl (Errorf ''invalid label'' [Sentinel ErrBindingCorrupt]) else Inr cid))"

text \<open>
  What a claim meets: KMS answers reads from the labels it holds; an update request for a map of
  labels leaves some labels behind and may report an error.
\<close>

record gcp_claim_env =
  gqRead :: "labels \<Rightarrow> gcp_key option result"
  gqUpdate :: "string \<Rightarrow> labels \<Rightarrow> labels \<Rightarrow> labels \<times> go_error option"
  gqReread :: "labels \<Rightarrow> gcp_key option result"

definition gcp_ClaimCluster :: "GCPKMS \<Rightarrow> gcp_claim_env \<Rightarrow> string \<Rightarrow> labels \<Rightarrow> labels \<times> go_error option" where
  "gcp_ClaimCluster g env cid s =
     (case Validate cid of
        Some e \<Rightarrow> (s, Some (Errorf ''invalid cluster ID'' [e]))
      | None \<Rightarrow>
     (case getCryptoKey g (gqRead env s) of
        Inl e \<Rightarrow> (s, Some (Errorf ''unreadable'' [Sentinel ErrBindingUnreadable]))
      | Inr key \<Rightarrow>
     (case gkLabels key gcpClusterIDLabel of
        Some actual \<Rightarrow>
          if Validate actual \<noteq> None then (s, Some (Errorf ''invalid label'' [Sentinel ErrBindingCorrupt]))
          else (s, requireClaimOwner cid actual)
      | None \<Rightarrow>
     (case gqUpdate env (gKeyResource g) ((gkLabels key)(gcpClusterIDLabel \<mapsto> cid)) s of
        (s', Some e) \<Rightarrow> (s', Some (Errorf ''update GCP CryptoKey cluster label'' [e]))
      | (s', None) \<Rightarrow>
     (case gcp_ClusterBinding g (gqReread env s') of
        Inl e \<Rightarrow> (s', Some (Errorf ''reread GCP CryptoKey after claim'' [e]))
      | Inr actual \<Rightarrow> (s', requireClaimOwner cid actual))))))"

subsection \<open>The label is a claim registry\<close>

text \<open>
  Cloud KMS has no compare-and-set on labels, so the claim is only as good as the first read: the
  hypothesis is that KMS answers reads with the labels it holds, and that the administrator runs one
  claim at a time (claims follow one another in a history).
\<close>

definition gcp_owner :: "labels \<Rightarrow> string option" where
  "gcp_owner s = (case s gcpClusterIDLabel of Some cid \<Rightarrow> if Validate cid = None then Some cid else None | None \<Rightarrow> None)"

definition gcp_truthful :: "(labels \<Rightarrow> gcp_key option result) \<Rightarrow> bool" where
  "gcp_truthful f \<longleftrightarrow> (\<forall>s key. f s = Inr (Some key) \<longrightarrow> gkLabels key = s)"

definition gcp_fair :: "gcp_claim_env \<Rightarrow> bool" where
  "gcp_fair env \<longleftrightarrow> gcp_truthful (gqRead env) \<and> gcp_truthful (gqReread env)"

lemma getCryptoKey_ok: "getCryptoKey g got = Inr key \<longleftrightarrow> got = Inr (Some key) \<and> gkName key = gKeyResource g"
  by (auto simp: getCryptoKey_def split: sum.splits option.splits)

lemma gcp_binding_ok:
  "gcp_ClusterBinding g got = Inr cid \<longleftrightarrow>
     (\<exists>key. got = Inr (Some key) \<and> gkName key = gKeyResource g \<and> gcp_owner (gkLabels key) = Some cid)"
  by (auto simp: gcp_ClusterBinding_def gcp_owner_def getCryptoKey_def split: sum.splits option.splits if_splits)

lemma gcp_claim_cases:
  assumes "gcp_ClaimCluster g env cid s = (s', r)"
  obtains (kept) "s' = s" "r = None \<longrightarrow> (\<exists>key. gqRead env s = Inr (Some key) \<and> gcp_owner (gkLabels key) = Some cid)"
  | (updated) key ue where "gqRead env s = Inr (Some key)" "gkLabels key gcpClusterIDLabel = None"
      "gqUpdate env (gKeyResource g) ((gkLabels key)(gcpClusterIDLabel \<mapsto> cid)) s = (s', ue)"
      "r = None \<longrightarrow> ue = None \<and> gcp_ClusterBinding g (gqReread env s') = Inr cid"
  using assms
  by (auto simp: gcp_ClaimCluster_def gcp_owner_def getCryptoKey_ok split: option.splits sum.splits if_splits prod.splits)

interpretation gcp_registry: claim_registry gcp_owner "\<lambda>f s. gcp_ClusterBinding g (f s)"
  "\<lambda>env cid s. Some (gcp_ClaimCluster g env cid s)" gcp_truthful gcp_fair
  for g
proof
  show "gcp_owner s = Some cid" if "gcp_truthful f" "gcp_ClusterBinding g (f s) = Inr cid" for f s cid
    using that by (auto simp: gcp_binding_ok gcp_truthful_def)
next
  fix env s cid i s' r
  assume f: "gcp_fair env" and o: "gcp_owner s = Some cid" and "Some (gcp_ClaimCluster g env i s) = Some (s', r)"
  then have "gcp_ClaimCluster g env i s = (s', r)" by simp
  then show "gcp_owner s' = Some cid"
  proof (cases rule: gcp_claim_cases)
    case kept
    with o show ?thesis by simp
  next
    case (updated key ue)
    have "gkLabels key = s" using f updated(1) by (auto simp: gcp_fair_def gcp_truthful_def)
    with updated(2) o show ?thesis by (simp add: gcp_owner_def)
  qed
next
  fix env i s s'
  assume f: "gcp_fair env" and "Some (gcp_ClaimCluster g env i s) = Some (s', None)"
  then have "gcp_ClaimCluster g env i s = (s', None)" by simp
  then show "gcp_owner s' = Some i"
    by (cases rule: gcp_claim_cases) (use f in \<open>auto simp: gcp_fair_def gcp_truthful_def gcp_binding_ok\<close>)
qed

text \<open>A Cloud KMS that answers and updates without faults satisfies the hypotheses, and its claim succeeds.\<close>

definition honest_gcp :: "GCPKMS \<Rightarrow> gcp_claim_env" where
  "honest_gcp g = \<lparr>gqRead = (\<lambda>s. Inr (Some \<lparr>gkName = gKeyResource g, gkLabels = s\<rparr>)), gqUpdate = (\<lambda>_ l _. (l, None)),
     gqReread = (\<lambda>s. Inr (Some \<lparr>gkName = gKeyResource g, gkLabels = s\<rparr>))\<rparr>"

lemma honest_gcp_fair [simp]: "gcp_fair (honest_gcp g)"
  by (simp add: gcp_fair_def gcp_truthful_def honest_gcp_def)

lemma honest_gcp_claim:
  assumes "valid_id cid" "s gcpClusterIDLabel = None"
  shows "gcp_ClaimCluster g (honest_gcp g) cid s = (s(gcpClusterIDLabel \<mapsto> cid), None)"
  using assms by (simp add: gcp_ClaimCluster_def honest_gcp_def getCryptoKey_def gcp_ClusterBinding_def)

subsection \<open>Properties\<close>

lemma gcpCryptoKeyName_ok:
  assumes "gcpCryptoKeyName version = Inr res"
  shows "\<exists>n. version = res @ ''/cryptoKeyVersions/'' @ n \<and> n \<noteq> [] \<and> CHR ''/'' \<notin> set n"
proof -
  let ?ps = "Split (CHR ''/'') version"
  have l: "length ?ps = 10" "map (\<lambda>i. ?ps ! (2 * i)) [0..<5] = gcp_words" "\<not> list_ex (\<lambda>i. ambiguous (?ps ! (2 * i + 1))) [0..<5]"
    and res: "res = Join (CHR ''/'') (take 8 ?ps)"
    using assms by (auto simp: gcpCryptoKeyName_def Let_def split: if_splits)
  obtain a b c d e f g h i j where ps: "?ps = [a, b, c, d, e, f, g, h, i, j]"
    using l(1) by (auto simp: eval_nat_numeral length_Suc_conv)
  have "i = ''cryptoKeyVersions''" "j \<noteq> []" using l(2,3) by (auto simp: ps gcp_words_def ambiguous_def eval_nat_numeral upt_conv_Cons)
  moreover have "CHR ''/'' \<notin> set j" using Split_no_sep [of j "CHR ''/''" version] ps by simp
  moreover have "version = Join (CHR ''/'') [a, b, c, d, e, f, g, h, i, j]" using Join_Split [of "CHR ''/''" version] ps by simp
  ultimately show ?thesis using res ps by (intro exI [of _ j]) (simp add: Join_Cons)
qed

text \<open>
  C36: a Cloud KMS signature is the pinned key's. A constructed backend holds a 32-byte key that KMS
  reported as an ed25519 key of the configured version, and its claim label is read from the CryptoKey that
  contains this version. A signature it returns has 64 bytes, was answered for exactly that version and for the bytes
  whose checksum KMS confirmed, and arrived with a matching checksum of its own; after a preflight
  that passed, a signature has verified under that key.
\<close>
theorem gcp_signature_is_checked:
  assumes "NewGCPKMS cl env cfg = Inr g"
  shows "length (gPub g) = 32 \<and> gKeyVersion g = gcKeyVersion cfg \<and>
    (\<exists>n. gKeyVersion g = gKeyResource g @ ''/cryptoKeyVersions/'' @ n \<and> n \<noteq> [] \<and> CHR ''/'' \<notin> set n) \<and> 0 < gTimeout g \<and>
    (\<exists>k. gnPublicKey env (gKeyVersion g) = Inr k \<and> gpAlgorithm k = EC_SIGN_ED25519) \<and>
    (\<forall>kms msg sig. gcp_sign kms g msg = Inr sig \<longrightarrow> length sig = 64 \<and>
       (\<exists>resp. kms (gKeyVersion g) msg (crc32c msg) = Inr resp \<and> gsVerifiedDataCrc resp \<and> gsName resp = gKeyVersion g \<and>
          gsSignature resp = sig \<and> gsSignatureCrc resp = Some (crc32c sig))) \<and>
    (\<forall>kms. gcp_VerifyCanSign cl kms g = None \<longrightarrow>
       (\<exists>sig. gcp_sign kms g gcpPreflightMessage = Inr sig \<and> verifySignature cl (gPub g) gcpPreflightMessage sig))"
proof -
  from assms obtain res where r: "gcpCryptoKeyName (gcKeyVersion cfg) = Inr res" "gKeyResource g = res" "gKeyVersion g = gcKeyVersion cfg"
      "0 < gTimeout g" "gcp_fetchPubKey cl (gnPublicKey env (gcKeyVersion cfg)) = Inr (gPub g)"
    by (auto simp: NewGCPKMS_def second_def split: if_splits sum.splits option.splits)
  have k: "length (gPub g) = 32" "\<exists>k. gnPublicKey env (gKeyVersion g) = Inr k \<and> gpAlgorithm k = EC_SIGN_ED25519"
    using r(3,5) by (auto simp: gcp_fetchPubKey_def split: sum.splits if_splits option.splits pkix_key.splits)
  have s: "length sig = 64 \<and> (\<exists>resp. kms (gKeyVersion g) msg (crc32c msg) = Inr resp \<and> gsVerifiedDataCrc resp \<and> gsName resp = gKeyVersion g \<and>
          gsSignature resp = sig \<and> gsSignatureCrc resp = Some (crc32c sig))" if "gcp_sign kms g msg = Inr sig" for kms msg sig
    using that by (auto simp: gcp_sign_def split: sum.splits if_splits)
  have v: "\<exists>sig. gcp_sign kms g gcpPreflightMessage = Inr sig \<and> verifySignature cl (gPub g) gcpPreflightMessage sig"
    if "gcp_VerifyCanSign cl kms g = None" for kms
    using that by (auto simp: gcp_VerifyCanSign_def split: sum.splits if_splits)
  have "\<exists>n. gKeyVersion g = gKeyResource g @ ''/cryptoKeyVersions/'' @ n \<and> n \<noteq> [] \<and> CHR ''/'' \<notin> set n"
    using gcpCryptoKeyName_ok [OF r(1)] r(2,3) by simp
  with k r(3,4) s v show ?thesis by blast
qed

definition ex_gcp_crypto :: crypto_lib where
  "ex_gcp_crypto = \<lparr>pemDecode = Some, parsePKIX = (\<lambda>b. Inr (Ed25519Pub b)), parsePKCS8 = (\<lambda>b. Inr (Ed25519Private b)), ed25519Public = (\<lambda>b. b),
     encryptOAEP = (\<lambda>k m. Inr m), newKWP = (\<lambda>_. None), kwpWrap = (\<lambda>k m. Inr m), verifySignature = (\<lambda>_ _ _. True)\<rparr>"

definition ex_gcp_env :: gcp_new_env where
  "ex_gcp_env = \<lparr>gnFile = Inr [], gnClient = None, gnPublicKey = (\<lambda>_. Inr \<lparr>gpAlgorithm = EC_SIGN_ED25519, gpPem = replicate 32 (CHR ''p'')\<rparr>)\<rparr>"

definition ex_gcp_config :: GCPKMSConfig where
  "ex_gcp_config = \<lparr>gcKeyVersion = ''projects/p/locations/l/keyRings/r/cryptoKeys/k/cryptoKeyVersions/1'', gcCredentialsFile = [],
     gcClaimCredentialsFile = [], gcTimeout = 0\<rparr>"

lemma ex_gcp_name: "gcpCryptoKeyName (gcKeyVersion ex_gcp_config) = Inr ''projects/p/locations/l/keyRings/r/cryptoKeys/k''"
proof -
  have t: "TrimSpace [c] = [c]" if "c \<in> set ''plrk1''" for c using that by (intro TrimSpace_graphic) auto
  show ?thesis by (simp add: gcpCryptoKeyName_def ex_gcp_config_def gcp_words_def ambiguous_def t Let_def upt_rec)
qed

theorem gcp_signature_is_checked_witness:
  "\<exists>g. NewGCPKMS ex_gcp_crypto ex_gcp_env ex_gcp_config = Inr g \<and> length (gPub g) = 32 \<and> gKeyResource g = ''projects/p/locations/l/keyRings/r/cryptoKeys/k''"
proof -
  obtain g where g: "NewGCPKMS ex_gcp_crypto ex_gcp_env ex_gcp_config = Inr g" "gKeyResource g = ''projects/p/locations/l/keyRings/r/cryptoKeys/k''"
  proof -
    have "gcKeyVersion ex_gcp_config \<noteq> []" "gcCredentialsFile ex_gcp_config = []" by (simp_all add: ex_gcp_config_def)
    then show thesis using ex_gcp_name that
      by (simp add: NewGCPKMS_def ex_gcp_crypto_def ex_gcp_env_def GCPClientOptions_def gcp_fetchPubKey_def)
  qed
  with gcp_signature_is_checked [OF g(1)] show ?thesis by blast
qed

end
