(* ===== verification/AwsKms.thy ===== *)
theory AwsKms
  imports CryptoLib
begin

section \<open>The AWS KMS backend (internal/backend/awskms.go, awskms_binding.go)\<close>

text \<open>
  Signing through AWS KMS under a pinned key ARN with local verification, and the claim as a tag of
  the key. KMS, the SDK and its ARN parser are third-party code: their answers are arguments, and a nil
  answer is \<open>None\<close>.
\<close>

subsection \<open>Key identity\<close>

record ARN =
  arnPartition :: string
  arnService :: string
  arnRegion :: string
  arnAccountID :: string
  arnResource :: string

type_synonym arn_parser = "string \<Rightarrow> ARN result"

definition key_prefix :: string where
  "key_prefix = ''key/''"

definition checkAWSKeyARN :: "arn_parser \<Rightarrow> string \<Rightarrow> go_error option" where
  "checkAWSKeyARN parse keyARN =
     (case parse keyARN of
        Inl e \<Rightarrow> Some (errors_New ''invalid AWS KMS key ARN'')
      | Inr a \<Rightarrow>
          let keyID = drop (length key_prefix) (arnResource a) in
          first_error
            [check (arnService a \<noteq> ''kms'' \<or> arnPartition a = [] \<or> arnRegion a = [] \<or> length (arnAccountID a) \<noteq> 12 \<or>
                    \<not> HasPrefix (arnResource a) key_prefix) ''invalid AWS KMS key ARN'',
             check (list_ex (\<lambda>c. \<not> is_digit c) (arnAccountID a)) ''invalid AWS KMS account in ARN'',
             check (keyID = [] \<or> list_ex (\<lambda>c. c \<in> {CHR ''/'', CHR '' '', CHR 0x09, CHR 0x0D, CHR 0x0A}) keyID) ''invalid AWS KMS key ARN'',
             check (HasPrefix keyID ''mrk-'') ''multi-Region AWS KMS keys are unsupported''])"

definition checkAWSKeyIdentity :: "arn_parser \<Rightarrow> string \<Rightarrow> string \<Rightarrow> go_error option" where
  "checkAWSKeyIdentity parse requested returned =
     (case checkAWSKeyARN parse returned of
        Some e \<Rightarrow> Some e
      | None \<Rightarrow>
          if HasPrefix requested ''arn:'' then
            (case parse requested of
               Inl e \<Rightarrow> Some (Errorf ''invalid requested AWS ARN'' [e])
             | Inr a \<Rightarrow> check (\<not> HasPrefix (arnResource a) ''alias/'' \<and> requested \<noteq> returned) ''AWS key ARN mismatch'')
          else if requested \<noteq> [] \<and> \<not> HasPrefix requested ''alias/'' then
            check ((case parse returned of Inl _ \<Rightarrow> [] | Inr a \<Rightarrow> arnResource a) \<noteq> ''key/'' @ requested) ''AWS key ID mismatch''
          else None)"

subsection \<open>Construction and signing\<close>

datatype aws_spec = ECC_NIST_EDWARDS25519 | OtherSpec
datatype aws_usage = SIGN_VERIFY | OtherUsage
datatype aws_sigalg = ED25519_SHA_512 | OtherSigAlg

record aws_public_key =
  apKeyId :: string
  apSpec :: aws_spec
  apUsage :: aws_usage
  apAlgorithms :: "aws_sigalg list"
  apPublicKey :: bytes

definition parseAWSPublicKey :: "crypto_lib \<Rightarrow> aws_public_key \<Rightarrow> bytes result" where
  "parseAWSPublicKey cl resp =
     (if apSpec resp \<noteq> ECC_NIST_EDWARDS25519 then Inl (errors_New ''AWS key spec, want ECC_NIST_EDWARDS25519'')
      else if apUsage resp \<noteq> SIGN_VERIFY then Inl (errors_New ''AWS key usage, want SIGN_VERIFY'')
      else if ED25519_SHA_512 \<notin> set (apAlgorithms resp) then Inl (errors_New ''AWS key does not advertise ED25519_SHA_512'')
      else
     (case parsePKIX cl (apPublicKey resp) of
        Inl e \<Rightarrow> Inl (Errorf ''parse AWS public key'' [e])
      | Inr (Ed25519Pub pub) \<Rightarrow> if length pub \<noteq> 32 then Inl (errors_New ''AWS public key is not a 32-byte ed25519 key'') else Inr pub
      | Inr _ \<Rightarrow> Inl (errors_New ''AWS public key is not a 32-byte ed25519 key'')))"

record AWSKMS =
  aKeyARN :: string
  aTimeout :: int
  aPub :: bytes

definition awsTimeout :: "AWSKMSConfig \<Rightarrow> int" where
  "awsTimeout cfg = (if acTimeout cfg > 0 then acTimeout cfg else 10 * second)"

text \<open>The client: its region and the role it assumes, when configured.\<close>

definition newAWSClient :: "go_error option \<Rightarrow> AWSKMSConfig \<Rightarrow> (string option \<times> string option) result" where
  "newAWSClient loadErr cfg =
     (case loadErr of
        Some e \<Rightarrow> Inl (Errorf ''load AWS configuration'' [e])
      | None \<Rightarrow>
          Inr (if acRegion cfg \<noteq> [] then Some (acRegion cfg) else None,
               if assumeRoleARN cfg \<noteq> [] then Some (assumeRoleARN cfg) else None))"

record aws_new_env =
  anLoad :: "go_error option"
  anPublicKey :: "string \<Rightarrow> aws_public_key option result"
  anParse :: arn_parser

definition NewAWSKMS :: "crypto_lib \<Rightarrow> aws_new_env \<Rightarrow> AWSKMSConfig \<Rightarrow> AWSKMS result" where
  "NewAWSKMS cl env cfg =
     (if acKeyID cfg = [] then Inl (errors_New ''awskms backend requires a key ID or ARN'')
      else
     (case newAWSClient (anLoad env) cfg of
        Inl e \<Rightarrow> Inl e
      | Inr client \<Rightarrow>
     (case anPublicKey env (acKeyID cfg) of
        Inl e \<Rightarrow> Inl (Errorf ''get AWS public key'' [e])
      | Inr None \<Rightarrow> Inl (errors_New ''empty AWS public key response'')
      | Inr (Some resp) \<Rightarrow>
     (case checkAWSKeyIdentity (anParse env) (acKeyID cfg) (apKeyId resp) of
        Some e \<Rightarrow> Inl e
      | None \<Rightarrow>
     (case parseAWSPublicKey cl resp of
        Inl e \<Rightarrow> Inl e
      | Inr pub \<Rightarrow> Inr \<lparr>aKeyARN = apKeyId resp, aTimeout = awsTimeout cfg, aPub = pub\<rparr>)))))"

record aws_signature =
  asKeyId :: string
  asAlgorithm :: aws_sigalg
  asSignature :: bytes

definition aws_sign :: "crypto_lib \<Rightarrow> (string \<Rightarrow> bytes \<Rightarrow> aws_signature option result) \<Rightarrow> AWSKMS \<Rightarrow> bytes \<Rightarrow> bytes result" where
  "aws_sign cl kms a msg =
     (if length msg < 1 \<or> length msg > 4096 then Inl (errors_New ''AWS RAW message size, want 1..4096 bytes'')
      else
     (case kms (aKeyARN a) msg of
        Inl e \<Rightarrow> Inl (Errorf ''AWS KMS sign'' [e])
      | Inr None \<Rightarrow> Inl (errors_New ''AWS sign response key ARN mismatch'')
      | Inr (Some resp) \<Rightarrow>
          if asKeyId resp \<noteq> aKeyARN a then Inl (errors_New ''AWS sign response key ARN mismatch'')
          else if asAlgorithm resp \<noteq> ED25519_SHA_512 then Inl (errors_New ''AWS sign response algorithm, want ED25519_SHA_512'')
          else if length (asSignature resp) \<noteq> 64 then Inl (errors_New ''AWS signature size'')
          else if \<not> verifySignature cl (aPub a) msg (asSignature resp)
          then Inl (errors_New ''AWS signature does not verify against pinned public key'')
          else Inr (asSignature resp)))"

definition awsPreflightMessage :: bytes where
  "awsPreflightMessage = ''cosmosigner/awskms preflight - not a consensus message''"

text \<open>The preflight signs twice; \<open>kms\<close> and \<open>kms'\<close> are KMS's answers at the two times.\<close>

definition aws_VerifyCanSign ::
  "crypto_lib \<Rightarrow> (string \<Rightarrow> bytes \<Rightarrow> aws_signature option result) \<Rightarrow> (string \<Rightarrow> bytes \<Rightarrow> aws_signature option result) \<Rightarrow> AWSKMS \<Rightarrow> go_error option" where
  "aws_VerifyCanSign cl kms kms' a =
     (case aws_sign cl kms a awsPreflightMessage of
        Inl e \<Rightarrow> Some (Errorf ''AWS key cannot sign preflight'' [e])
      | Inr sig1 \<Rightarrow>
     (case aws_sign cl kms' a awsPreflightMessage of
        Inl e \<Rightarrow> Some (Errorf ''AWS key cannot repeat preflight'' [e])
      | Inr sig2 \<Rightarrow> if sig1 \<noteq> sig2 then Some (errors_New ''AWS key produced non-deterministic Ed25519 signatures'') else None))"

subsection \<open>The tag\<close>

definition awsClusterIDTag :: string where
  "awsClusterIDTag = ''cosmosigner-cluster-id''"

definition awsConsistencyAttempts :: nat where
  "awsConsistencyAttempts = 8"

record tag_page =
  tpTags :: "(string \<times> string) list"
  tpTruncated :: bool
  tpNext :: string

text \<open>One page: the cluster tag found so far, or a refusal.\<close>

fun scan_tags :: "(string \<times> string) list \<Rightarrow> string option \<Rightarrow> string option result" where
  "scan_tags [] found = Inr found"
| "scan_tags ((k, v) # ts) found =
     (if k \<noteq> awsClusterIDTag then scan_tags ts found
      else if found \<noteq> None then Inl (Errorf ''duplicate AWS cluster tag'' [Sentinel ErrBindingCorrupt])
      else if Validate v \<noteq> None then Inl (Errorf ''AWS key cluster tag'' [Sentinel ErrBindingCorrupt])
      else scan_tags ts (Some v))"

text \<open>
  The listing over the answers of successive page requests. The call's deadline bounds the loop: when
  the answers end, the next request has failed with the context's error.
\<close>

fun list_tags :: "tag_page option result list \<Rightarrow> string list \<Rightarrow> string option \<Rightarrow> string result" where
  "list_tags [] seen found = Inl (Errorf ''list AWS key tags'' [Sentinel ErrBindingUnreadable, Sentinel ContextDeadlineExceeded])"
| "list_tags (Inl e # ps) seen found = Inl (Errorf ''list AWS key tags'' [Sentinel ErrBindingUnreadable, e])"
| "list_tags (Inr None # ps) seen found = Inl (Errorf ''empty AWS tags response'' [Sentinel ErrBindingUnreadable])"
| "list_tags (Inr (Some p) # ps) seen found =
     (case scan_tags (tpTags p) found of
        Inl e \<Rightarrow> Inl e
      | Inr found' \<Rightarrow>
          if \<not> tpTruncated p then
            (case found' of
               None \<Rightarrow> Inl (Errorf ''AWS key has no tag'' [Sentinel ErrBindingUnclaimed])
             | Some cid \<Rightarrow> Inr cid)
          else if tpNext p = [] \<or> tpNext p \<in> set seen
          then Inl (Errorf ''missing or repeated AWS tag pagination marker'' [Sentinel ErrBindingUnreadable])
          else list_tags ps (tpNext p # seen) found')"

definition aws_bindingResource :: "AWSKMS \<Rightarrow> string list" where
  "aws_bindingResource a = [aKeyARN a, awsClusterIDTag]"

definition aws_ClusterBinding :: "tag_page option result list \<Rightarrow> string result" where
  "aws_ClusterBinding pages = list_tags pages [] None"

text \<open>
  What a claim meets: the first listing, the effect of \<^verbatim>\<open>TagResource\<close> on the key's tags, and the
  rereads with the waits between them.
\<close>

type_synonym tags = "string \<rightharpoonup> string"

record aws_claim_env =
  awRead :: "tags \<Rightarrow> tag_page option result list"
  awTag :: "string \<Rightarrow> string \<Rightarrow> tags \<Rightarrow> tags \<times> go_error option"
  awReread :: "nat \<Rightarrow> tags \<Rightarrow> tag_page option result list"
  awWait :: "nat \<Rightarrow> go_error option"

function reread_claim :: "aws_claim_env \<Rightarrow> string \<Rightarrow> tags \<Rightarrow> nat \<Rightarrow> go_error option" where
  "reread_claim env cid s attempt =
     (case aws_ClusterBinding (awReread env attempt s) of
        Inr actual \<Rightarrow> requireClaimOwner cid actual
      | Inl e \<Rightarrow>
          if \<not> errors_is e ErrBindingUnclaimed then Some (Errorf ''reread AWS key after claim'' [e])
          else if attempt + 1 < awsConsistencyAttempts then
            (case awWait env attempt of
               Some e' \<Rightarrow> Some (Errorf ''wait for AWS cluster claim'' [e'])
             | None \<Rightarrow> reread_claim env cid s (attempt + 1))
          else Some (Errorf ''AWS cluster claim not visible'' [e]))"
  by pat_completeness auto
termination
  by (relation "measure (\<lambda>(_, _, _, attempt). awsConsistencyAttempts - attempt)") auto

definition aws_ClaimCluster :: "AWSKMS \<Rightarrow> aws_claim_env \<Rightarrow> string \<Rightarrow> tags \<Rightarrow> tags \<times> go_error option" where
  "aws_ClaimCluster a env cid s =
     (case Validate cid of
        Some e \<Rightarrow> (s, Some (Errorf ''invalid cluster ID'' [e]))
      | None \<Rightarrow>
     (case aws_ClusterBinding (awRead env s) of
        Inr actual \<Rightarrow> (s, requireClaimOwner cid actual)
      | Inl e \<Rightarrow>
          if \<not> errors_is e ErrBindingUnclaimed then (s, Some e)
          else
     (case awTag env (aKeyARN a) cid s of
        (s', Some e) \<Rightarrow> (s', Some (Errorf ''tag AWS key cluster claim'' [e]))
      | (s', None) \<Rightarrow> (s', reread_claim env cid s' 0))))"

subsection \<open>The tag is a claim registry\<close>

text \<open>
  Tags have no compare-and-set and reads may be stale. The hypotheses are the code's own conditions on
  its operator: claims follow one another, no listing shows a cluster tag the key does not have, and the
  first listing of a claim is complete, so that an earlier claim is visible to it. Errors of the SDK are
  not the package's own sentinel.
\<close>

definition aws_owner :: "tags \<Rightarrow> string option" where
  "aws_owner s = (case s awsClusterIDTag of Some cid \<Rightarrow> if Validate cid = None then Some cid else None | None \<Rightarrow> None)"

definition aws_truthful :: "(tags \<Rightarrow> tag_page option result list) \<Rightarrow> bool" where
  "aws_truthful f \<longleftrightarrow> (\<forall>s p v. Inr (Some p) \<in> set (f s) \<and> (awsClusterIDTag, v) \<in> set (tpTags p) \<longrightarrow> s awsClusterIDTag = Some v)"

definition complete_listing :: "tag_page option result list \<Rightarrow> tag_page list \<Rightarrow> bool" where
  "complete_listing answers pages \<longleftrightarrow>
     pages \<noteq> [] \<and> (\<forall>p\<in>set (butlast pages). tpTruncated p) \<and> \<not> tpTruncated (last pages) \<and>
     take (length pages) answers = map (\<lambda>p. Inr (Some p)) pages"

definition aws_fresh :: "(tags \<Rightarrow> tag_page option result list) \<Rightarrow> bool" where
  "aws_fresh f \<longleftrightarrow>
     (\<forall>s e. Inl e \<in> set (f s) \<longrightarrow> \<not> errors_is e ErrBindingUnclaimed) \<and>
     (\<forall>s v pages. s awsClusterIDTag = Some v \<and> complete_listing (f s) pages \<longrightarrow> (\<exists>p\<in>set pages. (awsClusterIDTag, v) \<in> set (tpTags p)))"

definition aws_fair :: "aws_claim_env \<Rightarrow> bool" where
  "aws_fair env \<longleftrightarrow> aws_truthful (awRead env) \<and> aws_fresh (awRead env) \<and> (\<forall>n. aws_truthful (awReread env n))"

lemma scan_tags_Some:
  "scan_tags ts found = Inr (Some c) \<Longrightarrow> found = Some c \<or> ((awsClusterIDTag, c) \<in> set ts \<and> valid_id c)"
  by (induction ts found rule: scan_tags.induct) (auto split: if_splits)

lemma scan_tags_None: "scan_tags ts found = Inr None \<Longrightarrow> found = None \<and> (\<forall>v. (awsClusterIDTag, v) \<notin> set ts)"
  by (induction ts found rule: scan_tags.induct) (auto split: if_splits)

lemma scan_tags_Inl: "scan_tags ts found = Inl e \<Longrightarrow> \<not> errors_is e ErrBindingUnclaimed"
  by (induction ts found rule: scan_tags.induct) (auto split: if_splits)

lemma list_tags_Inr:
  "list_tags ps seen found = Inr c \<Longrightarrow>
   found = Some c \<or> (\<exists>p. Inr (Some p) \<in> set ps \<and> (awsClusterIDTag, c) \<in> set (tpTags p) \<and> valid_id c)"
proof (induction ps seen found rule: list_tags.induct)
  case (4 p ps seen found)
  then obtain f' where f: "scan_tags (tpTags p) found = Inr f'" by (auto split: sum.splits)
  have "f' = Some c \<or> (\<exists>q. Inr (Some q) \<in> set ps \<and> (awsClusterIDTag, c) \<in> set (tpTags q) \<and> valid_id c)"
    using 4(1) [OF f] 4(2) f by (auto split: if_splits option.splits)
  with scan_tags_Some [of "tpTags p" found c] f show ?case by auto
qed auto

lemma scan_tags_keeps: "scan_tags ts (Some c) = Inr f \<Longrightarrow> f \<noteq> None"
  using scan_tags_None [of ts "Some c"] by auto

lemma list_tags_found:
  "found \<noteq> None \<Longrightarrow> list_tags ps seen found = Inl e \<Longrightarrow> (\<And>e. Inl e \<in> set ps \<Longrightarrow> \<not> errors_is e ErrBindingUnclaimed) \<Longrightarrow>
   \<not> errors_is e ErrBindingUnclaimed"
proof (induction ps seen found rule: list_tags.induct)
  case (4 p ps seen found)
  show ?case
  proof (cases "scan_tags (tpTags p) found")
    case (Inl e')
    with 4(3) scan_tags_Inl show ?thesis by auto
  next
    case (Inr f')
    have "f' \<noteq> None" using 4(2) Inr scan_tags_keeps by auto
    with 4 Inr show ?thesis by (auto split: if_splits option.splits)
  qed
qed auto

lemma complete_listing_single: "\<not> tpTruncated p \<Longrightarrow> complete_listing (Inr (Some p) # ps) [p]"
  by (simp add: complete_listing_def)

lemma complete_listing_Cons: "complete_listing ps qs \<Longrightarrow> tpTruncated p \<Longrightarrow> complete_listing (Inr (Some p) # ps) (p # qs)"
  by (auto simp: complete_listing_def)

lemma list_tags_unclaimed:
  assumes "\<And>e. Inl e \<in> set ps \<Longrightarrow> \<not> errors_is e ErrBindingUnclaimed"
  shows "list_tags ps seen found = Inl e \<Longrightarrow> errors_is e ErrBindingUnclaimed \<Longrightarrow>
   \<exists>qs. complete_listing ps qs \<and> (\<forall>q\<in>set qs. \<forall>v. (awsClusterIDTag, v) \<notin> set (tpTags q))"
  using assms
proof (induction ps seen found rule: list_tags.induct)
  case (4 p ps seen found)
  then obtain f' where f: "scan_tags (tpTags p) found = Inr f'" using scan_tags_Inl by (auto split: sum.splits)
  show ?case
  proof (cases "tpTruncated p")
    case False
    with 4(2,3) f have "f' = None" by (auto split: option.splits)
    with scan_tags_None f False show ?thesis by (intro exI [of _ "[p]"]) (auto simp: complete_listing_single)
  next
    case True
    with 4(2,3) f have l: "list_tags ps (tpNext p # seen) f' = Inl e" "\<not> (tpNext p = [] \<or> tpNext p \<in> set seen)" by (auto split: if_splits)
    have n: "\<not> \<not> tpTruncated p" using True by simp
    from 4(1) [OF f n l(2) l(1) 4(3)] 4(4) obtain qs where qs: "complete_listing ps qs" "\<forall>q\<in>set qs. \<forall>v. (awsClusterIDTag, v) \<notin> set (tpTags q)"
      by auto
    have "f' = None"
    proof (rule ccontr)
      assume "f' \<noteq> None"
      then have "list_tags ps (tpNext p # seen) f' = Inl e \<Longrightarrow> False" using list_tags_found [of f' ps "tpNext p # seen" e] 4(3,4) by auto
      with l(1) show False by simp
    qed
    with scan_tags_None f qs True show ?thesis by (intro exI [of _ "p # qs"]) (auto simp: complete_listing_Cons)
  qed
qed auto

lemma aws_binding_owner:
  assumes "aws_truthful f" "aws_ClusterBinding (f s) = Inr cid"
  shows "aws_owner s = Some cid"
proof -
  from list_tags_Inr [of "f s" "[]" None cid] assms(2) obtain p where "Inr (Some p) \<in> set (f s)" "(awsClusterIDTag, cid) \<in> set (tpTags p)" "valid_id cid"
    by (auto simp: aws_ClusterBinding_def)
  then have "s awsClusterIDTag = Some cid" "valid_id cid" using assms(1) unfolding aws_truthful_def by blast+
  then show ?thesis by (simp add: aws_owner_def)
qed

lemma aws_fresh_unclaimed:
  assumes "aws_fresh f" "aws_ClusterBinding (f s) = Inl e" "errors_is e ErrBindingUnclaimed"
  shows "s awsClusterIDTag = None"
proof (rule ccontr)
  assume "s awsClusterIDTag \<noteq> None"
  then obtain v where v: "s awsClusterIDTag = Some v" by blast
  have "\<exists>qs. complete_listing (f s) qs \<and> (\<forall>q\<in>set qs. \<forall>v. (awsClusterIDTag, v) \<notin> set (tpTags q))"
    using assms list_tags_unclaimed [of "f s" "[]" None e] by (auto simp: aws_ClusterBinding_def aws_fresh_def)
  with v assms(1) show False unfolding aws_fresh_def by blast
qed

lemma reread_claim_ok: "reread_claim env cid s n = None \<Longrightarrow> \<exists>m. aws_ClusterBinding (awReread env m s) = Inr cid"
proof (induction env cid s n rule: reread_claim.induct)
  case (1 env cid s n)
  show ?case
  proof (cases "aws_ClusterBinding (awReread env n s)")
    case (Inl e)
    with 1(2) have "errors_is e ErrBindingUnclaimed" "n + 1 < awsConsistencyAttempts" "awWait env n = None" "reread_claim env cid s (n + 1) = None"
      by (auto simp: reread_claim.simps [of env cid s n] simp del: reread_claim.simps split: if_splits option.splits)
    with 1(1) Inl show ?thesis by (auto simp del: reread_claim.simps)
  next
    case (Inr actual)
    with 1(2) have "actual = cid" by (simp add: reread_claim.simps [of env cid s n] del: reread_claim.simps)
    with Inr show ?thesis by blast
  qed
qed

lemma aws_claim_cases:
  assumes "aws_ClaimCluster a env cid s = (s', r)"
  obtains (kept) "s' = s" "r = None \<longrightarrow> aws_ClusterBinding (awRead env s) = Inr cid"
  | (tagged) e te where "aws_ClusterBinding (awRead env s) = Inl e" "errors_is e ErrBindingUnclaimed" "awTag env (aKeyARN a) cid s = (s', te)"
      "r = None \<longrightarrow> te = None \<and> reread_claim env cid s' 0 = None"
  using assms by (auto simp: aws_ClaimCluster_def simp del: reread_claim.simps split: option.splits sum.splits if_splits prod.splits)

interpretation aws_registry: claim_registry aws_owner "\<lambda>f s. aws_ClusterBinding (f s)"
  "\<lambda>env cid s. Some (aws_ClaimCluster a env cid s)" aws_truthful aws_fair
  for a
proof
  show "aws_owner s = Some cid" if "aws_truthful f" "aws_ClusterBinding (f s) = Inr cid" for f s cid
    by (rule aws_binding_owner [OF that])
next
  fix env s cid i s' r
  assume f: "aws_fair env" and o: "aws_owner s = Some cid" and "Some (aws_ClaimCluster a env i s) = Some (s', r)"
  then have "aws_ClaimCluster a env i s = (s', r)" by simp
  then show "aws_owner s' = Some cid"
  proof (cases rule: aws_claim_cases)
    case kept
    with o show ?thesis by simp
  next
    case (tagged e te)
    with f aws_fresh_unclaimed [of "awRead env" s e] o show ?thesis by (simp add: aws_fair_def aws_owner_def)
  qed
next
  fix env i s s'
  assume f: "aws_fair env" and "Some (aws_ClaimCluster a env i s) = Some (s', None)"
  then have "aws_ClaimCluster a env i s = (s', None)" by simp
  then show "aws_owner s' = Some i"
  proof (cases rule: aws_claim_cases)
    case kept
    with f aws_binding_owner show ?thesis by (auto simp: aws_fair_def)
  next
    case (tagged e te)
    with reread_claim_ok [of env i s' 0] aws_binding_owner f show ?thesis by (auto simp: aws_fair_def simp del: reread_claim.simps)
  qed
qed

text \<open>An AWS KMS that answers at once from the tags it holds satisfies the hypotheses, and its claim succeeds.\<close>

definition honest_listing :: "tags \<Rightarrow> tag_page option result list" where
  "honest_listing s =
     [Inr (Some \<lparr>tpTags = (case s awsClusterIDTag of Some v \<Rightarrow> [(awsClusterIDTag, v)] | None \<Rightarrow> []), tpTruncated = False, tpNext = []\<rparr>)]"

definition honest_aws :: aws_claim_env where
  "honest_aws = \<lparr>awRead = honest_listing, awTag = (\<lambda>_ v s. (s(awsClusterIDTag \<mapsto> v), None)), awReread = (\<lambda>_. honest_listing), awWait = (\<lambda>_. None)\<rparr>"

lemma honest_listing_truthful: "aws_truthful honest_listing"
  by (auto simp: aws_truthful_def honest_listing_def split: option.splits)

lemma honest_listing_fresh: "aws_fresh honest_listing"
proof -
  have "pages = [p]" if "complete_listing [Inr (Some p)] pages" for p pages
    using that by (cases pages) (auto simp: complete_listing_def take_Cons split: nat.splits)
  then show ?thesis unfolding aws_fresh_def honest_listing_def by fastforce
qed

lemma honest_aws_fair [simp]: "aws_fair honest_aws"
  by (simp add: aws_fair_def honest_aws_def honest_listing_truthful honest_listing_fresh)

lemma honest_aws_claim:
  assumes "valid_id cid" "s awsClusterIDTag = None"
  shows "aws_ClaimCluster a honest_aws cid s = (s(awsClusterIDTag \<mapsto> cid), None)"
  using assms by (simp add: aws_ClaimCluster_def honest_aws_def honest_listing_def aws_ClusterBinding_def)

subsection \<open>Properties\<close>

lemma checkAWSKeyARN_ok:
  assumes "checkAWSKeyARN parse arn = None"
  shows "\<exists>a keyID. parse arn = Inr a \<and> arnService a = ''kms'' \<and> length (arnAccountID a) = 12 \<and> list_all is_digit (arnAccountID a) \<and>
    arnResource a = ''key/'' @ keyID \<and> keyID \<noteq> [] \<and> CHR ''/'' \<notin> set keyID \<and> \<not> HasPrefix keyID ''mrk-''"
proof -
  from assms obtain a where a: "parse arn = Inr a" by (auto simp: checkAWSKeyARN_def split: sum.splits)
  let ?id = "drop (length key_prefix) (arnResource a)"
  have c: "arnService a = ''kms''" "length (arnAccountID a) = 12" "HasPrefix (arnResource a) key_prefix" "\<not> list_ex (\<lambda>c. \<not> is_digit c) (arnAccountID a)"
      "?id \<noteq> []" "\<not> list_ex (\<lambda>c. c \<in> {CHR ''/'', CHR '' '', CHR 0x09, CHR 0x0D, CHR 0x0A}) ?id" "\<not> HasPrefix ?id ''mrk-''"
    using assms a unfolding checkAWSKeyARN_def Let_def by auto
  have "arnResource a = ''key/'' @ ?id" using c(3) by (metis HasPrefix_def append_take_drop_id key_prefix_def)
  moreover have "CHR ''/'' \<notin> set ?id" using c(6) by (auto simp: list_ex_iff)
  moreover have "list_all is_digit (arnAccountID a)" using c(4) by (auto simp: list_ex_iff list_all_iff)
  ultimately show ?thesis using a c(1,2,5,7) by blast
qed

text \<open>
  C35: an AWS signature is verified under the pinned key before it leaves the backend. A constructed
  backend pins the ARN of a single-Region key of the requested identity (the ARN itself when an ARN of
  a key was configured) and its 32-byte ed25519 public key; whatever KMS answers later, a returned
  signature has 64 bytes, was answered for the pinned ARN and verifies for the message under the pinned
  key, and no message outside 1 to 4096 bytes is signed; a preflight that passes has seen two equal
  signatures.
\<close>
theorem aws_signature_verifies:
  assumes "NewAWSKMS cl env cfg = Inr a"
  shows "length (aPub a) = 32 \<and> checkAWSKeyARN (anParse env) (aKeyARN a) = None \<and> 0 < aTimeout a \<and>
    (\<exists>r keyID. anParse env (aKeyARN a) = Inr r \<and> arnResource r = ''key/'' @ keyID \<and> CHR ''/'' \<notin> set keyID \<and> \<not> HasPrefix keyID ''mrk-'' \<and>
       (\<not> HasPrefix (acKeyID cfg) ''arn:'' \<and> \<not> HasPrefix (acKeyID cfg) ''alias/'' \<longrightarrow> keyID = acKeyID cfg)) \<and>
    (\<forall>r. HasPrefix (acKeyID cfg) ''arn:'' \<and> anParse env (acKeyID cfg) = Inr r \<and> \<not> HasPrefix (arnResource r) ''alias/'' \<longrightarrow> aKeyARN a = acKeyID cfg) \<and>
    (\<forall>kms msg sig. aws_sign cl kms a msg = Inr sig \<longrightarrow>
       length sig = 64 \<and> 1 \<le> length msg \<and> length msg \<le> 4096 \<and> verifySignature cl (aPub a) msg sig \<and>
       (\<exists>resp. kms (aKeyARN a) msg = Inr (Some resp) \<and> asKeyId resp = aKeyARN a \<and> asSignature resp = sig)) \<and>
    (\<forall>kms kms'. aws_VerifyCanSign cl kms kms' a = None \<longrightarrow>
       (\<exists>sig. aws_sign cl kms a awsPreflightMessage = Inr sig \<and> aws_sign cl kms' a awsPreflightMessage = Inr sig))"
proof -
  from assms obtain resp where r: "anPublicKey env (acKeyID cfg) = Inr (Some resp)" "checkAWSKeyIdentity (anParse env) (acKeyID cfg) (apKeyId resp) = None"
      "parseAWSPublicKey cl resp = Inr (aPub a)" "aKeyARN a = apKeyId resp" "aTimeout a = awsTimeout cfg" "acKeyID cfg \<noteq> []"
    by (auto simp: NewAWSKMS_def split: if_splits sum.splits option.splits)
  have p: "length (aPub a) = 32" using r(3) by (auto simp: parseAWSPublicKey_def split: if_splits sum.splits pkix_key.splits)
  have arn: "checkAWSKeyARN (anParse env) (aKeyARN a) = None" using r(2,4) by (auto simp: checkAWSKeyIdentity_def split: option.splits)
  from checkAWSKeyARN_ok [OF arn] obtain x keyID where k: "anParse env (aKeyARN a) = Inr x" "arnResource x = ''key/'' @ keyID"
      "CHR ''/'' \<notin> set keyID" "\<not> HasPrefix keyID ''mrk-''" by blast
  have "keyID = acKeyID cfg" if "\<not> HasPrefix (acKeyID cfg) ''arn:''" "\<not> HasPrefix (acKeyID cfg) ''alias/''"
    using r(2,4,6) k(1,2) that by (auto simp: checkAWSKeyIdentity_def split: option.splits)
  then have res: "\<exists>r keyID. anParse env (aKeyARN a) = Inr r \<and> arnResource r = ''key/'' @ keyID \<and> CHR ''/'' \<notin> set keyID \<and> \<not> HasPrefix keyID ''mrk-'' \<and>
       (\<not> HasPrefix (acKeyID cfg) ''arn:'' \<and> \<not> HasPrefix (acKeyID cfg) ''alias/'' \<longrightarrow> keyID = acKeyID cfg)"
    using k by blast
  have same: "aKeyARN a = acKeyID cfg"
    if "HasPrefix (acKeyID cfg) ''arn:''" "anParse env (acKeyID cfg) = Inr y" "\<not> HasPrefix (arnResource y) ''alias/''" for y
    using r(2,4) that by (auto simp: checkAWSKeyIdentity_def split: option.splits)
  have s: "length sig = 64 \<and> 1 \<le> length msg \<and> length msg \<le> 4096 \<and> verifySignature cl (aPub a) msg sig \<and>
       (\<exists>resp. kms (aKeyARN a) msg = Inr (Some resp) \<and> asKeyId resp = aKeyARN a \<and> asSignature resp = sig)" if "aws_sign cl kms a msg = Inr sig" for kms msg sig
    using that by (auto simp: aws_sign_def Suc_le_eq split: sum.splits option.splits if_splits)
  have v: "\<exists>sig. aws_sign cl kms a awsPreflightMessage = Inr sig \<and> aws_sign cl kms' a awsPreflightMessage = Inr sig"
    if "aws_VerifyCanSign cl kms kms' a = None" for kms kms'
    using that by (auto simp: aws_VerifyCanSign_def split: sum.splits if_splits)
  have "0 < aTimeout a" using r(5) by (simp add: awsTimeout_def second_def)
  with p arn res same s v show ?thesis by blast
qed

definition ex_aws_crypto :: crypto_lib where
  "ex_aws_crypto = \<lparr>pemDecode = Some, parsePKIX = (\<lambda>b. Inr (Ed25519Pub b)), parsePKCS8 = (\<lambda>b. Inr (Ed25519Private b)), ed25519Public = (\<lambda>b. b),
     encryptOAEP = (\<lambda>k m. Inr m), newKWP = (\<lambda>_. None), kwpWrap = (\<lambda>k m. Inr m), verifySignature = (\<lambda>_ _ _. True)\<rparr>"

definition ex_arn :: arn_parser where
  "ex_arn s = Inr \<lparr>arnPartition = ''aws'', arnService = ''kms'', arnRegion = ''eu-west-1'', arnAccountID = ''123456789012'', arnResource = ''key/k1''\<rparr>"

definition ex_aws_env :: aws_new_env where
  "ex_aws_env = \<lparr>anLoad = None, anPublicKey = (\<lambda>_. Inr (Some \<lparr>apKeyId = ''arn:aws:kms:eu-west-1:123456789012:key/k1'', apSpec = ECC_NIST_EDWARDS25519,
     apUsage = SIGN_VERIFY, apAlgorithms = [ED25519_SHA_512], apPublicKey = replicate 32 (CHR ''p'')\<rparr>)), anParse = ex_arn\<rparr>"

definition ex_aws_config :: AWSKMSConfig where
  "ex_aws_config = \<lparr>acKeyID = ''k1'', acRegion = [], acClaimRoleARN = [], assumeRoleARN = [], acTimeout = 0\<rparr>"

theorem aws_signature_verifies_witness:
  "\<exists>a. NewAWSKMS ex_aws_crypto ex_aws_env ex_aws_config = Inr a \<and> length (aPub a) = 32 \<and> aKeyARN a = ''arn:aws:kms:eu-west-1:123456789012:key/k1''"
proof -
  have "checkAWSKeyARN ex_arn ''arn:aws:kms:eu-west-1:123456789012:key/k1'' = None"
    by (simp add: checkAWSKeyARN_def ex_arn_def key_prefix_def HasPrefix_def is_digit_def digit_val_def Let_def)
  then have "checkAWSKeyIdentity ex_arn ''k1'' ''arn:aws:kms:eu-west-1:123456789012:key/k1'' = None"
    by (simp add: checkAWSKeyIdentity_def HasPrefix_def) (simp add: ex_arn_def)
  then obtain a where a: "NewAWSKMS ex_aws_crypto ex_aws_env ex_aws_config = Inr a" "aKeyARN a = ''arn:aws:kms:eu-west-1:123456789012:key/k1''"
    by (simp add: NewAWSKMS_def ex_aws_env_def ex_aws_config_def newAWSClient_def parseAWSPublicKey_def ex_aws_crypto_def)
  with aws_signature_verifies [OF a(1)] show ?thesis by blast
qed

end
