(* ===== verification/KeyBackend.thy ===== *)
theory KeyBackend
  imports Start Pkcs11Native Vault GcpKms AwsKms
begin

section \<open>The backends behind one interface (internal/backend/backend.go)\<close>

text \<open>
  The \<^verbatim>\<open>KeyBackend\<close> interface value as a datatype with one constructor per implementation, the factory
  \<^verbatim>\<open>New\<close>, and the dynamic dispatch of \<^verbatim>\<open>PubKey\<close>, \<^verbatim>\<open>ClusterBinding\<close> and \<^verbatim>\<open>ClaimCluster\<close>. The world a claim acts on
  has one part per provider: the file system with the markers, the Vault record, the Cloud KMS
  labels and the AWS KMS tags. The dispatch is itself a claim registry, by the registries of the
  providers.
\<close>

subsection \<open>Building a backend\<close>

datatype KeyBackend =
    SoftwareBackend Software
  | VaultBackend Vault
  | GCPBackend GCPKMS
  | AWSBackend AWSKMS
  | PKCS11Backend string PKCS11

text \<open>\<^verbatim>\<open>NewPKCS11\<close> of a build without the module (pkcs11_stub.go) and of one with it (pkcs11_cgo.go).\<close>

definition NewPKCS11_stub :: "PKCS11Config \<Rightarrow> (string \<times> PKCS11) result" where
  "NewPKCS11_stub cfg = Inl (errors_New ''this binary was built without PKCS#11 support; rebuild with CGO_ENABLED=1 and -tags pkcs11'')"

record p11_build =
  pbAcquire :: acquire_env
  pbPaths :: path_env
  pbOpen :: open_answers
  pbClose :: "p11_error option"
  pbFinalize :: "go_error option"

definition NewPKCS11 :: "p11_build \<Rightarrow> PKCS11Config \<Rightarrow> registry \<Rightarrow> registry \<times> (string \<times> PKCS11) result" where
  "NewPKCS11 env cfg rg =
     (case ValidatePKCS11Config cfg of
        Some e \<Rightarrow> (rg, Inl e)
      | None \<Rightarrow>
     (case acquirePKCS11Module (pbAcquire env) rg of
        (rg1, _, Inl e) \<Rightarrow> (rg1, Inl e)
      | (rg1, _, Inr module) \<Rightarrow>
          let (rg2, _, releaseErr) = releasePKCS11Module module (pbFinalize env) rg1 in
          (case newPKCS11 (pbPaths env) (pbOpen env) (pbClose env) releaseErr cfg of
             (b, Inl e) \<Rightarrow> (rg2, Inl e)
           | (b, Inr path) \<Rightarrow> (rg1, Inr (path, b)))))"

text \<open>A process starts with no module loaded.\<close>

definition no_modules :: registry where
  "no_modules = \<lparr>rgEntries = Map.empty, rgFiles = []\<rparr>"

record new_env =
  neKeys :: key_lib
  neCrypto :: crypto_lib
  nePaths :: path_env
  neKeyFile :: keyfile_env
  neVaultClient :: client_env
  neVault :: vault_server
  neGCP :: gcp_new_env
  neAWS :: aws_new_env
  nePKCS11 :: "p11_build option"

definition backend_New :: "new_env \<Rightarrow> fs \<Rightarrow> BackendConfig \<Rightarrow> registry \<Rightarrow> registry \<times> KeyBackend result" where
  "backend_New env fs cfg rg =
     (if bType cfg = TypeSoftware \<or> bType cfg = [] then
        (rg, map_sum (\<lambda>e. e) SoftwareBackend
           (NewSoftwareWithBindingFile (neKeys env) (nePaths env) (neKeyFile env) fs (bSoftwareKeyFile cfg) (bSoftwareBindingFile cfg)))
      else if bType cfg = TypeVault then
        (rg, map_sum (\<lambda>e. e) VaultBackend (NewVault (neVaultClient env) (neVault env) (bVault cfg)))
      else if bType cfg = TypeGCPKMS then
        (rg, map_sum (\<lambda>e. e) GCPBackend (NewGCPKMS (neCrypto env) (neGCP env) (bGCPKMS cfg)))
      else if bType cfg = TypeAWSKMS then
        (rg, map_sum (\<lambda>e. e) AWSBackend (NewAWSKMS (neCrypto env) (neAWS env) (bAWSKMS cfg)))
      else if bType cfg = TypePKCS11 then
        (let (rg', r) = (case nePKCS11 env of
               None \<Rightarrow> (rg, NewPKCS11_stub (bPKCS11 cfg))
             | Some build \<Rightarrow> NewPKCS11 build (bPKCS11 cfg) rg)
         in (rg', map_sum (\<lambda>e. e) (case_prod PKCS11Backend) r))
      else (rg, Inl (errors_New ''unknown backend type'')))"

subsection \<open>Dispatch\<close>

definition backend_PubKey :: "key_lib \<Rightarrow> KeyBackend \<Rightarrow> bytes result" where
  "backend_PubKey kl b =
     (case b of
        SoftwareBackend s \<Rightarrow> Inr (pub_bytes kl (swPriv s))
      | VaultBackend v \<Rightarrow> Inr (vPub v)
      | GCPBackend g \<Rightarrow> Inr (gPub g)
      | AWSBackend a \<Rightarrow> Inr (aPub a)
      | PKCS11Backend path p \<Rightarrow> Inr (case pPub p of Some k \<Rightarrow> k | None \<Rightarrow> []))"

record world =
  wFiles :: fs
  wRecord :: "anymap option"
  wLabels :: labels
  wTags :: tags

record binding_env =
  biFile :: read_env
  biVault :: "anymap option \<Rightarrow> kv_answers"
  biGCP :: "labels \<Rightarrow> gcp_key option result"
  biAWS :: "tags \<Rightarrow> tag_page option result list"

definition backend_ClusterBinding :: "key_lib \<Rightarrow> KeyBackend \<Rightarrow> binding_env \<Rightarrow> world \<Rightarrow> string result" where
  "backend_ClusterBinding kl b env w =
     (case b of
        SoftwareBackend s \<Rightarrow> Software_ClusterBinding kl s (biFile env) (wFiles w)
      | VaultBackend v \<Rightarrow> Vault_ClusterBinding v (biVault env (wRecord w))
      | GCPBackend g \<Rightarrow> gcp_ClusterBinding g (biGCP env (wLabels w))
      | AWSBackend a \<Rightarrow> aws_ClusterBinding (biAWS env (wTags w))
      | PKCS11Backend path p \<Rightarrow> p11_ClusterBinding path p (biFile env) (wFiles w))"

record claiming_env =
  cgKeyFile :: keyfile_env
  cgFile :: claim_env
  cgVault :: "anymap option kv_env"
  cgGCP :: gcp_claim_env
  cgAWS :: aws_claim_env
  cgOpen :: open_answers
  cgKeys :: open_answers
  cgCtx :: "go_error option"

definition backend_ClaimCluster ::
  "key_lib \<Rightarrow> (bytes \<Rightarrow> bytes) \<Rightarrow> claiming_env \<Rightarrow> string \<Rightarrow> KeyBackend \<times> world \<Rightarrow> ((KeyBackend \<times> world) \<times> go_error option) option" where
  "backend_ClaimCluster kl sha256 env cid st =
     (case st of (b, w) \<Rightarrow> case b of
        SoftwareBackend s \<Rightarrow>
          map_option (\<lambda>(fs, r). ((b, w\<lparr>wFiles := fs\<rparr>), r)) (Software_ClaimCluster kl s (cgKeyFile env) (cgFile env) cid (wFiles w))
      | VaultBackend v \<Rightarrow>
          (case Vault_ClaimCluster sha256 v (cgVault env) cid (wRecord w) of (s, r) \<Rightarrow> Some ((b, w\<lparr>wRecord := s\<rparr>), r))
      | GCPBackend g \<Rightarrow> (case gcp_ClaimCluster g (cgGCP env) cid (wLabels w) of (s, r) \<Rightarrow> Some ((b, w\<lparr>wLabels := s\<rparr>), r))
      | AWSBackend a \<Rightarrow> (case aws_ClaimCluster a (cgAWS env) cid (wTags w) of (s, r) \<Rightarrow> Some ((b, w\<lparr>wTags := s\<rparr>), r))
      | PKCS11Backend path p \<Rightarrow>
          map_option (\<lambda>((p', fs), r). ((PKCS11Backend path p', w\<lparr>wFiles := fs\<rparr>), r))
            (p11_ClaimCluster (cgOpen env) (cgKeys env) (cgCtx env) path (cgFile env) cid (p, wFiles w)))"

subsection \<open>The dispatch is a claim registry\<close>

text \<open>The claim a backend's resource carries, and the providers' hypotheses for it.\<close>

definition backend_owner :: "key_lib \<Rightarrow> KeyBackend \<Rightarrow> world \<Rightarrow> string option" where
  "backend_owner kl b w =
     (case b of
        SoftwareBackend s \<Rightarrow> file_owner (sw_fileBinding kl s) (wFiles w)
      | VaultBackend v \<Rightarrow> vault_owner v (wRecord w)
      | GCPBackend g \<Rightarrow> gcp_owner (wLabels w)
      | AWSBackend a \<Rightarrow> aws_owner (wTags w)
      | PKCS11Backend path p \<Rightarrow> file_owner (p11_fileBinding path p) (wFiles w))"

definition backend_truthful :: "KeyBackend \<Rightarrow> binding_env \<Rightarrow> bool" where
  "backend_truthful b env \<longleftrightarrow>
     (case b of
        VaultBackend v \<Rightarrow> kv_truthful (biVault env)
      | GCPBackend g \<Rightarrow> gcp_truthful (biGCP env)
      | AWSBackend a \<Rightarrow> aws_truthful (biAWS env)
      | _ \<Rightarrow> True)"

definition backend_fair :: "key_lib \<Rightarrow> KeyBackend \<Rightarrow> claiming_env \<Rightarrow> bool" where
  "backend_fair kl b env \<longleftrightarrow>
     (case b of
        SoftwareBackend s \<Rightarrow> wf_binding (sw_fileBinding kl s) \<and> fair_env (sw_fileBinding kl s) (cgFile env)
      | VaultBackend v \<Rightarrow> kv_fair (cgVault env)
      | GCPBackend g \<Rightarrow> gcp_fair (cgGCP env)
      | AWSBackend a \<Rightarrow> aws_fair (cgAWS env)
      | PKCS11Backend path p \<Rightarrow> wf_binding (p11_fileBinding path p) \<and> fair_env (p11_fileBinding path p) (cgFile env))"

definition claim_world ::
  "key_lib \<Rightarrow> (bytes \<Rightarrow> bytes) \<Rightarrow> KeyBackend \<Rightarrow> claiming_env \<Rightarrow> string \<Rightarrow> world \<Rightarrow> (world \<times> go_error option) option" where
  "claim_world kl sha256 b env cid w = map_option (\<lambda>((_, w'), r). (w', r)) (backend_ClaimCluster kl sha256 env cid (b, w))"

lemma p11_claim_is_file_claim:
  "p11_ClaimCluster ao ak ce path env cid (p, fs) = Some ((p', fs'), r) \<Longrightarrow> \<exists>pre. fb_claim (p11_fileBinding path p) pre env cid fs = Some (fs', r)"
  by (auto simp: p11_ClaimCluster_def Let_def split: prod.splits)

lemma Software_claim_cases:
  assumes "Software_ClaimCluster kl s kf env cid fs = Some (fs', r)"
  obtains (memory) "fs' = fs" "r \<noteq> None" | (claim) "fb_claim (sw_fileBinding kl s) (key_unchanged kl s kf) env cid fs = Some (fs', r)"
  using assms by (auto simp: Software_ClaimCluster_def split: if_splits)

text \<open>What one dispatched claim does to the resource, provider by provider.\<close>

lemma claim_world_keeps:
  assumes "backend_fair kl b env" "backend_owner kl b w = Some cid" "claim_world kl sha b env i w = Some (w', r)"
  shows "backend_owner kl b w' = Some cid"
proof (cases b)
  case (SoftwareBackend s)
  then obtain fs where c: "Software_ClaimCluster kl s (cgKeyFile env) (cgFile env) i (wFiles w) = Some (fs, r)" "w' = w\<lparr>wFiles := fs\<rparr>"
    using assms(3) by (auto simp: claim_world_def backend_ClaimCluster_def)
  from c(1) have "file_owner (sw_fileBinding kl s) fs = Some cid"
    by (cases rule: Software_claim_cases)
      (use assms(1,2) SoftwareBackend file_registry.claim_keeps_owner [of "sw_fileBinding kl s" "cgFile env" "wFiles w" cid "key_unchanged kl s (cgKeyFile env)" i fs r]
        in \<open>auto simp: backend_fair_def backend_owner_def\<close>)
  with c SoftwareBackend show ?thesis by (simp add: backend_owner_def)
next
  case (VaultBackend v)
  with assms show ?thesis using vault_registry.claim_keeps_owner [of "cgVault env" v "wRecord w" cid sha i]
    by (auto simp: claim_world_def backend_ClaimCluster_def backend_fair_def backend_owner_def split: prod.splits)
next
  case (GCPBackend g)
  with assms show ?thesis using gcp_registry.claim_keeps_owner [of "cgGCP env" "wLabels w" cid g i]
    by (auto simp: claim_world_def backend_ClaimCluster_def backend_fair_def backend_owner_def split: prod.splits)
next
  case (AWSBackend a)
  with assms show ?thesis using aws_registry.claim_keeps_owner [of "cgAWS env" "wTags w" cid a i]
    by (auto simp: claim_world_def backend_ClaimCluster_def backend_fair_def backend_owner_def split: prod.splits)
next
  case (PKCS11Backend path p)
  then obtain p' fs where c: "p11_ClaimCluster (cgOpen env) (cgKeys env) (cgCtx env) path (cgFile env) i (p, wFiles w) = Some ((p', fs), r)"
      "w' = w\<lparr>wFiles := fs\<rparr>"
    using assms(3) by (auto simp: claim_world_def backend_ClaimCluster_def)
  from p11_claim_is_file_claim [OF c(1)] obtain pre where
    "fb_claim (p11_fileBinding path p) pre (cgFile env) i (wFiles w) = Some (fs, r)" by blast
  with file_registry.claim_keeps_owner [of "p11_fileBinding path p" "cgFile env" "wFiles w" cid pre i fs r] assms(1,2) c(2) PKCS11Backend show ?thesis
    by (auto simp: backend_fair_def backend_owner_def)
qed

lemma claim_world_owns:
  assumes "backend_fair kl b env" "claim_world kl sha b env i w = Some (w', None)"
  shows "backend_owner kl b w' = Some i"
proof (cases b)
  case (SoftwareBackend s)
  then obtain fs where c: "Software_ClaimCluster kl s (cgKeyFile env) (cgFile env) i (wFiles w) = Some (fs, None)" "w' = w\<lparr>wFiles := fs\<rparr>"
    using assms(2) by (auto simp: claim_world_def backend_ClaimCluster_def)
  from c(1) have "file_owner (sw_fileBinding kl s) fs = Some i"
    by (cases rule: Software_claim_cases)
      (use assms(1) SoftwareBackend file_registry.claim_owns [of "sw_fileBinding kl s" "cgFile env" "key_unchanged kl s (cgKeyFile env)" i "wFiles w" fs]
        in \<open>auto simp: backend_fair_def\<close>)
  with c SoftwareBackend show ?thesis by (simp add: backend_owner_def)
next
  case (VaultBackend v)
  with assms show ?thesis using vault_registry.claim_owns [of "cgVault env" sha v i "wRecord w"]
    by (auto simp: claim_world_def backend_ClaimCluster_def backend_fair_def backend_owner_def split: prod.splits)
next
  case (GCPBackend g)
  with assms show ?thesis using gcp_registry.claim_owns [of "cgGCP env" g i "wLabels w"]
    by (auto simp: claim_world_def backend_ClaimCluster_def backend_fair_def backend_owner_def split: prod.splits)
next
  case (AWSBackend a)
  with assms show ?thesis using aws_registry.claim_owns [of "cgAWS env" a i "wTags w"]
    by (auto simp: claim_world_def backend_ClaimCluster_def backend_fair_def backend_owner_def split: prod.splits)
next
  case (PKCS11Backend path p)
  then obtain p' fs where c: "p11_ClaimCluster (cgOpen env) (cgKeys env) (cgCtx env) path (cgFile env) i (p, wFiles w) = Some ((p', fs), None)"
      "w' = w\<lparr>wFiles := fs\<rparr>"
    using assms(2) by (auto simp: claim_world_def backend_ClaimCluster_def)
  from p11_claim_is_file_claim [OF c(1)] obtain pre where
    "fb_claim (p11_fileBinding path p) pre (cgFile env) i (wFiles w) = Some (fs, None)" by blast
  with file_registry.claim_owns [of "p11_fileBinding path p" "cgFile env" pre i "wFiles w" fs] assms(1) c(2) PKCS11Backend show ?thesis by (auto simp: backend_fair_def backend_owner_def)
qed

lemma backend_binding_owner:
  assumes "backend_truthful b env" "backend_ClusterBinding kl b env w = Inr cid"
  shows "backend_owner kl b w = Some cid"
  using assms file_registry.binding_is_owner vault_registry.binding_is_owner gcp_registry.binding_is_owner aws_registry.binding_is_owner
  by (cases b) (auto simp: backend_truthful_def backend_ClusterBinding_def backend_owner_def Software_ClusterBinding_def
      p11_ClusterBinding_def split: if_splits)

interpretation backend_registry: claim_registry "backend_owner kl b" "backend_ClusterBinding kl b" "claim_world kl sha256 b"
  "backend_truthful b" "backend_fair kl b"
  for kl b sha256
  by unfold_locales (fact backend_binding_owner claim_world_keeps claim_world_owns)+

end
