(* ===== verification/VaultImport.thy ===== *)
theory VaultImport
  imports Vault CryptoLib
begin

section \<open>Importing a key into Vault (internal/backend/vault_import.go)\<close>

text \<open>
  The key is wrapped with an ephemeral AES key, that key with Vault's RSA wrapping key, and both are
  posted. The requests that change a Transit key are logged; the signing probe is not one of them.
\<close>

definition vaultPrivateKeyAlreadyImported :: string where
  "vaultPrivateKeyAlreadyImported = ''private key imported, key version cannot be updated''"

datatype vault_write = VaultWrite string anymap

text \<open>\<open>got\<close> is the answer to reading the wrapping key, \<open>rnd\<close> the ephemeral key.\<close>

definition wrapVaultImportKey :: "crypto_lib \<Rightarrow> secret result \<Rightarrow> bytes result \<Rightarrow> bytes \<Rightarrow> string result" where
  "wrapVaultImportKey cl got rnd pkcs8DER =
     (case got of
        Inl e \<Rightarrow> Inl (Errorf ''read transit wrapping key'' [e])
      | Inr None \<Rightarrow> Inl (errors_New ''transit wrapping key not available (Vault >= 1.12 required)'')
      | Inr (Some d) \<Rightarrow>
     (case pemDecode cl (case as_string (field d ''public_key'') of Some s \<Rightarrow> s | None \<Rightarrow> []) of
        None \<Rightarrow> Inl (errors_New ''decode wrapping key PEM'')
      | Some block \<Rightarrow>
     (case parsePKIX cl block of
        Inl e \<Rightarrow> Inl (Errorf ''parse wrapping key'' [e])
      | Inr (RSAKey rsa bits) \<Rightarrow>
         (case rnd of
            Inl e \<Rightarrow> Inl (Errorf ''generate ephemeral key'' [e])
          | Inr aesKey \<Rightarrow>
         (case newKWP cl aesKey of
            Some e \<Rightarrow> Inl (Errorf ''init AES-KWP'' [e])
          | None \<Rightarrow>
         (case kwpWrap cl aesKey pkcs8DER of
            Inl e \<Rightarrow> Inl (Errorf ''wrap key material'' [e])
          | Inr wrappedTarget \<Rightarrow>
         (case encryptOAEP cl rsa aesKey of
            Inl e \<Rightarrow> Inl (Errorf ''wrap ephemeral key'' [e])
          | Inr wrappedAES \<Rightarrow> Inr (b64_encode (wrappedAES @ wrappedTarget))))))
      | Inr _ \<Rightarrow> Inl (errors_New ''wrapping key is not RSA''))))"

text \<open>What the import meets besides the server: the wrapping key's read, the ephemeral key, and the text of a write error.\<close>

record import_env =
  ieClient :: client_env
  ieWrapping :: "secret result"
  ieRandom :: "bytes result"
  ieErrorText :: "go_error \<Rightarrow> string"

definition contains :: "string \<Rightarrow> string \<Rightarrow> bool" where
  "contains s sub = list_ex (\<lambda>n. take (length sub) (drop n s) = sub) [0..<Suc (length s)]"

text \<open>The selected version already exists with the public key of the file.\<close>

definition complete_existing ::
  "crypto_lib \<Rightarrow> import_env \<Rightarrow> vault_server \<Rightarrow> Vault \<Rightarrow> bytes \<times> int \<times> int \<Rightarrow> bytes \<Rightarrow> vault_write list \<times> go_error option" where
  "complete_existing cl env srv v0 found pkcs8DER =
     (let (existing, selectedVersion, minimumSigningVersion) = found;
          probed = (if selectedVersion \<ge> minimumSigningVersion
                    then Some (verifySigningKeyWithClient (verifySignature cl) srv (vClient v0) (v0\<lparr>vPub := existing, vKeyVersion := selectedVersion\<rparr>))
                    else None) in
      if probed = Some None then ([], None)
      else
     (case wrapVaultImportKey cl (ieWrapping env) (ieRandom env) pkcs8DER of
        Inl e \<Rightarrow> ([], Some e)
      | Inr ciphertext \<Rightarrow>
     (let path = keys_path v0 @ ''/import_version'';
          req = [(''ciphertext'', AStr ciphertext), (''hash_function'', AStr ''SHA256''), (''version'', AInt selectedVersion)] in
      case vsWrite srv (vClient v0) path req of
        Inr _ \<Rightarrow> ([VaultWrite path req], None)
      | Inl e \<Rightarrow>
          if contains (ieErrorText env e) vaultPrivateKeyAlreadyImported then ([VaultWrite path req], None)
          else ([VaultWrite path req],
                Some (Errorf (case probed of Some (Some _) \<Rightarrow> ''failed both the signing probe and private-key completion''
                    | _ \<Rightarrow> ''prove transit key has private signing material'') [e])))))"

text \<open>The bare receiver \<^verbatim>\<open>VaultImportKey\<close> reads the existing key with.\<close>

definition import_target :: "vaultClient \<Rightarrow> string \<Rightarrow> string \<Rightarrow> int \<Rightarrow> Vault" where
  "import_target client mount keyName keyVersion =
     \<lparr>vClient = client, vMount = mount, vBindingMount = [], vKeyName = keyName, vTokenFile = [], vPub = [],
      vRequestedKeyVersion = keyVersion, vKeyVersion = 0, vStopped = False, vStarted = False, vClosed = False, vLoops = 0\<rparr>"

definition VaultImportKey ::
  "crypto_lib \<Rightarrow> import_env \<Rightarrow> vault_server \<Rightarrow> VaultConfig \<Rightarrow> bytes \<Rightarrow> vault_write list \<times> go_error option" where
  "VaultImportKey cl env srv cfg pkcs8DER =
     (case normalizeVaultMount (if vcMount cfg = [] then ''transit'' else vcMount cfg) of
        Inl e \<Rightarrow> ([], Some e)
      | Inr mount \<Rightarrow>
     (case normalizeVaultKeyName (vcKeyName cfg) of
        Inl e \<Rightarrow> ([], Some e)
      | Inr keyName \<Rightarrow>
     (case NewVaultClient (ieClient env) cfg of
        Inl e \<Rightarrow> ([], Some e)
      | Inr client \<Rightarrow>
     (case parsePKCS8 cl pkcs8DER of
        Inl e \<Rightarrow> ([], Some (Errorf ''parse PKCS#8 private key'' [e]))
      | Inr OtherPrivate \<Rightarrow> ([], Some (errors_New ''PKCS#8 private key is not ed25519''))
      | Inr (Ed25519Private privateKey) \<Rightarrow>
     (let want = ed25519Public cl privateKey;
          v0 = import_target client mount keyName (vcKeyVersion cfg) in
      case fetchPubKeyIfExists srv v0 False of
        Inl e \<Rightarrow> ([], Some e)
      | Inr (Some (existing, selectedVersion, minimum)) \<Rightarrow>
          if existing = want then complete_existing cl env srv v0 (existing, selectedVersion, minimum) pkcs8DER
          else ([], Some (errors_New ''transit key already exists with a different public key''))
      | Inr None \<Rightarrow>
          if vcKeyVersion cfg < 0 \<or> vcKeyVersion cfg > 1
          then ([], Some (errors_New ''new Vault imports create key version 1''))
          else
     (case wrapVaultImportKey cl (ieWrapping env) (ieRandom env) pkcs8DER of
        Inl e \<Rightarrow> ([], Some e)
      | Inr ciphertext \<Rightarrow>
     (let path = keys_path v0 @ ''/import'';
          req = [(''ciphertext'', AStr ciphertext), (''type'', AStr ''ed25519''), (''hash_function'', AStr ''SHA256''), (''exportable'', ABool False)] in
      case vsWrite srv client path req of
        Inl e \<Rightarrow> ([VaultWrite path req], Some (Errorf ''transit import'' [e]))
      | Inr _ \<Rightarrow> ([VaultWrite path req], None))))))))"

lemma complete_existing_cases:
  assumes "complete_existing cl env srv v0 (pk, n, mn) der = (ws, r)"
  obtains (probed) "ws = []" "r = None" "verifySigningKeyWithClient (verifySignature cl) srv (vClient v0) (v0\<lparr>vPub := pk, vKeyVersion := n\<rparr>) = None"
  | (unwrapped) e where "ws = []" "r = Some e"
  | (posted) ct where "wrapVaultImportKey cl (ieWrapping env) (ieRandom env) der = Inr ct"
      "ws = [VaultWrite (keys_path v0 @ ''/import_version'')
         [(''ciphertext'', AStr ct), (''hash_function'', AStr ''SHA256''), (''version'', AInt n)]]"
  using assms by (auto simp: complete_existing_def Let_def split: if_splits sum.splits option.splits)

text \<open>The transit key and version the configuration names.\<close>

definition configured_target :: "import_env \<Rightarrow> VaultConfig \<Rightarrow> Vault \<Rightarrow> bool" where
  "configured_target env cfg v0 \<longleftrightarrow> (\<exists>client mount keyName.
     normalizeVaultMount (if vcMount cfg = [] then ''transit'' else vcMount cfg) = Inr mount \<and>
     normalizeVaultKeyName (vcKeyName cfg) = Inr keyName \<and> NewVaultClient (ieClient env) cfg = Inr client \<and>
     v0 = import_target client mount keyName (vcKeyVersion cfg))"

lemma import_cases:
  assumes "VaultImportKey cl env srv cfg der = (ws, r)"
  obtains (refused) e where "ws = []" "r = Some e"
  | (existing) v0 priv n mn where "configured_target env cfg v0" "parsePKCS8 cl der = Inr (Ed25519Private priv)"
      "fetchPubKeyIfExists srv v0 False = Inr (Some (ed25519Public cl priv, n, mn))"
      "complete_existing cl env srv v0 (ed25519Public cl priv, n, mn) der = (ws, r)"
  | (created) v0 priv ct where "configured_target env cfg v0" "parsePKCS8 cl der = Inr (Ed25519Private priv)" "fetchPubKeyIfExists srv v0 False = Inr None"
      "wrapVaultImportKey cl (ieWrapping env) (ieRandom env) der = Inr ct" "0 \<le> vcKeyVersion cfg" "vcKeyVersion cfg \<le> 1"
      "ws = [VaultWrite (keys_path v0 @ ''/import'')
         [(''ciphertext'', AStr ct), (''type'', AStr ''ed25519''), (''hash_function'', AStr ''SHA256''), (''exportable'', ABool False)]]"
proof (cases r)
  case (Some e)
  show thesis
  proof (cases ws)
    case Nil
    then show thesis using Some by (intro refused)
  next
    case (Cons w ws')
    then show thesis using assms that
      by (auto simp: VaultImportKey_def configured_target_def Let_def
        split: sum.splits option.splits prod.splits pkcs8_key.splits if_splits)
  qed
next
  case None
  then show thesis using assms that
    by (auto simp: VaultImportKey_def configured_target_def Let_def
        split: sum.splits option.splits prod.splits pkcs8_key.splits if_splits)
qed

text \<open>
  C38: an import never replaces a validator's identity. It changes Vault with at most one request, to
  the transit key the configuration names, and only when the key does not exist yet, where it posts a non-exportable key, or when the selected
  version already has the public key of the imported file, where it completes that very version; what
  it posts is the wrapped file. It succeeds without a request only when a signature of the
  existing version has just verified under the file's public key.
\<close>
theorem vault_import_keeps_identity:
  assumes "VaultImportKey cl env srv cfg der = (ws, r)"
  shows "length ws \<le> 1 \<and>
    (\<forall>path req. VaultWrite path req \<in> set ws \<longrightarrow>
       (\<exists>v0 priv ct. configured_target env cfg v0 \<and>
          parsePKCS8 cl der = Inr (Ed25519Private priv) \<and> wrapVaultImportKey cl (ieWrapping env) (ieRandom env) der = Inr ct \<and>
          map_of req ''ciphertext'' = Some (AStr ct) \<and>
          (fetchPubKeyIfExists srv v0 False = Inr None \<and> path = keys_path v0 @ ''/import'' \<and> map_of req ''exportable'' = Some (ABool False) \<or>
           (\<exists>n mn. fetchPubKeyIfExists srv v0 False = Inr (Some (ed25519Public cl priv, n, mn)) \<and>
              path = keys_path v0 @ ''/import_version'' \<and> map_of req ''version'' = Some (AInt n))))) \<and>
    (r = None \<and> ws = [] \<longrightarrow>
       (\<exists>v0 priv n mn. configured_target env cfg v0 \<and> parsePKCS8 cl der = Inr (Ed25519Private priv) \<and> fetchPubKeyIfExists srv v0 False = Inr (Some (ed25519Public cl priv, n, mn)) \<and>
          verifySigningKeyWithClient (verifySignature cl) srv (vClient v0) (v0\<lparr>vPub := ed25519Public cl priv, vKeyVersion := n\<rparr>) = None))"
  using assms
proof (cases rule: import_cases)
  case (refused e)
  then show ?thesis by simp
next
  case (existing v0 priv n mn)
  from existing(4) show ?thesis
  proof (cases rule: complete_existing_cases)
    case probed
    then show ?thesis using existing by auto
  next
    case (unwrapped e)
    then show ?thesis by simp
  next
    case (posted ct)
    have "\<exists>v0 priv ct'. configured_target env cfg v0 \<and> parsePKCS8 cl der = Inr (Ed25519Private priv) \<and> wrapVaultImportKey cl (ieWrapping env) (ieRandom env) der = Inr ct' \<and>
        map_of [(''ciphertext'', AStr ct), (''hash_function'', AStr ''SHA256''), (''version'', AInt n)] ''ciphertext'' = Some (AStr ct') \<and>
        (\<exists>n' mn. fetchPubKeyIfExists srv v0 False = Inr (Some (ed25519Public cl priv, n', mn)) \<and>
              keys_path v1 @ ''/import_version'' = keys_path v0 @ ''/import_version'' \<and>
              map_of [(''ciphertext'', AStr ct), (''hash_function'', AStr ''SHA256''), (''version'', AInt n)] ''version'' = Some (AInt n'))"
      if "v1 = v0" for v1
      using existing(1-3) posted(1) that by (intro exI [of _ v0] exI [of _ priv] exI [of _ ct] conjI exI [of _ n] exI [of _ mn]) simp_all
    then show ?thesis unfolding posted(2) by auto
  qed
next
  case (created v0 priv ct)
  then show ?thesis by auto
qed

definition ex_crypto :: crypto_lib where
  "ex_crypto = \<lparr>pemDecode = Some, parsePKIX = (\<lambda>b. Inr (RSAKey b 4096)), parsePKCS8 = (\<lambda>b. Inr (Ed25519Private b)), ed25519Public = (\<lambda>b. b),
     encryptOAEP = (\<lambda>k m. Inr m), newKWP = (\<lambda>_. None), kwpWrap = (\<lambda>k m. Inr m), verifySignature = (\<lambda>_ _ _. True)\<rparr>"

definition ex_import :: import_env where
  "ex_import = \<lparr>ieClient = ex_client_env, ieWrapping = Inr (Some []), ieRandom = Inr ''r'', ieErrorText = (\<lambda>_. [])\<rparr>"

definition ex_empty_vault :: vault_server where
  "ex_empty_vault = ex_vault_server\<lparr>vsRead := (\<lambda>_ _. Inr None)\<rparr>"

theorem vault_import_keeps_identity_witness:
  "\<exists>w. VaultImportKey ex_crypto ex_import ex_empty_vault ex_vault_config ''key'' = ([w], None) \<and>
     (\<exists>req v0. w = VaultWrite (keys_path v0 @ ''/import'') req \<and> fetchPubKeyIfExists ex_empty_vault v0 False = Inr None)"
proof -
  have t: "TrimSpace ''transit'' = ''transit''" "TrimSpace ''val'' = ''val''"
    by (rule TrimSpace_graphic; simp)+
  have n: "normalizeVaultMount ''transit'' = Inr ''transit''" "normalizeVaultKeyName ''val'' = Inr ''val''"
    by (simp_all add: normalizeVaultMount_def normalizeVaultKeyName_def Trim_def ambiguous_def t)
  obtain path req where c: "VaultImportKey ex_crypto ex_import ex_empty_vault ex_vault_config ''key'' = ([VaultWrite path req], None)"
    by (simp add: VaultImportKey_def ex_vault_config_def n NewVaultClient_def ex_client_env_def ex_import_def ex_crypto_def fetchPubKeyIfExists_def
        ex_empty_vault_def ex_vault_server_def wrapVaultImportKey_def field_def as_string_def Let_def)
  have a: "fetchPubKeyIfExists ex_empty_vault v False = Inr None" for v
    by (simp add: fetchPubKeyIfExists_def ex_empty_vault_def)
  from vault_import_keeps_identity [OF c] a c show ?thesis by auto
qed
end
