(* ===== verification/GcpImport.thy ===== *)
theory GcpImport
  imports GcpKms
begin

section \<open>Creating and importing Cloud KMS keys (internal/backend/gcpkms_provision.go, gcpkms_import.go)\<close>

text \<open>
  Cloud KMS's answers are arguments; an error is given with its gRPC code. Requests that create
  something are logged. Polling loops run over the list of answers they get, each with what the
  context and the clock said after it; they are \<open>None\<close> while they still wait.
\<close>

datatype grpc_code = NotFound | AlreadyExists | OtherCode
datatype grpc_error = GrpcError (grpc_status: grpc_code) (grpc_go: go_error)

datatype protection = ProtectionSoftware | ProtectionHSM | OtherProtection
datatype purpose = ASYMMETRIC_SIGN | OtherPurpose

record crypto_key =
  ckPurpose :: purpose
  ckAlgorithm :: gcp_algorithm
  ckProtection :: protection

datatype import_method = RSA_OAEP_3072_SHA256 | RSA_OAEP_4096_SHA256 | OtherMethod
datatype job_state = JobActive | JobPendingGeneration | JobOther

record import_job =
  ijState :: job_state
  ijMethod :: import_method
  ijProtection :: protection
  ijPem :: string

datatype version_state = VersionEnabled | VersionPendingImport | VersionImportFailed | VersionOther

datatype gcp_call =
    CreateKeyRing string string
  | CreateCryptoKey string string crypto_key bool
  | CreateImportJob string string import_method protection
  | ImportVersion string string bytes

record GCPKeyCoords =
  gcoProject :: string
  gcoLocation :: string
  gcoKeyRing :: string
  gcoKey :: string
  gcoProtection :: protection

subsection \<open>Provisioning\<close>

definition keyRingName :: "GCPKeyCoords \<Rightarrow> string" where
  "keyRingName cfg = ''projects/'' @ gcoProject cfg @ ''/locations/'' @ gcoLocation cfg @ ''/keyRings/'' @ gcoKeyRing cfg"

record ring_env =
  reGet :: "grpc_error option"
  reCreate :: "grpc_error option"

definition ensureKeyRing :: "ring_env \<Rightarrow> GCPKeyCoords \<Rightarrow> gcp_call list \<times> go_error option" where
  "ensureKeyRing env cfg =
     (case reGet env of
        None \<Rightarrow> ([], None)
      | Some e \<Rightarrow>
          if grpc_status e \<noteq> NotFound then ([], Some (Errorf ''get key ring'' [grpc_go e]))
          else
            ([CreateKeyRing (''projects/'' @ gcoProject cfg @ ''/locations/'' @ gcoLocation cfg) (gcoKeyRing cfg)],
             case reCreate env of
               None \<Rightarrow> None
             | Some e' \<Rightarrow> if grpc_status e' \<noteq> AlreadyExists then Some (Errorf ''create key ring'' [grpc_go e']) else None))"

definition wanted_key :: "protection \<Rightarrow> crypto_key" where
  "wanted_key p = \<lparr>ckPurpose = ASYMMETRIC_SIGN, ckAlgorithm = EC_SIGN_ED25519, ckProtection = p\<rparr>"

text \<open>\<open>created\<close> answers \<^verbatim>\<open>CreateCryptoKey\<close> with the name of the new key.\<close>

definition gcpProvisionKey :: "ring_env \<Rightarrow> string result \<Rightarrow> GCPKeyCoords \<Rightarrow> gcp_call list \<times> string result" where
  "gcpProvisionKey env created cfg =
     (case ensureKeyRing env cfg of
        (cs, Some e) \<Rightarrow> (cs, Inl e)
      | (cs, None) \<Rightarrow>
          (cs @ [CreateCryptoKey (keyRingName cfg) (gcoKey cfg) (wanted_key (gcoProtection cfg)) False],
           case created of Inl e \<Rightarrow> Inl (Errorf ''create crypto key'' [e]) | Inr name \<Rightarrow> Inr name))"

definition GCPProvisionKey ::
  "bytes result \<Rightarrow> go_error option \<Rightarrow> ring_env \<Rightarrow> string result \<Rightarrow> string \<Rightarrow> GCPKeyCoords \<Rightarrow> gcp_call list \<times> string result" where
  "GCPProvisionKey file clientErr env created credsFile cfg =
     (case GCPClientOptions file credsFile of
        Inl e \<Rightarrow> ([], Inl e)
      | Inr opts \<Rightarrow>
     (case clientErr of
        Some e \<Rightarrow> ([], Inl (Errorf ''new kms client'' [e]))
      | None \<Rightarrow> gcpProvisionKey env created cfg))"

subsection \<open>Importing\<close>

definition checkImportCryptoKey :: "crypto_key \<Rightarrow> protection \<Rightarrow> go_error option" where
  "checkImportCryptoKey key p =
     check (ckPurpose key \<noteq> ASYMMETRIC_SIGN \<or> ckAlgorithm key \<noteq> EC_SIGN_ED25519 \<or> ckProtection key \<noteq> p)
       ''crypto key has another purpose, algorithm or protection''"

record import_key_env =
  ikGet :: "grpc_error + crypto_key"
  ikRing :: ring_env
  ikCreate :: "grpc_error option"
  ikGetAgain :: "crypto_key result"

definition ensureImportCryptoKey :: "import_key_env \<Rightarrow> GCPKeyCoords \<Rightarrow> gcp_call list \<times> go_error option" where
  "ensureImportCryptoKey env cfg =
     (case ikGet env of
        Inr key \<Rightarrow> ([], checkImportCryptoKey key (gcoProtection cfg))
      | Inl e \<Rightarrow>
          if grpc_status e \<noteq> NotFound then ([], Some (Errorf ''get crypto key'' [grpc_go e]))
          else
     (case ensureKeyRing (ikRing env) cfg of
        (cs, Some e) \<Rightarrow> (cs, Some e)
      | (cs, None) \<Rightarrow>
     (let cs' = cs @ [CreateCryptoKey (keyRingName cfg) (gcoKey cfg) (wanted_key (gcoProtection cfg)) True] in
      case ikCreate env of
        None \<Rightarrow> (cs', None)
      | Some e \<Rightarrow>
          if grpc_status e \<noteq> AlreadyExists then (cs', Some (Errorf ''create crypto key'' [grpc_go e]))
          else (case ikGetAgain env of
              Inl e' \<Rightarrow> (cs', Some (Errorf ''get crypto key'' [e']))
            | Inr key \<Rightarrow> (cs', checkImportCryptoKey key (gcoProtection cfg))))))"

text \<open>Each round of the wait: the job and, while it is pending, whether the context ended.\<close>

fun waitImportJobActive :: "(import_job result \<times> go_error option) list \<Rightarrow> import_job result option" where
  "waitImportJobActive [] = None"
| "waitImportJobActive ((Inl e, _) # rs) = Some (Inl (Errorf ''get import job'' [e]))"
| "waitImportJobActive ((Inr job, ctx) # rs) =
     (case ijState job of
        JobActive \<Rightarrow> Some (Inr job)
      | JobPendingGeneration \<Rightarrow> (case ctx of Some e \<Rightarrow> Some (Inl e) | None \<Rightarrow> waitImportJobActive rs)
      | JobOther \<Rightarrow> Some (Inl (errors_New ''import job cannot be reused'')))"

record import_job_env =
  ijeGet :: "grpc_error option"
  ijeCreate :: "grpc_error option"
  ijeWait :: "(import_job result \<times> go_error option) list"

definition ensureImportJob :: "import_job_env \<Rightarrow> GCPKeyCoords \<Rightarrow> string \<Rightarrow> gcp_call list \<times> import_job result option" where
  "ensureImportJob env cfg jobID =
     (let (cs, r) =
        (case ijeGet env of
           None \<Rightarrow> ([], None)
         | Some e \<Rightarrow>
             if grpc_status e \<noteq> NotFound then ([], Some (Errorf ''get import job'' [grpc_go e]))
             else
               ([CreateImportJob (keyRingName cfg) jobID RSA_OAEP_3072_SHA256 (gcoProtection cfg)],
                case ijeCreate env of
                  None \<Rightarrow> None
                | Some e' \<Rightarrow> if grpc_status e' \<noteq> AlreadyExists then Some (Errorf ''create import job'' [grpc_go e']) else None)) in
      case r of
        Some e \<Rightarrow> (cs, Some (Inl e))
      | None \<Rightarrow>
          (cs, case waitImportJobActive (ijeWait env) of
             None \<Rightarrow> None
           | Some (Inl e) \<Rightarrow> Some (Inl e)
           | Some (Inr job) \<Rightarrow>
               if ijMethod job \<notin> {RSA_OAEP_3072_SHA256, RSA_OAEP_4096_SHA256} \<or> ijProtection job \<noteq> gcoProtection cfg
               then Some (Inl (errors_New ''import job has another method or protection''))
               else Some (Inr job)))"

text \<open>Each round of the wait: the version's state, whether the deadline has passed, whether the context ended.\<close>

fun waitVersionEnabled :: "string \<Rightarrow> (version_state result \<times> bool \<times> go_error option) list \<Rightarrow> (string \<times> bool) result option" where
  "waitVersionEnabled name [] = None"
| "waitVersionEnabled name ((Inl e, _, _) # rs) = Some (Inl (Errorf ''get crypto key version'' [e]))"
| "waitVersionEnabled name ((Inr st, late, ctx) # rs) =
     (case st of
        VersionEnabled \<Rightarrow> Some (Inr (name, True))
      | VersionPendingImport \<Rightarrow>
          if late then Some (Inr (name, False))
          else (case ctx of Some e \<Rightarrow> Some (Inl e) | None \<Rightarrow> waitVersionEnabled name rs)
      | VersionImportFailed \<Rightarrow> Some (Inl (errors_New ''import failed''))
      | VersionOther \<Rightarrow> Some (Inl (errors_New ''unexpected key version state'')))"

record gcp_import_env =
  giKey :: import_key_env
  giJob :: import_job_env
  giImport :: "string result"
  giVersion :: "(version_state result \<times> bool \<times> go_error option) list"

definition wrap_with_job :: "crypto_lib \<Rightarrow> import_job \<Rightarrow> bytes \<Rightarrow> bytes result" where
  "wrap_with_job cl job pkcs8DER =
     (case pemDecode cl (ijPem job) of
        None \<Rightarrow> Inl (errors_New ''decode import job wrapping key PEM'')
      | Some block \<Rightarrow>
     (case parsePKIX cl block of
        Inl e \<Rightarrow> Inl (Errorf ''parse wrapping key'' [e])
      | Inr (RSAKey rsa bits) \<Rightarrow>
          (case encryptOAEP cl rsa pkcs8DER of Inl e \<Rightarrow> Inl (Errorf ''wrap key material'' [e]) | Inr w \<Rightarrow> Inr w)
      | Inr _ \<Rightarrow> Inl (errors_New ''wrapping key is not RSA'')))"

definition gcpImportKey ::
  "crypto_lib \<Rightarrow> gcp_import_env \<Rightarrow> GCPKeyCoords \<Rightarrow> string \<Rightarrow> bytes \<Rightarrow> gcp_call list \<times> (string \<times> bool) result option" where
  "gcpImportKey cl env cfg jobID pkcs8DER =
     (let keyName = keyRingName cfg @ ''/cryptoKeys/'' @ gcoKey cfg; jobName = keyRingName cfg @ ''/importJobs/'' @ jobID in
      case ensureImportCryptoKey (giKey env) cfg of
        (cs, Some e) \<Rightarrow> (cs, Some (Inl e))
      | (cs, None) \<Rightarrow>
     (case ensureImportJob (giJob env) cfg jobID of
        (js, None) \<Rightarrow> (cs @ js, None)
      | (js, Some (Inl e)) \<Rightarrow> (cs @ js, Some (Inl e))
      | (js, Some (Inr job)) \<Rightarrow>
     (case wrap_with_job cl job pkcs8DER of
        Inl e \<Rightarrow> (cs @ js, Some (Inl e))
      | Inr wrapped \<Rightarrow>
          (cs @ js @ [ImportVersion keyName jobName wrapped],
           case giImport env of
             Inl e \<Rightarrow> Some (Inl (Errorf ''import crypto key version'' [e]))
           | Inr name \<Rightarrow> waitVersionEnabled name (giVersion env)))))"

definition GCPImportKey ::
  "crypto_lib \<Rightarrow> bytes result \<Rightarrow> go_error option \<Rightarrow> gcp_import_env \<Rightarrow> string \<Rightarrow> GCPKeyCoords \<Rightarrow> string \<Rightarrow> bytes \<Rightarrow>
   gcp_call list \<times> (string \<times> bool) result option" where
  "GCPImportKey cl file clientErr env credsFile cfg jobID pkcs8DER =
     (case GCPClientOptions file credsFile of
        Inl e \<Rightarrow> ([], Some (Inl e))
      | Inr opts \<Rightarrow>
     (case clientErr of
        Some e \<Rightarrow> ([], Some (Inl (Errorf ''new kms client'' [e])))
      | None \<Rightarrow> gcpImportKey cl env cfg jobID pkcs8DER))"

subsection \<open>Properties\<close>

lemma checkImportCryptoKey_None [simp]: "checkImportCryptoKey key p = None \<longleftrightarrow> key = wanted_key p"
  by (cases key) (auto simp: checkImportCryptoKey_def wanted_key_def)

lemma ensureKeyRing_calls: "ensureKeyRing env cfg = (cs, r) \<Longrightarrow> set cs \<subseteq> {c. \<exists>a b. c = CreateKeyRing a b}"
  by (auto simp: ensureKeyRing_def split: option.splits if_splits)

lemma ensureImportCryptoKey_ok:
  assumes "ensureImportCryptoKey env cfg = (cs, r)"
  shows "(\<forall>k j w. ImportVersion k j w \<notin> set cs) \<and>
    (\<forall>a b c d. CreateCryptoKey a b c d \<in> set cs \<longrightarrow> c = wanted_key (gcoProtection cfg) \<and> (\<exists>e. ikGet env = Inl e \<and> grpc_status e = NotFound)) \<and>
    (r = None \<longrightarrow> ikGet env = Inr (wanted_key (gcoProtection cfg)) \<or> ikGetAgain env = Inr (wanted_key (gcoProtection cfg)) \<or>
       (ikCreate env = None \<and> CreateCryptoKey (keyRingName cfg) (gcoKey cfg) (wanted_key (gcoProtection cfg)) True \<in> set cs))"
proof (cases "ikGet env")
  case (Inr key)
  then show ?thesis using assms by (auto simp: ensureImportCryptoKey_def)
next
  case (Inl e)
  obtain rs rr where ring: "ensureKeyRing (ikRing env) cfg = (rs, rr)" by fastforce
  have "\<forall>k j w. ImportVersion k j w \<notin> set rs" "\<forall>a b c d. CreateCryptoKey a b c d \<notin> set rs"
    using ensureKeyRing_calls [OF ring] by auto
  then show ?thesis using assms Inl ring
    by (auto simp: ensureImportCryptoKey_def Let_def split: if_splits option.splits sum.splits)
qed

lemma waitImportJobActive_ok: "waitImportJobActive rs = Some (Inr job) \<Longrightarrow> ijState job = JobActive \<and> (\<exists>ctx. (Inr job, ctx) \<in> set rs)"
  by (induction rs rule: waitImportJobActive.induct) (auto split: job_state.splits option.splits)

lemma ensureImportJob_ok:
  assumes "ensureImportJob env cfg jobID = (cs, r)"
  shows "set cs \<subseteq> {CreateImportJob (keyRingName cfg) jobID RSA_OAEP_3072_SHA256 (gcoProtection cfg)} \<and>
    (\<forall>job. r = Some (Inr job) \<longrightarrow> ijState job = JobActive \<and> ijMethod job \<in> {RSA_OAEP_3072_SHA256, RSA_OAEP_4096_SHA256} \<and>
       ijProtection job = gcoProtection cfg \<and> (\<exists>ctx. (Inr job, ctx) \<in> set (ijeWait env))) \<and>
    (r = None \<longrightarrow> waitImportJobActive (ijeWait env) = None)"
proof (cases "waitImportJobActive (ijeWait env)")
  case None
  then show ?thesis using assms by (auto simp: ensureImportJob_def Let_def split: option.splits if_splits)
next
  case (Some jr)
  show ?thesis
  proof (cases jr)
    case (Inl e)
    note w = Some [unfolded Inl]
    show ?thesis using assms unfolding ensureImportJob_def w by (auto simp: Let_def split: option.splits if_splits)
  next
    case (Inr job)
    note w = Some [unfolded Inr]
    show ?thesis using assms waitImportJobActive_ok [OF w] unfolding ensureImportJob_def w
      by (auto simp: Let_def split: option.splits if_splits)
  qed
qed

lemma waitVersionEnabled_ok:
  "waitVersionEnabled name rs = Some (Inr (v, True)) \<Longrightarrow> v = name \<and> (\<exists>late ctx. (Inr VersionEnabled, late, ctx) \<in> set rs)"
  by (induction name rs rule: waitVersionEnabled.induct) (auto split: version_state.splits option.splits if_splits)

lemma waitVersionEnabled_ends: "waitVersionEnabled name rs = None \<Longrightarrow> (a, late, ctx) \<in> set rs \<Longrightarrow> \<not> late \<and> ctx = None"
  by (induction name rs rule: waitVersionEnabled.induct) (auto split: version_state.splits option.splits if_splits)

text \<open>Before the import request nothing is imported, and keys are created only where none was found.\<close>

lemma only_the_import_imports:
  assumes "ensureImportCryptoKey (giKey env) cfg = (cs, kr)" "ensureImportJob (giJob env) cfg jobID = (js, jr)"
  shows "\<forall>k j w. ImportVersion k j w \<notin> set (cs @ js)"
    and "\<forall>a b c d. CreateCryptoKey a b c d \<in> set (cs @ js) \<longrightarrow>
         c = wanted_key (gcoProtection cfg) \<and> (\<exists>e. ikGet (giKey env) = Inl e \<and> grpc_status e = NotFound)"
proof -
  have "\<forall>k j w. ImportVersion k j w \<notin> set js" "\<forall>a b c d. CreateCryptoKey a b c d \<notin> set js"
    using ensureImportJob_ok [OF assms(2), THEN conjunct1] by auto
  with ensureImportCryptoKey_ok [OF assms(1)]
  show "\<forall>k j w. ImportVersion k j w \<notin> set (cs @ js)"
    and "\<forall>a b c d. CreateCryptoKey a b c d \<in> set (cs @ js) \<longrightarrow>
         c = wanted_key (gcoProtection cfg) \<and> (\<exists>e. ikGet (giKey env) = Inl e \<and> grpc_status e = NotFound)"
    unfolding set_append by blast+
qed

lemma gcpImportKey_cases:
  assumes "gcpImportKey cl env cfg jobID der = (calls, r)"
    "ensureImportCryptoKey (giKey env) cfg = (cs, kr)" "ensureImportJob (giJob env) cfg jobID = (js, jr)"
  obtains (no_key) e where "calls = cs" "r = Some (Inl e)"
  | (no_job) "calls = cs @ js" "\<forall>v. r \<noteq> Some (Inr v)" "r = None \<longrightarrow> jr = None"
  | (imported) job w where "kr = None" "jr = Some (Inr job)" "wrap_with_job cl job der = Inr w"
      "calls = cs @ js @ [ImportVersion (keyRingName cfg @ ''/cryptoKeys/'' @ gcoKey cfg) (keyRingName cfg @ ''/importJobs/'' @ jobID) w]"
      "r = (case giImport env of Inl e \<Rightarrow> Some (Inl (Errorf ''import crypto key version'' [e]))
         | Inr name \<Rightarrow> waitVersionEnabled name (giVersion env))"
proof (cases kr)
  case (Some e)
  then have "calls = cs" "r = Some (Inl e)" using assms by (simp_all add: gcpImportKey_def Let_def)
  then show ?thesis by (rule no_key)
next
  case None
  show ?thesis
  proof (cases "\<exists>job w. jr = Some (Inr job) \<and> wrap_with_job cl job der = Inr w")
    case True
    then obtain job w where w: "jr = Some (Inr job)" "wrap_with_job cl job der = Inr w" by blast
    then show ?thesis using assms None imported [OF None w] by (simp add: gcpImportKey_def Let_def)
  next
    case False
    then have "calls = cs @ js" "\<forall>v. r \<noteq> Some (Inr v)" "r = None \<longrightarrow> jr = None"
      using assms None by (auto simp: gcpImportKey_def Let_def split: option.splits sum.splits)
    then show ?thesis by (rule no_job)
  qed
qed

text \<open>
  C39: a Cloud KMS import goes only into a fitting key. Material is imported only into the configured
  key, which is an ed25519 signing key at the requested protection level, found as such or created as
  such by this call, and only through the named import job, active, of the requested protection, whose
  wrapping method matches the wrapping done here. A key is created only after KMS reported it missing. The
  import is reported ready only when KMS reported the new version enabled; the wait for it ends with
  its deadline or its context.
\<close>
theorem gcp_import_fits_key:
  assumes "GCPImportKey cl file ce env credsFile cfg jobID der = (calls, r)"
  shows "(\<forall>k j w. ImportVersion k j w \<in> set calls \<longrightarrow>
      k = keyRingName cfg @ ''/cryptoKeys/'' @ gcoKey cfg \<and> j = keyRingName cfg @ ''/importJobs/'' @ jobID \<and>
      (ikGet (giKey env) = Inr (wanted_key (gcoProtection cfg)) \<or> ikGetAgain (giKey env) = Inr (wanted_key (gcoProtection cfg)) \<or>
       (ikCreate (giKey env) = None \<and> CreateCryptoKey (keyRingName cfg) (gcoKey cfg) (wanted_key (gcoProtection cfg)) True \<in> set calls)) \<and>
      (\<exists>job ctx. (Inr job, ctx) \<in> set (ijeWait (giJob env)) \<and> ijState job = JobActive \<and> ijProtection job = gcoProtection cfg \<and>
         ijMethod job \<in> {RSA_OAEP_3072_SHA256, RSA_OAEP_4096_SHA256} \<and> wrap_with_job cl job der = Inr w)) \<and>
    (\<forall>a b c d. CreateCryptoKey a b c d \<in> set calls \<longrightarrow>
       c = wanted_key (gcoProtection cfg) \<and> (\<exists>e. ikGet (giKey env) = Inl e \<and> grpc_status e = NotFound)) \<and>
    (\<forall>v. r = Some (Inr (v, True)) \<longrightarrow> giImport env = Inr v \<and> (\<exists>late ctx. (Inr VersionEnabled, late, ctx) \<in> set (giVersion env))) \<and>
    (waitImportJobActive (ijeWait (giJob env)) \<noteq> None \<and> (\<exists>a late ctx. (a, late, ctx) \<in> set (giVersion env) \<and> (late \<or> ctx \<noteq> None)) \<longrightarrow> r \<noteq> None)"
proof (cases "calls = [] \<and> (\<exists>e. r = Some (Inl e))")
  case True
  then show ?thesis by auto
next
  case False
  then have g: "gcpImportKey cl env cfg jobID der = (calls, r)"
    using assms by (auto simp: GCPImportKey_def split: sum.splits option.splits)
  obtain cs kr where key: "ensureImportCryptoKey (giKey env) cfg = (cs, kr)" by fastforce
  obtain js jr where jb: "ensureImportJob (giJob env) cfg jobID = (js, jr)" by fastforce
  note k = ensureImportCryptoKey_ok [OF key] and j = ensureImportJob_ok [OF jb] and quiet = only_the_import_imports [OF key jb]
  from g key jb show ?thesis
  proof (cases rule: gcpImportKey_cases)
    case (no_key e)
    then show ?thesis using k by blast
  next
    case no_job
    have "waitImportJobActive (ijeWait (giJob env)) \<noteq> None \<longrightarrow> r \<noteq> None" using no_job(3) j [THEN conjunct2, THEN conjunct2] by metis
    then show ?thesis using quiet no_job(2) unfolding no_job(1) by blast
  next
    case (imported job w)
    note c = imported(4)
    have r1: "\<forall>v. r = Some (Inr (v, True)) \<longrightarrow> giImport env = Inr v \<and> (\<exists>late ctx. (Inr VersionEnabled, late, ctx) \<in> set (giVersion env))"
      using imported(5) waitVersionEnabled_ok by (auto split: sum.splits)
    have r2: "(\<exists>a late ctx. (a, late, ctx) \<in> set (giVersion env) \<and> (late \<or> ctx \<noteq> None)) \<longrightarrow> r \<noteq> None"
      using imported(5) waitVersionEnabled_ends by (fastforce split: sum.splits)
    have job: "\<exists>ctx. (Inr job, ctx) \<in> set (ijeWait (giJob env)) \<and> ijState job = JobActive \<and> ijProtection job = gcoProtection cfg \<and>
       ijMethod job \<in> {RSA_OAEP_3072_SHA256, RSA_OAEP_4096_SHA256}" using j imported(2) by blast
    have only: "kk = keyRingName cfg @ ''/cryptoKeys/'' @ gcoKey cfg \<and> jj = keyRingName cfg @ ''/importJobs/'' @ jobID \<and> ww = w"
      if "ImportVersion kk jj ww \<in> set calls" for kk jj ww using that quiet(1) unfolding c by auto
    have tgt: "ikGet (giKey env) = Inr (wanted_key (gcoProtection cfg)) \<or> ikGetAgain (giKey env) = Inr (wanted_key (gcoProtection cfg)) \<or>
     (ikCreate (giKey env) = None \<and> CreateCryptoKey (keyRingName cfg) (gcoKey cfg) (wanted_key (gcoProtection cfg)) True \<in> set calls)"
      using k imported(1) c by auto
    have cr: "\<forall>a b c d. CreateCryptoKey a b c d \<in> set calls \<longrightarrow>
       c = wanted_key (gcoProtection cfg) \<and> (\<exists>e. ikGet (giKey env) = Inl e \<and> grpc_status e = NotFound)"
      using quiet(2) unfolding c by auto
    show ?thesis by (intro conjI cr r1) (use only tgt job imported(3) r2 in blast)+
  qed
qed

definition ex_coords :: GCPKeyCoords where
  "ex_coords = \<lparr>gcoProject = ''p'', gcoLocation = ''l'', gcoKeyRing = ''r'', gcoKey = ''k'', gcoProtection = ProtectionHSM\<rparr>"

definition ex_gcp_import :: gcp_import_env where
  "ex_gcp_import =
     \<lparr>giKey = \<lparr>ikGet = Inr (wanted_key ProtectionHSM), ikRing = \<lparr>reGet = None, reCreate = None\<rparr>, ikCreate = None, ikGetAgain = Inl (errors_New [])\<rparr>,
      giJob = \<lparr>ijeGet = None, ijeCreate = None, ijeWait = [(Inr \<lparr>ijState = JobActive, ijMethod = RSA_OAEP_3072_SHA256, ijProtection = ProtectionHSM, ijPem = ''w''\<rparr>, None)]\<rparr>,
      giImport = Inr ''v1'', giVersion = [(Inr VersionPendingImport, False, None), (Inr VersionEnabled, False, None)]\<rparr>"

theorem gcp_import_fits_key_witness:
  "\<exists>calls. GCPImportKey (ex_gcp_crypto\<lparr>parsePKIX := (\<lambda>b. Inr (RSAKey b 3072))\<rparr>) (Inr []) None ex_gcp_import [] ex_coords ''j'' ''der'' =
     (calls, Some (Inr (''v1'', True))) \<and> giImport ex_gcp_import = Inr ''v1'' \<and> calls \<noteq> []"
proof -
  have fits: "checkImportCryptoKey (wanted_key ProtectionHSM) ProtectionHSM = None" by simp
  obtain calls where c: "GCPImportKey (ex_gcp_crypto\<lparr>parsePKIX := (\<lambda>b. Inr (RSAKey b 3072))\<rparr>) (Inr []) None ex_gcp_import [] ex_coords ''j'' ''der'' =
     (calls, Some (Inr (''v1'', True)))" "calls \<noteq> []"
    by (simp add: GCPImportKey_def GCPClientOptions_def gcpImportKey_def ex_gcp_import_def ensureImportCryptoKey_def ensureImportJob_def
        ex_coords_def wrap_with_job_def ex_gcp_crypto_def Let_def fits)
  have "giImport ex_gcp_import = Inr ''v1''"
    using gcp_import_fits_key [OF c(1), THEN conjunct2, THEN conjunct2, THEN conjunct1] by simp
  with c show ?thesis by blast
qed

end
