(* ===== verification/AwsImport.thy ===== *)
theory AwsImport
  imports AwsKms
begin

section \<open>Creating and importing AWS keys (internal/backend/awskms_provision.go, awskms_import.go)\<close>

text \<open>
  KMS's answers are arguments; the requests that change something in AWS are logged. An SDK error is
  given by what the code asks of it: whether it is a not-found or an invalid-state error.
\<close>

subsection \<open>Creating a key\<close>

datatype aws_origin = OriginAwsKms | OriginExternal | OtherOrigin
datatype aws_state = KeyEnabled | KeyPendingImport | OtherState

record key_metadata =
  kmArn :: string
  kmKeyId :: string
  kmMultiRegion :: bool
  kmSpec :: aws_spec
  kmUsage :: aws_usage
  kmOrigin :: aws_origin
  kmCustomer :: bool
  kmState :: aws_state

definition checkAWSMetadata :: "arn_parser \<Rightarrow> key_metadata option \<Rightarrow> string \<Rightarrow> aws_origin \<Rightarrow> aws_state list \<Rightarrow> go_error option" where
  "checkAWSMetadata parse meta requested origin states =
     (case meta of
        None \<Rightarrow> Some (errors_New ''empty AWS key metadata'')
      | Some m \<Rightarrow>
     (case checkAWSKeyIdentity parse requested (kmArn m) of
        Some e \<Rightarrow> Some e
      | None \<Rightarrow>
          first_error
            [check ((case parse (kmArn m) of Inl _ \<Rightarrow> [] | Inr a \<Rightarrow> arnResource a) \<noteq> ''key/'' @ kmKeyId m) ''AWS key metadata ID/ARN mismatch'',
             check (kmMultiRegion m) ''multi-Region AWS KMS keys are unsupported'',
             check (kmSpec m \<noteq> ECC_NIST_EDWARDS25519 \<or> kmUsage m \<noteq> SIGN_VERIFY \<or> kmOrigin m \<noteq> origin \<or> \<not> kmCustomer m)
               ''AWS key metadata requires customer-managed ECC_NIST_EDWARDS25519 SIGN_VERIFY'',
             check (kmState m \<notin> set states) ''AWS key state'']))"

datatype aws_call = CreateKey aws_origin | CreateAlias string string | ImportMaterial string bytes bytes

text \<open>\<open>got\<close> answers \<^verbatim>\<open>CreateKey\<close>: an error, nil, or a response with or without metadata.\<close>

definition createAWSKey :: "arn_parser \<Rightarrow> key_metadata option option result \<Rightarrow> aws_origin \<Rightarrow> string \<times> go_error option" where
  "createAWSKey parse got origin =
     (case got of
        Inl e \<Rightarrow> ([], Some (Errorf ''create AWS key (not retried)'' [e]))
      | Inr None \<Rightarrow> ([], Some (errors_New ''empty AWS CreateKey response''))
      | Inr (Some meta) \<Rightarrow>
          let keyARN = (case meta of None \<Rightarrow> [] | Some m \<Rightarrow> kmArn m);
              state = (if origin = OriginExternal then KeyPendingImport else KeyEnabled) in
          (keyARN, map_option (\<lambda>e. Errorf ''validate created AWS key'' [e]) (checkAWSMetadata parse meta [] origin [state])))"

definition AWSProvisionKey ::
  "arn_parser \<Rightarrow> go_error option \<Rightarrow> key_metadata option option result \<Rightarrow> AWSKMSConfig \<Rightarrow> aws_call list \<times> string \<times> go_error option" where
  "AWSProvisionKey parse loadErr got cfg =
     (if acKeyID cfg \<noteq> [] then ([], [], Some (errors_New ''AWS provision creates a new key; omit --aws-key-id''))
      else
     (case newAWSClient loadErr cfg of
        Inl e \<Rightarrow> ([], [], Some e)
      | Inr client \<Rightarrow> ([CreateKey OriginAwsKms], createAWSKey parse got OriginAwsKms)))"

subsection \<open>Importing a key\<close>

datatype aws_error = AwsError (not_found: bool) (invalid_state: bool) (sdk_error: go_error)

definition awsImportNotReady :: "aws_error \<Rightarrow> bool" where
  "awsImportNotReady e \<longleftrightarrow> not_found e \<or> invalid_state e"

record import_params =
  ipKeyId :: string
  ipToken :: bytes
  ipValidTo :: "time option"
  ipPublicKey :: bytes

record aws_import_env =
  aiParse :: arn_parser
  aiLoad :: "go_error option"
  aiCreate :: "key_metadata option option result"
  aiDescribe :: "aws_error + key_metadata option option"
  aiAlias :: "go_error option"
  aiTags :: "tag_page option result list"
  aiPublic :: "aws_public_key option result"
  aiParams :: "nat \<Rightarrow> aws_error + import_params option"
  aiParamsWait :: "nat \<Rightarrow> go_error option"
  aiNow :: time
  aiImport :: "string option result"
  aiImported :: "nat \<Rightarrow> aws_error + aws_public_key option"
  aiImportedWait :: "nat \<Rightarrow> go_error option"

function awsImportParameters :: "aws_import_env \<Rightarrow> nat \<Rightarrow> import_params option result" where
  "awsImportParameters env attempt =
     (case aiParams env attempt of
        Inr params \<Rightarrow> Inr params
      | Inl e \<Rightarrow>
          if \<not> not_found e \<or> attempt + 1 \<ge> awsConsistencyAttempts then Inl (Errorf ''get AWS import parameters'' [sdk_error e])
          else (case aiParamsWait env attempt of
              Some e' \<Rightarrow> Inl e'
            | None \<Rightarrow> awsImportParameters env (attempt + 1)))"
  by pat_completeness auto
termination
  by (relation "measure (\<lambda>(_, attempt). awsConsistencyAttempts - attempt)") auto

text \<open>Result ARN, readiness and error of a finished call.\<close>

type_synonym import_result = "string \<times> bool \<times> go_error option"

definition import_failed :: "go_error \<Rightarrow> import_result" where
  "import_failed e = ([], False, Some e)"

text \<open>After the material was accepted: read the public key back until it is there.\<close>

function await_imported :: "crypto_lib \<Rightarrow> aws_import_env \<Rightarrow> string \<Rightarrow> bytes \<Rightarrow> nat \<Rightarrow> import_result" where
  "await_imported cl env keyARN want attempt =
     (case aiImported env attempt of
        Inr None \<Rightarrow> import_failed (errors_New ''AWS imported public key ARN mismatch'')
      | Inr (Some pubResp) \<Rightarrow>
          if apKeyId pubResp \<noteq> keyARN then import_failed (errors_New ''AWS imported public key ARN mismatch'')
          else (case parseAWSPublicKey cl pubResp of
              Inl e \<Rightarrow> import_failed e
            | Inr pub \<Rightarrow>
                if pub \<noteq> want then import_failed (errors_New ''imported AWS key public key MISMATCH with source'')
                else (keyARN, True, None))
      | Inl e \<Rightarrow>
          if \<not> awsImportNotReady e then (keyARN, False, None)
          else if attempt + 1 < awsConsistencyAttempts then
            (case aiImportedWait env attempt of
               Some _ \<Rightarrow> (keyARN, False, None)
             | None \<Rightarrow> await_imported cl env keyARN want (attempt + 1))
          else (keyARN, False, None))"
  by pat_completeness auto
termination
  by (relation "measure (\<lambda>(_, _, _, _, attempt). awsConsistencyAttempts - attempt)") auto

text \<open>
  The material goes into a key that awaits it. The flag says whether KMS accepted the material.
\<close>

definition import_material ::
  "crypto_lib \<Rightarrow> aws_import_env \<Rightarrow> string \<Rightarrow> bytes \<Rightarrow> bytes \<Rightarrow> aws_call list \<times> bool \<times> import_result" where
  "import_material cl env keyARN want pkcs8DER =
     (case awsImportParameters env 0 of
        Inl e \<Rightarrow> ([], False, import_failed e)
      | Inr None \<Rightarrow> ([], False, import_failed (errors_New ''AWS import parameters key ARN mismatch''))
      | Inr (Some params) \<Rightarrow>
          if ipKeyId params \<noteq> keyARN then ([], False, import_failed (errors_New ''AWS import parameters key ARN mismatch''))
          else if ipToken params = [] \<or> (case ipValidTo params of None \<Rightarrow> True | Some t \<Rightarrow> \<not> t > aiNow env)
          then ([], False, import_failed (errors_New ''AWS import token is missing or expired''))
          else
     (case parsePKIX cl (ipPublicKey params) of
        Inl e \<Rightarrow> ([], False, import_failed (Errorf ''parse AWS import wrapping public key'' [e]))
      | Inr (RSAKey wrapping bits) \<Rightarrow>
          if bits \<noteq> 4096 then ([], False, import_failed (errors_New ''AWS import wrapping key must be RSA_4096''))
          else
         (case encryptOAEP cl wrapping pkcs8DER of
            Inl e \<Rightarrow> ([], False, import_failed (Errorf ''wrap AWS import material'' [e]))
          | Inr encrypted \<Rightarrow>
         (let calls = [ImportMaterial keyARN (ipToken params) encrypted] in
          case aiImport env of
            Inl e \<Rightarrow> (calls, False, import_failed (Errorf ''import AWS key material'' [e]))
          | Inr answered \<Rightarrow>
              if answered \<noteq> Some keyARN then (calls, True, import_failed (errors_New ''AWS import response key ARN mismatch''))
              else (calls, True, await_imported cl env keyARN want 0)))
      | Inr _ \<Rightarrow> ([], False, import_failed (errors_New ''AWS import wrapping key must be RSA_4096''))))"

text \<open>
  Choosing the target: the key that awaits material (\<open>Inl\<close>), or the finished call (\<open>Inr\<close>). The middle
  component is the variable \<^verbatim>\<open>keyARN\<close>, which the deferred handler reads.
\<close>

definition import_target_key ::
  "crypto_lib \<Rightarrow> aws_import_env \<Rightarrow> AWSKMSConfig \<Rightarrow> bytes \<Rightarrow> aws_call list \<times> string \<times> (string + import_result)" where
  "import_target_key cl env cfg want =
     (if acKeyID cfg = [] then
        (case createAWSKey (aiParse env) (aiCreate env) OriginExternal of
           (arn, Some e) \<Rightarrow> ([CreateKey OriginExternal], arn, Inr (import_failed e))
         | (arn, None) \<Rightarrow> ([CreateKey OriginExternal], arn, Inl arn))
      else
     (case aiDescribe env of
        Inl e \<Rightarrow>
          if \<not> HasPrefix (acKeyID cfg) ''alias/'' \<or> \<not> not_found e
          then ([], [], Inr (import_failed (Errorf ''describe AWS import target'' [sdk_error e])))
          else
         (case createAWSKey (aiParse env) (aiCreate env) OriginExternal of
            (arn, Some e') \<Rightarrow> ([CreateKey OriginExternal], arn, Inr (import_failed e'))
          | (arn, None) \<Rightarrow>
         (let calls = [CreateKey OriginExternal, CreateAlias (acKeyID cfg) arn] in
          case aiAlias env of
            Some e' \<Rightarrow> (calls, arn, Inr (import_failed (Errorf ''create alias for new key'' [e'])))
          | None \<Rightarrow> (calls, arn, Inl arn)))
      | Inr None \<Rightarrow> ([], [], Inr (import_failed (errors_New ''empty AWS DescribeKey response'')))
      | Inr (Some meta) \<Rightarrow>
     (case checkAWSMetadata (aiParse env) meta (acKeyID cfg) OriginExternal [KeyPendingImport, KeyEnabled] of
        Some e \<Rightarrow> ([], [], Inr (import_failed e))
      | None \<Rightarrow>
     (let resolved = kmArn (the meta); keyARN = (if kmState (the meta) = KeyPendingImport then resolved else []) in
      case (case aws_ClusterBinding (aiTags env) of
              Inl e \<Rightarrow> if errors_is e ErrBindingUnclaimed then None else Some e
            | Inr _ \<Rightarrow> None) of
        Some e \<Rightarrow> ([], keyARN, Inr (import_failed (Errorf ''read AWS import target claim'' [e])))
      | None \<Rightarrow>
          if kmState (the meta) \<noteq> KeyEnabled then ([], keyARN, Inl keyARN)
          else
         (case aiPublic env of
            Inl e \<Rightarrow> ([], keyARN, Inr (import_failed (Errorf ''get AWS public key'' [e])))
          | Inr None \<Rightarrow> ([], keyARN, Inr (import_failed (errors_New ''AWS public key ARN mismatch'')))
          | Inr (Some pubResp) \<Rightarrow>
              if apKeyId pubResp \<noteq> resolved then ([], keyARN, Inr (import_failed (errors_New ''AWS public key ARN mismatch'')))
              else (case parseAWSPublicKey cl pubResp of
                  Inl e \<Rightarrow> ([], keyARN, Inr (import_failed e))
                | Inr pub \<Rightarrow>
                    if pub \<noteq> want
                    then ([], keyARN, Inr (import_failed (errors_New ''AWS key is Enabled with a different public key than the source'')))
                    else ([], keyARN, Inr (resolved, True, None))))))))"

text \<open>The deferred handler names the target in an error.\<close>

definition with_recovery :: "string \<Rightarrow> bool \<Rightarrow> import_result \<Rightarrow> import_result" where
  "with_recovery keyARN materialImported res =
     (case res of
        (arn, ready, Some e) \<Rightarrow>
          if keyARN = [] then res
          else (keyARN, ready, Some (Errorf (if materialImported then ''AWS import accepted; do not re-import'' else ''AWS import target; inspect key state'') [e]))
      | _ \<Rightarrow> res)"

definition AWSImportKey :: "crypto_lib \<Rightarrow> aws_import_env \<Rightarrow> AWSKMSConfig \<Rightarrow> bytes \<Rightarrow> aws_call list \<times> import_result" where
  "AWSImportKey cl env cfg pkcs8DER =
     (case parsePKCS8 cl pkcs8DER of
        Inl e \<Rightarrow> ([], import_failed (Errorf ''parse import PKCS#8'' [e]))
      | Inr OtherPrivate \<Rightarrow> ([], import_failed (errors_New ''import material must be an Ed25519 PKCS#8 private key''))
      | Inr (Ed25519Private source) \<Rightarrow>
          if length source \<noteq> 64 then ([], import_failed (errors_New ''import material must be an Ed25519 PKCS#8 private key''))
          else
     (case newAWSClient (aiLoad env) cfg of
        Inl e \<Rightarrow> ([], import_failed e)
      | Inr client \<Rightarrow>
     (case import_target_key cl env cfg (ed25519Public cl source) of
        (calls, keyARN, Inr res) \<Rightarrow> (calls, with_recovery keyARN False res)
      | (calls, keyARN, Inl target) \<Rightarrow>
          let (calls', imported, res) = import_material cl env target (ed25519Public cl source) pkcs8DER in
          (calls @ calls', with_recovery keyARN imported res))))"

subsection \<open>Properties\<close>

text \<open>KMS reported the file's public key for a key.\<close>

definition reported :: "crypto_lib \<Rightarrow> aws_public_key \<Rightarrow> string \<Rightarrow> bytes \<Rightarrow> bool" where
  "reported cl resp arn want \<longleftrightarrow> apKeyId resp = arn \<and> parseAWSPublicKey cl resp = Inr want"

lemma await_imported_ok:
  assumes "await_imported cl env keyARN want n = (arn, rdy, er)" "n < awsConsistencyAttempts"
  shows "(rdy \<longrightarrow> er = None \<and> arn = keyARN \<and> (\<exists>m resp. m < awsConsistencyAttempts \<and> aiImported env m = Inr (Some resp) \<and> reported cl resp keyARN want)) \<and>
    (er = None \<longrightarrow> arn = keyARN) \<and> (er \<noteq> None \<longrightarrow> arn = [])"
  using assms
proof (induction cl env keyARN want n arbitrary: arn rdy er rule: await_imported.induct)
  case (1 cl env keyARN want n)
  note simps = await_imported.simps [of cl env keyARN want n] import_failed_def reported_def
  show ?case
  proof (cases "aiImported env n")
    case (Inr r)
    then show ?thesis using 1(2,3)
      by (cases r) (auto simp: simps simp del: await_imported.simps split: if_splits sum.splits)
  next
    case (Inl e)
    show ?thesis
    proof (cases "awsImportNotReady e \<and> n + 1 < awsConsistencyAttempts \<and> aiImportedWait env n = None")
      case True
      then have "await_imported cl env keyARN want (n + 1) = (arn, rdy, er)" using 1(2) Inl
        by (simp add: simps del: await_imported.simps)
      then show ?thesis using 1(1) [OF Inl] True by simp
    next
      case False
      then show ?thesis using 1(2) Inl by (auto simp: simps simp del: await_imported.simps split: if_splits option.splits)
    qed
  qed
qed

lemma import_material_ok:
  assumes "import_material cl env keyARN want der = (calls, imported, arn, rdy, er)"
  shows "(calls = [] \<or> (\<exists>tok rsa ct. calls = [ImportMaterial keyARN tok ct] \<and> encryptOAEP cl rsa der = Inr ct)) \<and>
    (rdy \<longrightarrow> er = None \<and> arn = keyARN \<and> (\<exists>m resp. aiImported env m = Inr (Some resp) \<and> reported cl resp keyARN want)) \<and>
    (er \<noteq> None \<longrightarrow> arn = [])"
proof (cases "imported \<and> aiImport env = Inr (Some keyARN)")
  case True
  then have "await_imported cl env keyARN want 0 = (arn, rdy, er)" and
      "\<exists>tok rsa ct. calls = [ImportMaterial keyARN tok ct] \<and> encryptOAEP cl rsa der = Inr ct"
    using assms by (auto simp: import_material_def Let_def simp del: await_imported.simps awsImportParameters.simps
        split: sum.splits option.splits if_splits pkix_key.splits)
  with await_imported_ok [of cl env keyARN want 0 arn rdy er] show ?thesis by (auto simp: awsConsistencyAttempts_def)
next
  case False
  then show ?thesis using assms
    by (auto simp: import_material_def import_failed_def Let_def simp del: await_imported.simps awsImportParameters.simps
        split: sum.splits option.splits if_splits pkix_key.splits)
qed

text \<open>An external key that awaits material, under its own ARN.\<close>

definition awaits_material :: "key_metadata \<Rightarrow> string \<Rightarrow> bool" where
  "awaits_material m t \<longleftrightarrow> kmArn m = t \<and> kmOrigin m = OriginExternal \<and> kmState m = KeyPendingImport"

text \<open>A key that may receive material: the one this call's \<^verbatim>\<open>CreateKey\<close> returned, or the one that
  \<^verbatim>\<open>DescribeKey\<close> found waiting for it.\<close>

definition may_receive :: "aws_import_env \<Rightarrow> aws_call list \<Rightarrow> string \<Rightarrow> bool" where
  "may_receive env calls t \<longleftrightarrow>
     CreateKey OriginExternal \<in> set calls \<and> (\<exists>m. aiCreate env = Inr (Some (Some m)) \<and> awaits_material m t) \<or>
     (\<exists>m. aiDescribe env = Inr (Some (Some m)) \<and> awaits_material m t)"

lemma created_arn: "createAWSKey parse got origin = (arn, None) \<Longrightarrow> checkAWSKeyARN parse arn = None"
  by (auto simp: createAWSKey_def checkAWSMetadata_def checkAWSKeyIdentity_def Let_def split: sum.splits option.splits)

lemma checkAWSMetadata_ok:
  "checkAWSMetadata parse meta req origin states = None \<Longrightarrow> \<exists>m. meta = Some m \<and> kmOrigin m = origin \<and> kmState m \<in> set states"
  by (auto simp: checkAWSMetadata_def split: option.splits)

lemma created_key:
  "createAWSKey parse got OriginExternal = (arn, None) \<Longrightarrow> \<exists>m. got = Inr (Some (Some m)) \<and> awaits_material m arn"
  by (auto simp: createAWSKey_def awaits_material_def Let_def split: sum.splits option.splits dest!: checkAWSMetadata_ok)

lemma import_target_key_ok:
  assumes "import_target_key cl env cfg want = (calls, keyARN, t)"
  shows "(\<forall>x tok ct. ImportMaterial x tok ct \<notin> set calls) \<and>
    (\<forall>target. t = Inl target \<longrightarrow> keyARN = target \<and> may_receive env calls target) \<and>
    (\<forall>arn rdy er. t = Inr (arn, rdy, er) \<longrightarrow>
       (rdy \<longrightarrow> er = None \<and> (\<exists>resp. aiPublic env = Inr (Some resp) \<and> reported cl resp arn want)))"
proof (cases "\<exists>meta. acKeyID cfg \<noteq> [] \<and> aiDescribe env = Inr (Some meta)")
  case False
  then show ?thesis using assms
    by (auto simp: import_target_key_def import_failed_def may_receive_def Let_def dest!: created_key
        split: if_splits sum.splits option.splits prod.splits)
next
  case True
  then obtain meta where m: "acKeyID cfg \<noteq> []" "aiDescribe env = Inr (Some meta)" by blast
  show ?thesis
  proof (cases "checkAWSMetadata (aiParse env) meta (acKeyID cfg) OriginExternal [KeyPendingImport, KeyEnabled]")
    case (Some e)
    then show ?thesis using assms m by (auto simp: import_target_key_def import_failed_def)
  next
    case None
    then obtain k where k: "meta = Some k" "kmOrigin k = OriginExternal" "kmState k \<in> {KeyPendingImport, KeyEnabled}"
      using checkAWSMetadata_ok [OF None] by auto
    show ?thesis using assms m None k
      by (auto simp: import_target_key_def import_failed_def may_receive_def awaits_material_def reported_def Let_def
          split: if_splits sum.splits option.splits)
  qed
qed

lemma AWSImportKey_run:
  assumes "AWSImportKey cl env cfg der = (calls, arn, rdy, er)"
  shows "(rdy \<longrightarrow> er = None \<and>
      (\<exists>src resp. parsePKCS8 cl der = Inr (Ed25519Private src) \<and> reported cl resp arn (ed25519Public cl src) \<and>
         (aiPublic env = Inr (Some resp) \<or> (\<exists>n. aiImported env n = Inr (Some resp))))) \<and>
    (\<forall>t tok ct. ImportMaterial t tok ct \<in> set calls \<longrightarrow>
       (\<exists>rsa. encryptOAEP cl rsa der = Inr ct) \<and> may_receive env calls t \<and> (er \<noteq> None \<longrightarrow> arn = t)) \<and>
    length (filter (\<lambda>c. \<exists>t tok ct. c = ImportMaterial t tok ct) calls) \<le> 1"
proof (cases "\<exists>src. parsePKCS8 cl der = Inr (Ed25519Private src) \<and> length src = 64 \<and> aiLoad env = None")
  case False
  then show ?thesis using assms
    by (auto simp: AWSImportKey_def import_failed_def newAWSClient_def split: sum.splits pkcs8_key.splits if_splits option.splits)
next
  case True
  then obtain src where src: "parsePKCS8 cl der = Inr (Ed25519Private src)" "length src = 64" "aiLoad env = None" by blast
  let ?want = "ed25519Public cl src"
  obtain cs keyARN t where it: "import_target_key cl env cfg ?want = (cs, keyARN, t)" by (metis surj_pair)
  note tgt = import_target_key_ok [OF it]
  have none: "filter (\<lambda>c. \<exists>t tok ct. c = ImportMaterial t tok ct) cs = []" using tgt by (auto simp: filter_empty_conv)
  show ?thesis
  proof (cases t)
    case (Inr res)
    obtain arn0 rdy0 er0 where res: "res = (arn0, rdy0, er0)" by (metis surj_pair)
    have c: "calls = cs" "(arn, rdy, er) = with_recovery keyARN False (arn0, rdy0, er0)"
      using assms src it Inr res by (auto simp: AWSImportKey_def newAWSClient_def)
    have r: "rdy0 \<longrightarrow> er0 = None \<and> (\<exists>resp. aiPublic env = Inr (Some resp) \<and> reported cl resp arn0 ?want)" using tgt Inr res by blast
    have "rdy \<longrightarrow> er = None \<and> (\<exists>resp. aiPublic env = Inr (Some resp) \<and> reported cl resp arn ?want)"
      using r c(2) by (cases er0) (auto simp: with_recovery_def split: if_splits)
    then show ?thesis using none tgt c(1) src(1) by auto
  next
    case (Inl target)
    obtain cs2 imported arn0 rdy0 er0 where im: "import_material cl env target ?want der = (cs2, imported, arn0, rdy0, er0)" by (metis surj_pair)
    have c: "calls = cs @ cs2" "(arn, rdy, er) = with_recovery keyARN imported (arn0, rdy0, er0)"
      using assms src it Inl im by (auto simp: AWSImportKey_def newAWSClient_def)
    from tgt Inl have tg: "keyARN = target" "may_receive env cs target" by auto
    note imp = import_material_ok [OF im]
    have "rdy \<longrightarrow> er = None \<and> (\<exists>n resp. aiImported env n = Inr (Some resp) \<and> reported cl resp arn ?want)"
      using imp c(2) by (cases er0) (auto simp: with_recovery_def split: if_splits)
    moreover have "er \<noteq> None \<longrightarrow> arn = target" using imp c(2) tg(1) by (cases er0) (auto simp: with_recovery_def split: if_splits)
    moreover have "may_receive env calls target" using tg(2) c(1) by (auto simp: may_receive_def)
    moreover have "cs2 = [] \<or> (\<exists>tok rsa ct. cs2 = [ImportMaterial target tok ct] \<and> encryptOAEP cl rsa der = Inr ct)" using imp by blast
    ultimately show ?thesis using none tgt c(1) src(1) by auto
  qed
qed

text \<open>
  C37: an AWS import never loses or mixes up an identity. It reports a key as ready only when KMS itself
  returned, for exactly the reported ARN, the public key of the imported file. Material is posted at
  most once, it is the wrapped file, and it goes only into the key that this call's own creation
  returned, under the ARN returned there, or into the key that KMS described under that ARN; in both
  cases KMS reported an external key waiting for material. An enabled key is never imported into. When
  the call fails after posting material, the error names the key it went to.
\<close>
theorem aws_import_keeps_identity:
  assumes "AWSImportKey cl env cfg der = (calls, arn, rdy, er)"
  shows "(rdy \<longrightarrow> er = None \<and>
      (\<exists>src resp. parsePKCS8 cl der = Inr (Ed25519Private src) \<and> reported cl resp arn (ed25519Public cl src) \<and>
         (aiPublic env = Inr (Some resp) \<or> (\<exists>n. aiImported env n = Inr (Some resp))))) \<and>
    (\<forall>t tok ct. ImportMaterial t tok ct \<in> set calls \<longrightarrow>
       (\<exists>rsa. encryptOAEP cl rsa der = Inr ct) \<and> may_receive env calls t \<and> (er \<noteq> None \<longrightarrow> arn = t)) \<and>
    length (filter (\<lambda>c. \<exists>t tok ct. c = ImportMaterial t tok ct) calls) \<le> 1"
  using AWSImportKey_run [OF assms] .

definition ex_import_crypto :: crypto_lib where
  "ex_import_crypto = ex_aws_crypto\<lparr>parsePKIX := (\<lambda>b. if length b = 32 then Inr (Ed25519Pub b) else Inr (RSAKey b 4096)), ed25519Public := drop 32\<rparr>"

definition ex_metadata :: key_metadata where
  "ex_metadata = \<lparr>kmArn = ''arn'', kmKeyId = ''k1'', kmMultiRegion = False, kmSpec = ECC_NIST_EDWARDS25519, kmUsage = SIGN_VERIFY,
     kmOrigin = OriginExternal, kmCustomer = True, kmState = KeyPendingImport\<rparr>"

definition ex_aws_import :: aws_import_env where
  "ex_aws_import = \<lparr>aiParse = ex_arn, aiLoad = None, aiCreate = Inr (Some (Some ex_metadata)), aiDescribe = Inr None, aiAlias = None, aiTags = [],
     aiPublic = Inr None, aiParams = (\<lambda>_. Inr (Some \<lparr>ipKeyId = ''arn'', ipToken = ''t'', ipValidTo = Some 1, ipPublicKey = ''w''\<rparr>)),
     aiParamsWait = (\<lambda>_. None), aiNow = 0, aiImport = Inr (Some ''arn''),
     aiImported = (\<lambda>_. Inr (Some \<lparr>apKeyId = ''arn'', apSpec = ECC_NIST_EDWARDS25519, apUsage = SIGN_VERIFY, apAlgorithms = [ED25519_SHA_512],
       apPublicKey = replicate 32 (CHR ''a'')\<rparr>)), aiImportedWait = (\<lambda>_. None)\<rparr>"

lemma ex_aws_imported:
  assumes "acKeyID cfg = []"
  shows "\<exists>calls. AWSImportKey ex_import_crypto ex_aws_import cfg (replicate 64 (CHR ''a'')) = (calls, ''arn'', True, None) \<and>
    (\<exists>tok ct. calls = [CreateKey OriginExternal, ImportMaterial ''arn'' tok ct])"
proof -
  have "checkAWSKeyARN ex_arn ''arn'' = None"
    by (simp add: checkAWSKeyARN_def ex_arn_def key_prefix_def HasPrefix_def is_digit_def digit_val_def Let_def)
  then have "checkAWSKeyIdentity ex_arn [] ''arn'' = None" by (simp add: checkAWSKeyIdentity_def HasPrefix_def)
  then have "createAWSKey ex_arn (Inr (Some (Some ex_metadata))) OriginExternal = (''arn'', None)"
    by (simp add: createAWSKey_def checkAWSMetadata_def ex_metadata_def ex_arn_def)
  with assms show ?thesis
    by (simp add: AWSImportKey_def ex_import_crypto_def ex_aws_crypto_def ex_aws_import_def newAWSClient_def import_target_key_def import_material_def
        parseAWSPublicKey_def with_recovery_def drop_replicate Let_def)
qed

theorem aws_import_keeps_identity_witness:
  "\<exists>calls. AWSImportKey ex_import_crypto ex_aws_import (ex_aws_config\<lparr>acKeyID := []\<rparr>) (replicate 64 (CHR ''a'')) = (calls, ''arn'', True, None) \<and>
     (\<exists>resp. reported ex_import_crypto resp ''arn'' (replicate 32 (CHR ''a''))) \<and> CreateKey OriginExternal \<in> set calls \<and>
     may_receive ex_aws_import calls ''arn''"
proof -
  obtain calls tok ct where c: "AWSImportKey ex_import_crypto ex_aws_import (ex_aws_config\<lparr>acKeyID := []\<rparr>) (replicate 64 (CHR ''a'')) = (calls, ''arn'', True, None)"
    and k: "calls = [CreateKey OriginExternal, ImportMaterial ''arn'' tok ct]"
    using ex_aws_imported [of "ex_aws_config\<lparr>acKeyID := []\<rparr>"] by auto
  have "parsePKCS8 ex_import_crypto (replicate 64 (CHR ''a'')) = Inr (Ed25519Private (replicate 64 (CHR ''a'')))"
    "ed25519Public ex_import_crypto (replicate 64 (CHR ''a'')) = replicate 32 (CHR ''a'')"
    by (simp_all add: ex_import_crypto_def ex_aws_crypto_def)
  with aws_import_keeps_identity [OF c] have "\<exists>resp. reported ex_import_crypto resp ''arn'' (replicate 32 (CHR ''a''))"
    "may_receive ex_aws_import calls ''arn''" by (auto simp: k)
  with c k show ?thesis by auto
qed

end
