(* ===== verification/Commands.thy ===== *)
theory Commands
  imports KeyBackend VaultImport GcpImport AwsImport
begin

section \<open>The one-shot commands (cmd/cosmosigner/cmd: claim-key, pubkey, import, provision)\<close>

text \<open>
  Each command as a function of what it meets. What it prints is kept as format (abridged) and
  operands; requests that create or import something at a provider are logged. A command is its own
  process, so it starts with no PKCS#11 module loaded.
\<close>

datatype printed = Out string "string list"

datatype provider_call = ToVault vault_write | ToAWS aws_call | ToGCP gcp_call

definition printPubKeyTo :: "string \<Rightarrow> bytes \<Rightarrow> printed" where
  "printPubKeyTo address pub = Out ''address, pubkey (base64)'' [address, b64_encode pub]"

definition awsBackendArgs :: "string \<Rightarrow> string \<Rightarrow> string" where
  "awsBackendArgs keyARN region = ''--backend awskms --aws-key-id '' @ keyARN @ (if region \<noteq> [] then '' --aws-region '' @ region else [])"

text \<open>The layers a command's backend configuration comes from.\<close>

record command_env =
  cmDefaults :: "BackendConfig result"
  cmEnviron :: "BackendConfig \<Rightarrow> BackendConfig result"
  cmFlags :: flags
  cmNew :: new_env
  cmAddress :: "bytes \<Rightarrow> string"
  cmSha256 :: "bytes \<Rightarrow> bytes"

definition load_backend :: "command_env \<Rightarrow> BackendConfig result" where
  "load_backend env = LoadBackend (cmDefaults env) (cmEnviron env) (Some (overlayBackendFlags (cmFlags env)))"

definition open_backend :: "command_env \<Rightarrow> fs \<Rightarrow> BackendConfig \<Rightarrow> KeyBackend result" where
  "open_backend env fs cfg = snd (backend_New (cmNew env) fs cfg no_modules)"

subsection \<open>claim-key\<close>

text \<open>The resource a claim is attached to, by the operands of its description.\<close>

definition pkcs11_bindingResource :: "string \<Rightarrow> PKCS11 \<Rightarrow> string list" where
  "pkcs11_bindingResource path b =
     [path, case pcSlot (pCfg b) of Some n \<Rightarrow> nat_str n | None \<Rightarrow> pcTokenLabel (pCfg b), pcKeyLabel (pCfg b), pcKeyID (pCfg b)]"

definition BindingResource :: "(bytes \<Rightarrow> bytes) \<Rightarrow> KeyBackend \<Rightarrow> string list" where
  "BindingResource sha256 b =
     (case b of
        SoftwareBackend s \<Rightarrow> [Software_bindingResource s]
      | VaultBackend v \<Rightarrow> Vault_bindingResource sha256 v
      | GCPBackend g \<Rightarrow> gcp_bindingResource g
      | AWSBackend a \<Rightarrow> aws_bindingResource a
      | PKCS11Backend path p \<Rightarrow> pkcs11_bindingResource path p)"

definition claim_warnings :: "BackendConfig \<Rightarrow> printed list" where
  "claim_warnings cfg =
     (if bType cfg = TypeGCPKMS then [Out ''WARNING: Cloud KMS label updates have no atomic compare-and-set'' []] else []) @
     (if bType cfg = TypeAWSKMS then [Out ''WARNING: AWS KMS tag updates have no atomic compare-and-set and reads are eventually consistent'' []] else [])"

definition claim_key ::
  "command_env \<Rightarrow> claiming_env \<Rightarrow> go_error option \<Rightarrow> string \<Rightarrow> world \<Rightarrow> (world \<times> printed list \<times> go_error option) option" where
  "claim_key env claiming printErr cid w =
     (case Validate cid of
        Some e \<Rightarrow> Some (w, [], Some e)
      | None \<Rightarrow>
     (case load_backend env of
        Inl e \<Rightarrow> Some (w, [], Some e)
      | Inr cfg \<Rightarrow>
     (case open_backend env (wFiles w) cfg of
        Inl e \<Rightarrow> Some (w, [], Some e)
      | Inr be \<Rightarrow>
     (case backend_ClaimCluster (neKeys (cmNew env)) (cmSha256 env) claiming cid (be, w) of
        None \<Rightarrow> None
      | Some ((be', w'), Some e) \<Rightarrow> Some (w', claim_warnings cfg, Some e)
      | Some ((be', w'), None) \<Rightarrow>
          Some (w', claim_warnings cfg @ [Out ''claimed resource for cluster'' (BindingResource (cmSha256 env) be' @ [cid])], printErr)))))"

subsection \<open>pubkey\<close>

definition pubkey :: "command_env \<Rightarrow> fs \<Rightarrow> printed list \<times> go_error option" where
  "pubkey env fs =
     (case load_backend env of
        Inl e \<Rightarrow> ([], Some e)
      | Inr cfg \<Rightarrow>
     (case open_backend env fs cfg of
        Inl e \<Rightarrow> ([], Some e)
      | Inr b \<Rightarrow>
     (case backend_PubKey (neKeys (cmNew env)) b of
        Inl e \<Rightarrow> ([], Some e)
      | Inr pub \<Rightarrow>
          ((case b of AWSBackend a \<Rightarrow> [Out ''aws key arn'' [aKeyARN a]] | _ \<Rightarrow> []) @ [printPubKeyTo (cmAddress env pub) pub], None))))"

subsection \<open>provision\<close>

record gcpCoords =
  cdProject :: string
  cdLocation :: string
  cdKeyring :: string
  cdKey :: string
  cdProtection :: string
  cdImportJob :: string

definition coords_validate :: "gcpCoords \<Rightarrow> go_error option" where
  "coords_validate g =
     check (cdProject g = [] \<or> cdKeyring g = [] \<or> cdKey g = []) ''gcpkms requires --gcp-project, --gcp-keyring and --gcp-key''"

definition protectionLevel :: "string \<Rightarrow> protection result" where
  "protectionLevel s =
     (if s = ''software'' \<or> s = [] then Inr ProtectionSoftware
      else if s = ''hsm'' then Inr ProtectionHSM
      else Inl (errors_New ''unknown protection level''))"

definition key_coords :: "gcpCoords \<Rightarrow> protection \<Rightarrow> GCPKeyCoords" where
  "key_coords g level =
     \<lparr>gcoProject = cdProject g, gcoLocation = cdLocation g, gcoKeyRing = cdKeyring g, gcoKey = cdKey g, gcoProtection = level\<rparr>"

record provisioning_env =
  prSoftware :: provision_env
  prClient :: client_env
  prVault :: vault_server
  prParse :: arn_parser
  prAWSLoad :: "go_error option"
  prAWS :: "key_metadata option option result"
  prGCPFile :: "bytes result"
  prGCPClient :: "go_error option"
  prRing :: ring_env
  prCreated :: "string result"

definition provisionSoftware ::
  "command_env \<Rightarrow> provisioning_env \<Rightarrow> string \<Rightarrow> bool \<Rightarrow> fs \<Rightarrow> (fs \<times> printed list \<times> go_error option) option" where
  "provisionSoftware env pr keyFile overwrite fs =
     (case provisionSoftwareKey (neKeys (cmNew env)) (prSoftware pr) overwrite keyFile fs of
        None \<Rightarrow> None
      | Some (fs', _, Some e) \<Rightarrow> Some (fs', [], Some e)
      | Some (fs', pub, None) \<Rightarrow>
          let k = (case pub of Some k \<Rightarrow> k | None \<Rightarrow> []) in
          Some (fs', [Out ''wrote'' [keyFile], printPubKeyTo (cmAddress env k) k], None))"

definition provisionVault :: "provisioning_env \<Rightarrow> VaultConfig \<Rightarrow> provider_call list \<times> printed list \<times> go_error option" where
  "provisionVault pr vc =
     (if vcKeyName vc = [] then ([], [], Some (errors_New ''vault backend requires --vault-key''))
      else
     (case NewVaultClient (prClient pr) vc of
        Inl e \<Rightarrow> ([], [], Some e)
      | Inr client \<Rightarrow>
     (let path = vcMount vc @ ''/keys/'' @ vcKeyName vc; req = [(''type'', AStr ''ed25519''), (''exportable'', ABool False)] in
      case vsWrite (prVault pr) client path req of
        Inl e \<Rightarrow> ([ToVault (VaultWrite path req)], [], Some (Errorf ''create transit key'' [e]))
      | Inr _ \<Rightarrow>
          ([ToVault (VaultWrite path req)], [Out ''provisioned ed25519 transit key at mount'' [vcKeyName vc, vcMount vc]], None))))"

definition provisionGCP :: "provisioning_env \<Rightarrow> gcpCoords \<Rightarrow> string \<Rightarrow> provider_call list \<times> printed list \<times> go_error option" where
  "provisionGCP pr g credsFile =
     (case coords_validate g of
        Some e \<Rightarrow> ([], [], Some e)
      | None \<Rightarrow>
     (case protectionLevel (cdProtection g) of
        Inl e \<Rightarrow> ([], [], Some e)
      | Inr level \<Rightarrow>
     (case GCPProvisionKey (prGCPFile pr) (prGCPClient pr) (prRing pr) (prCreated pr) credsFile (key_coords g level) of
        (cs, Inl e) \<Rightarrow> (map ToGCP cs, [], Some e)
      | (cs, Inr created) \<Rightarrow>
          (let version = created @ ''/cryptoKeyVersions/1'' in
           (map ToGCP cs,
            [Out ''provisioned EC_SIGN_ED25519 key'' [], Out ''key version'' [version],
             Out ''run cosmosigner with --backend gcpkms --gcp-key-version'' [version]], None)))))"

definition provision ::
  "command_env \<Rightarrow> provisioning_env \<Rightarrow> gcpCoords \<Rightarrow> bool \<Rightarrow> fs \<Rightarrow> (fs \<times> provider_call list \<times> printed list \<times> go_error option) option" where
  "provision env pr gcp overwrite fs =
     (case load_backend env of
        Inl e \<Rightarrow> Some (fs, [], [], Some e)
      | Inr be \<Rightarrow>
          if bType be = TypeSoftware \<or> bType be = [] then
            (if bSoftwareBindingFile be \<noteq> [] then Some (fs, [], [], Some (errors_New ''provision does not support --binding-file''))
             else map_option (\<lambda>(fs', out, r). (fs', [], out, r)) (provisionSoftware env pr (bSoftwareKeyFile be) overwrite fs))
          else if bType be = TypeVault then Some (fs, provisionVault pr (bVault be))
          else if bType be = TypeAWSKMS then
            (case AWSProvisionKey (prParse pr) (prAWSLoad pr) (prAWS pr) (bAWSKMS be) of
               (cs, keyARN, Some e) \<Rightarrow> Some (fs, map ToAWS cs, [], Some e)
             | (cs, keyARN, None) \<Rightarrow>
                 Some (fs, map ToAWS cs,
                   [Out ''provisioned AWS KMS Ed25519 key; run cosmosigner with'' [keyARN, awsBackendArgs keyARN (acRegion (bAWSKMS be))]], None))
          else if bType be = TypeGCPKMS then Some (fs, provisionGCP pr gcp (gcCredentialsFile (bGCPKMS be)))
          else if bType be = TypePKCS11 then
            Some (fs, [], [], Some (errors_New ''pkcs11 provision is not supported; generate the key with the vendor tool''))
          else Some (fs, [], [], Some (errors_New ''unknown backend type'')))"

subsection \<open>import\<close>

record importing_env =
  imRead :: "go_error option"
  imVault :: import_env
  imVaultServer :: vault_server
  imAWS :: aws_import_env
  imGCPFile :: "bytes result"
  imGCPClient :: "go_error option"
  imGCP :: gcp_import_env

text \<open>
  The provider's part: the configuration to read the key back with, and whether that has to wait.
  \<open>None\<close> while Cloud KMS still leaves the import pending.
\<close>

definition import_into ::
  "command_env \<Rightarrow> importing_env \<Rightarrow> BackendConfig \<Rightarrow> gcpCoords \<Rightarrow> bytes \<Rightarrow>
   provider_call list \<times> printed list \<times> (BackendConfig \<times> bool) result option" where
  "import_into env im be gcp der =
     (if bType be = TypeVault then
        (if vcKeyName (bVault be) = [] then ([], [], Some (Inl (errors_New ''vault backend requires --vault-key'')))
         else
        (case VaultImportKey (neCrypto (cmNew env)) (imVault im) (imVaultServer im) (bVault be) der of
           (ws, Some e) \<Rightarrow> (map ToVault ws, [], Some (Inl e))
         | (ws, None) \<Rightarrow>
             (map ToVault ws, [Out ''imported key into transit mount (non-exportable)'' [vcMount (bVault be), vcKeyName (bVault be)]],
              Some (Inr (be, False)))))
      else if bType be = TypeAWSKMS then
        (case AWSImportKey (neCrypto (cmNew env)) (imAWS im) (bAWSKMS be) der of
           (cs, keyARN, ready, Some e) \<Rightarrow> (map ToAWS cs, [], Some (Inl e))
         | (cs, keyARN, ready, None) \<Rightarrow>
             (map ToAWS cs, [Out ''imported key version; run cosmosigner with'' [keyARN, awsBackendArgs keyARN (acRegion (bAWSKMS be))]],
              Some (Inr (set_aws (acKeyID_update (\<lambda>_. keyARN)) be, \<not> ready))))
      else if bType be = TypeGCPKMS then
        (case coords_validate gcp of
           Some e \<Rightarrow> ([], [], Some (Inl e))
         | None \<Rightarrow>
        (case protectionLevel (cdProtection gcp) of
           Inl e \<Rightarrow> ([], [], Some (Inl e))
         | Inr level \<Rightarrow>
        (let importJob = (if cdImportJob gcp = [] then cdKey gcp @ ''-import'' else cdImportJob gcp) in
         case GCPImportKey (neCrypto (cmNew env)) (imGCPFile im) (imGCPClient im) (imGCP im) (gcCredentialsFile (bGCPKMS be))
             (key_coords gcp level) importJob der of
           (cs, None) \<Rightarrow> (map ToGCP cs, [], None)
         | (cs, Some (Inl e)) \<Rightarrow> (map ToGCP cs, [], Some (Inl e))
         | (cs, Some (Inr (version, ready))) \<Rightarrow>
             (map ToGCP cs,
              [Out ''imported key version'' [version], Out ''run cosmosigner with --backend gcpkms --gcp-key-version'' [version]],
              Some (Inr (set_gcp (gcKeyVersion_update (\<lambda>_. version)) be, \<not> ready))))))
      else ([], [], Some (Inl (errors_New ''import targets vault, gcpkms or awskms (the file already IS the software backend)''))))"

definition verified_line :: printed where
  "verified_line = Out ''verified: backend public key matches the source file'' []"

definition verifyImportedKey :: "command_env \<Rightarrow> fs \<Rightarrow> BackendConfig \<Rightarrow> bytes \<Rightarrow> printed list \<times> go_error option" where
  "verifyImportedKey env fs cfg wantPub =
     (case open_backend env fs cfg of
        Inl e \<Rightarrow> ([], Some (Errorf ''verify imported key'' [e]))
      | Inr b \<Rightarrow>
     (case backend_PubKey (neKeys (cmNew env)) b of
        Inl e \<Rightarrow> ([], Some (Errorf ''verify imported key'' [e]))
      | Inr got \<Rightarrow>
          if got \<noteq> wantPub then ([], Some (errors_New ''imported key public key MISMATCH''))
          else ([verified_line], None)))"

definition pending_lines :: "command_env \<Rightarrow> BackendConfig \<Rightarrow> bytes \<Rightarrow> printed list" where
  "pending_lines env cfg pub =
     (let aws = (bType cfg = TypeAWSKMS);
          verifyCmd = (if aws then ''cosmosigner pubkey '' @ awsBackendArgs (acKeyID (bAWSKMS cfg)) (acRegion (bAWSKMS cfg))
            else ''cosmosigner pubkey --backend gcpkms --gcp-key-version '' @ gcKeyVersion (bGCPKMS cfg) @
              (if gcCredentialsFile (bGCPKMS cfg) \<noteq> [] then '' --gcp-credentials-file '' @ gcCredentialsFile (bGCPKMS cfg) else [])) in
      [Out (if aws then ''import accepted, but KMS public key verification is pending - identity not verified yet.''
            else ''import accepted, but the key is still finalizing in KMS - identity not verified yet.'') [],
       Out ''the backend MUST end up serving this exact identity:'' [],
       printPubKeyTo (cmAddress env pub) pub,
       Out ''once the key is enabled, verify it with:'' [verifyCmd],
       Out (if aws then ''reminder: retain a protected recovery backup of the original imported material outside AWS''
            else ''destroy the source key file only AFTER that command prints the identity above'') []])"

definition import_command ::
  "command_env \<Rightarrow> importing_env \<Rightarrow> string \<Rightarrow> gcpCoords \<Rightarrow> fs \<Rightarrow> provider_call list \<times> printed list \<times> go_error option option" where
  "import_command env im from_file gcp fs =
     (case load_backend env of
        Inl e \<Rightarrow> ([], [], Some (Some e))
      | Inr be \<Rightarrow>
          if bType be = TypePKCS11 then ([], [], Some (Some (errors_New ''pkcs11 import is not supported; generate the key with the vendor tool'')))
          else if from_file = [] then ([], [], Some (Some (errors_New ''--from is required (path to priv_validator_key.json)'')))
          else
     (case LoadKeyFilePKCS8 (neKeys (cmNew env)) (imRead im) fs from_file of
        Inl e \<Rightarrow> ([], [], Some (Some e))
      | Inr (pkcs8, pub) \<Rightarrow>
     (case import_into env im be gcp pkcs8 of
        (cs, out, None) \<Rightarrow> (cs, out, None)
      | (cs, out, Some (Inl e)) \<Rightarrow> (cs, out, Some (Some e))
      | (cs, out, Some (Inr (verifyCfg, deferVerify))) \<Rightarrow>
          if deferVerify then (cs, out @ pending_lines env verifyCfg pub, Some None)
          else
            (let (out', r) = (if bType be = TypeAWSKMS then ([verified_line], None) else verifyImportedKey env fs verifyCfg pub);
                 reminder = Out (if bType be = TypeAWSKMS then ''reminder: retain a protected recovery backup of the original imported material outside AWS''
                   else ''reminder: securely destroy all copies of the source key file'') [] in
             case r of
               Some e \<Rightarrow> (cs, out @ out', Some (Some e))
             | None \<Rightarrow> (cs, out @ out' @ [printPubKeyTo (cmAddress env pub) pub, reminder], Some None)))))"
subsection \<open>Properties\<close>

text \<open>
  The two views of the standard library's ed25519 keys used by the key file and by the imports agree:
  PKCS\#8 encoding and decoding of a seed give the key whose public half is the seed's.
\<close>

definition keys_agree :: "key_lib \<Rightarrow> crypto_lib \<Rightarrow> bool" where
  "keys_agree kl cl \<longleftrightarrow>
     (\<forall>seed der. length seed = 32 \<and> klPKCS8 kl seed = Inr der \<longrightarrow>
        (\<exists>src. parsePKCS8 cl der = Inr (Ed25519Private src) \<and> ed25519Public cl src = klSeedPub kl seed)) \<and>
     (\<forall>k. length k = 64 \<longrightarrow> klPub kl (Ed25519Priv k) = PubBytes (drop 32 k))"

lemma loaded_key_public:
  assumes "keys_agree kl cl" "LoadKeyFilePKCS8 kl fault fs path = Inr (der, pub)" "parsePKCS8 cl der = Inr (Ed25519Private src)"
  shows "ed25519Public cl src = pub"
proof -
  from assms(2) obtain k where k: "length k = 64" "klSeedPub kl (take 32 k) = drop 32 k" "klPKCS8 kl (take 32 k) = Inr der"
      "pub = pub_bytes kl (Ed25519Priv k)"
    by (auto simp: LoadKeyFilePKCS8_def Let_def split: option.splits sum.splits prod.splits privkey.splits if_splits)
  have "\<exists>src. parsePKCS8 cl der = Inr (Ed25519Private src) \<and> ed25519Public cl src = klSeedPub kl (take 32 k)"
    using assms(1) k(1,3) unfolding keys_agree_def by auto
  moreover have "klPub kl (Ed25519Priv k) = PubBytes (drop 32 k)" using assms(1) k(1) unfolding keys_agree_def by blast
  ultimately show ?thesis using assms(3) k(2,4) by (auto simp: pub_bytes_def)
qed

lemma verifyImportedKey_ok:
  "verifyImportedKey env fs cfg pub = (out, None) \<longleftrightarrow>
     out = [verified_line] \<and> (\<exists>b. open_backend env fs cfg = Inr b \<and> backend_PubKey (neKeys (cmNew env)) b = Inr pub)"
  by (auto simp: verifyImportedKey_def split: sum.splits if_splits)

lemma verified_not_pending: "verified_line \<notin> set (pending_lines env cfg pub)"
  by (simp add: pending_lines_def verified_line_def printPubKeyTo_def Let_def)

text \<open>What an accepted import made: the provider's own import of the material into the configured target
  ended without an error after the calls \<open>cs\<close>, \<open>cfg\<close> is the configuration that names the key it made,
  and \<open>ready\<close> says whether the provider serves it already.\<close>

definition import_made ::
  "command_env \<Rightarrow> importing_env \<Rightarrow> BackendConfig \<Rightarrow> gcpCoords \<Rightarrow> bytes \<Rightarrow> provider_call list \<Rightarrow> BackendConfig \<Rightarrow> bool \<Rightarrow> bool" where
  "import_made env im be gcp der cs cfg ready \<longleftrightarrow>
     (let cl = neCrypto (cmNew env) in
      bType be = TypeVault \<and> cfg = be \<and> ready \<and>
        (\<exists>ws. VaultImportKey cl (imVault im) (imVaultServer im) (bVault be) der = (ws, None) \<and> cs = map ToVault ws) \<or>
      bType be = TypeAWSKMS \<and>
        (\<exists>as arn. AWSImportKey cl (imAWS im) (bAWSKMS be) der = (as, arn, ready, None) \<and> cs = map ToAWS as \<and>
           cfg = be\<lparr>bAWSKMS := (bAWSKMS be)\<lparr>acKeyID := arn\<rparr>\<rparr>) \<or>
      bType be = TypeGCPKMS \<and>
        (\<exists>level gs version. protectionLevel (cdProtection gcp) = Inr level \<and>
           GCPImportKey cl (imGCPFile im) (imGCPClient im) (imGCP im) (gcCredentialsFile (bGCPKMS be)) (key_coords gcp level)
             (if cdImportJob gcp = [] then cdKey gcp @ ''-import'' else cdImportJob gcp) der = (gs, Some (Inr (version, ready))) \<and>
           cs = map ToGCP gs \<and> cfg = be\<lparr>bGCPKMS := (bGCPKMS be)\<lparr>gcKeyVersion := version\<rparr>\<rparr>))"

lemma import_into_made:
  assumes "import_into env im be gcp der = (cs, out, Some (Inr (vcfg, defer_it)))"
  shows "import_made env im be gcp der cs vcfg (\<not> defer_it)" "verified_line \<notin> set out"
proof -
  consider (v) "bType be = TypeVault" | (a) "bType be = TypeAWSKMS" | (g) "bType be = TypeGCPKMS"
    using assms by (auto simp: import_into_def split: if_splits)
  then show "import_made env im be gcp der cs vcfg (\<not> defer_it)"
  proof cases
    case v
    with assms show ?thesis by (auto simp: import_into_def import_made_def Let_def split: if_splits option.splits prod.splits)
  next
    case a
    then have "bType be \<noteq> TypeVault" by (simp add: backend_types)
    with a assms show ?thesis
      by (auto simp: import_into_def import_made_def set_aws_def Let_def split: option.splits prod.splits)
  next
    case g
    then have "bType be \<noteq> TypeVault" "bType be \<noteq> TypeAWSKMS" by (simp_all add: backend_types)
    with g assms show ?thesis
      by (auto simp: import_into_def import_made_def set_gcp_def Let_def split: option.splits prod.splits sum.splits)
  qed
  show "verified_line \<notin> set out"
    using assms by (auto simp: import_into_def Let_def verified_line_def split: if_splits option.splits sum.splits prod.splits)
qed

lemma import_made_type: "import_made env im be gcp der cs cfg ready \<Longrightarrow>
   bType be \<in> {TypeVault, TypeGCPKMS, TypeAWSKMS} \<and> bType cfg = bType be \<and> (\<not> ready \<longrightarrow> bType be \<noteq> TypeVault)"
  by (auto simp: import_made_def Let_def backend_types)

lemma import_made_aws:
  assumes "import_made env im be gcp der cs cfg True" "bType be = TypeAWSKMS"
  shows "\<exists>src resp. parsePKCS8 (neCrypto (cmNew env)) der = Inr (Ed25519Private src) \<and>
    reported (neCrypto (cmNew env)) resp (acKeyID (bAWSKMS cfg)) (ed25519Public (neCrypto (cmNew env)) src) \<and>
    (aiPublic (imAWS im) = Inr (Some resp) \<or> (\<exists>n. aiImported (imAWS im) n = Inr (Some resp)))"
proof -
  from assms obtain as arn where "AWSImportKey (neCrypto (cmNew env)) (imAWS im) (bAWSKMS be) der = (as, arn, True, None)"
    "acKeyID (bAWSKMS cfg) = arn" by (auto simp: import_made_def Let_def backend_types)
  from AWSImportKey_run [OF this(1)] this(2) show ?thesis by auto
qed

text \<open>
  C33: an import that succeeds either checked the identity of the key it made or says that it is still
  to be checked. On success the material of the source file was imported into the configured Vault key,
  AWS key or Cloud KMS key by that provider's own import, and the source file's public key is printed.
  When the provider serves the key already, the command says "verified", and it does so only after the
  key that this import made (the configured Vault key, the imported Cloud KMS version), opened as a
  backend, had exactly the source file's public key, or for AWS after KMS reported that public key for
  the imported ARN. Otherwise it does not say so, but prints for that same version or ARN that the
  identity is not verified yet and which identity it must end up with; this happens only for the two KMS
  backends.
\<close>
theorem import_confirms_identity:
  assumes "keys_agree (neKeys (cmNew env)) (neCrypto (cmNew env))" "import_command env im from_file gcp fs = (cs, out, Some None)"
  shows "\<exists>be der pub cfg ready. load_backend env = Inr be \<and>
    LoadKeyFilePKCS8 (neKeys (cmNew env)) (imRead im) fs from_file = Inr (der, pub) \<and>
    import_made env im be gcp der cs cfg ready \<and> printPubKeyTo (cmAddress env pub) pub \<in> set out \<and>
    (if ready
     then verified_line \<in> set out \<and>
       (if bType be = TypeAWSKMS
        then \<exists>resp. reported (neCrypto (cmNew env)) resp (acKeyID (bAWSKMS cfg)) pub \<and>
          (aiPublic (imAWS im) = Inr (Some resp) \<or> (\<exists>n. aiImported (imAWS im) n = Inr (Some resp)))
        else \<exists>b. open_backend env fs cfg = Inr b \<and> backend_PubKey (neKeys (cmNew env)) b = Inr pub)
     else verified_line \<notin> set out \<and> bType be \<noteq> TypeVault \<and> set (pending_lines env cfg pub) \<subseteq> set out)"
proof -
  from assms(2) obtain be der pub out0 vcfg d where
    run: "load_backend env = Inr be" "LoadKeyFilePKCS8 (neKeys (cmNew env)) (imRead im) fs from_file = Inr (der, pub)"
      "import_into env im be gcp der = (cs, out0, Some (Inr (vcfg, d)))"
    by (auto simp: import_command_def Let_def split: sum.splits if_splits prod.splits option.splits)
  note made = import_into_made [OF run(3)]
  show ?thesis
  proof (cases d)
    case True
    then have out: "out = out0 @ pending_lines env vcfg pub"
      using assms(2) run by (auto simp: import_command_def split: if_splits)
    have "printPubKeyTo (cmAddress env pub) pub \<in> set (pending_lines env vcfg pub)" by (simp add: pending_lines_def Let_def)
    moreover have "verified_line \<notin> set out" using out made(2) verified_not_pending by auto
    moreover have "bType be \<noteq> TypeVault" using import_made_type [OF made(1)] True by simp
    ultimately show ?thesis using run(1,2) made(1) True out
      by (intro exI [of _ be] exI [of _ der] exI [of _ pub] exI [of _ vcfg] exI [of _ False]) simp
  next
    case False
    then obtain out' r reminder where o: "(out', r) = (if bType be = TypeAWSKMS then ([verified_line], None) else verifyImportedKey env fs vcfg pub)"
        "r = None" "out = out0 @ out' @ [printPubKeyTo (cmAddress env pub) pub, reminder]"
      using assms(2) run by (auto simp: import_command_def Let_def split: if_splits prod.splits option.splits)
    have v: "out' = [verified_line]" using o(1,2) verifyImportedKey_ok [of env fs vcfg pub out'] by (auto split: if_splits)
    have b: "\<exists>b. open_backend env fs vcfg = Inr b \<and> backend_PubKey (neKeys (cmNew env)) b = Inr pub" if "bType be \<noteq> TypeAWSKMS"
      using o(1,2) that verifyImportedKey_ok [of env fs vcfg pub out'] by auto
    have a: "\<exists>resp. reported (neCrypto (cmNew env)) resp (acKeyID (bAWSKMS vcfg)) pub \<and>
          (aiPublic (imAWS im) = Inr (Some resp) \<or> (\<exists>n. aiImported (imAWS im) n = Inr (Some resp)))" if "bType be = TypeAWSKMS"
      using import_made_aws [OF _ that] made(1) False loaded_key_public [OF assms(1) run(2)] by fastforce
    show ?thesis using run(1,2) made(1) False a b o(3) v
      by (intro exI [of _ be] exI [of _ der] exI [of _ pub] exI [of _ vcfg] exI [of _ True]) simp
  qed
qed

definition ex_import_lib :: key_lib where
  "ex_import_lib = ex_lib\<lparr>klPKCS8 := (\<lambda>s. Inr (s @ s))\<rparr>"

definition ex_new_env :: new_env where
  "ex_new_env = \<lparr>neKeys = ex_import_lib, neCrypto = ex_import_crypto, nePaths = ex_paths, neKeyFile = ex_keyfile,
     neVaultClient = ex_client_env, neVault = ex_vault_server, neGCP = ex_gcp_env, neAWS = ex_aws_env, nePKCS11 = None\<rparr>"

definition ex_command :: "BackendConfig \<Rightarrow> command_env" where
  "ex_command cfg = \<lparr>cmDefaults = Inr cfg, cmEnviron = Inr, cmFlags = Map.empty, cmNew = ex_new_env, cmAddress = (\<lambda>k. k), cmSha256 = (\<lambda>b. b)\<rparr>"

lemma ex_command_loads: "load_backend (ex_command cfg) = Inr cfg"
  by (simp add: load_backend_def LoadBackend_def ex_command_def overlayBackendFlags_def overlay_pkcs11_selector_def on_string_def on_int_def)

lemma ex_keys_agree: "keys_agree ex_import_lib ex_import_crypto"
  by (simp add: keys_agree_def ex_import_lib_def ex_lib_def ex_import_crypto_def ex_aws_crypto_def)

definition ex_importing :: importing_env where
  "ex_importing = \<lparr>imRead = None, imVault = ex_import, imVaultServer = ex_empty_vault, imAWS = ex_aws_import, imGCPFile = Inr [],
     imGCPClient = None, imGCP = ex_gcp_import\<rparr>"

definition ex_gcp_coords :: gcpCoords where
  "ex_gcp_coords = \<lparr>cdProject = ''p'', cdLocation = ''l'', cdKeyring = ''r'', cdKey = ''k'', cdProtection = ''hsm'', cdImportJob = []\<rparr>"

theorem import_confirms_identity_witness:
  "\<exists>cs out. import_command (ex_command (ex_backend_config\<lparr>bType := TypeAWSKMS\<rparr>)) ex_importing ''/k'' ex_gcp_coords [''/k'' \<mapsto> ex_priv] = (cs, out, Some None) \<and>
     verified_line \<in> set out \<and> printPubKeyTo (replicate 32 (CHR ''a'')) (replicate 32 (CHR ''a'')) \<in> set out \<and>
     (\<exists>resp cfg. reported ex_import_crypto resp (acKeyID (bAWSKMS cfg)) (replicate 32 (CHR ''a'')) \<and>
        import_made (ex_command (ex_backend_config\<lparr>bType := TypeAWSKMS\<rparr>)) ex_importing (ex_backend_config\<lparr>bType := TypeAWSKMS\<rparr>)
          ex_gcp_coords (replicate 64 (CHR ''a'')) cs cfg True)"
proof -
  let ?cfg = "ex_backend_config\<lparr>bType := TypeAWSKMS\<rparr>"
  have ak: "acKeyID (bAWSKMS ?cfg) = []" by (simp add: ex_backend_config_def)
  obtain calls where c: "AWSImportKey ex_import_crypto ex_aws_import (bAWSKMS ?cfg) (replicate 64 (CHR ''a'')) = (calls, ''arn'', True, None)"
    using ex_aws_imported [OF ak] by blast
  have l: "LoadKeyFilePKCS8 ex_import_lib None [''/k'' \<mapsto> ex_priv] ''/k'' = Inr (replicate 64 (CHR ''a''), replicate 32 (CHR ''a''))"
    by (simp add: LoadKeyFilePKCS8_def os_ReadFile_def ex_import_lib_def ex_lib_def ex_priv_def pub_bytes_def replicate_add [symmetric])
  have e: "cmNew (ex_command ?cfg) = ex_new_env" "neKeys ex_new_env = ex_import_lib" "neCrypto ex_new_env = ex_import_crypto"
    "imRead ex_importing = None" "imAWS ex_importing = ex_aws_import"
    by (simp_all add: ex_command_def ex_new_env_def ex_importing_def)
  have t: "bType ?cfg = TypeAWSKMS" "TypeAWSKMS \<noteq> TypeVault" "TypeAWSKMS \<noteq> TypePKCS11" by (simp_all add: backend_types)
  have "\<exists>out. import_command (ex_command ?cfg) ex_importing ''/k'' ex_gcp_coords [''/k'' \<mapsto> ex_priv] = (map ToAWS calls, out, Some None) \<and> verified_line \<in> set out"
    using l c by (simp add: import_command_def ex_command_loads import_into_def e t)
  then obtain out where o: "import_command (ex_command ?cfg) ex_importing ''/k'' ex_gcp_coords [''/k'' \<mapsto> ex_priv] = (map ToAWS calls, out, Some None)"
    "verified_line \<in> set out" by blast
  from import_confirms_identity [OF _ o(1)] obtain be der pub cfg ready where
    "load_backend (ex_command ?cfg) = Inr be" and p: "LoadKeyFilePKCS8 ex_import_lib None [''/k'' \<mapsto> ex_priv] ''/k'' = Inr (der, pub)"
    and m: "import_made (ex_command ?cfg) ex_importing be ex_gcp_coords der (map ToAWS calls) cfg ready"
    and pr: "printPubKeyTo (cmAddress (ex_command ?cfg) pub) pub \<in> set out"
    and r: "if ready then verified_line \<in> set out \<and> (if bType be = TypeAWSKMS
        then \<exists>resp. reported ex_import_crypto resp (acKeyID (bAWSKMS cfg)) pub \<and>
          (aiPublic ex_aws_import = Inr (Some resp) \<or> (\<exists>n. aiImported ex_aws_import n = Inr (Some resp)))
        else \<exists>b. open_backend (ex_command ?cfg) [''/k'' \<mapsto> ex_priv] cfg = Inr b \<and> backend_PubKey ex_import_lib b = Inr pub)
      else verified_line \<notin> set out \<and> bType be \<noteq> TypeVault \<and> set (pending_lines (ex_command ?cfg) cfg pub) \<subseteq> set out"
    using ex_keys_agree unfolding e by blast
  then have be: "be = ?cfg" by (simp add: ex_command_loads)
  have dp: "der = replicate 64 (CHR ''a'')" "pub = replicate 32 (CHR ''a'')" using p l by auto
  have "ready" using r o(2) by (auto split: if_splits)
  with r m pr o show ?thesis unfolding be dp by (auto simp: ex_command_def)
qed

text \<open>
  Claim-key never moves a claim. It changes nothing for an identifier that is not a canonical
  UUID; when it reports the claim, the opened key resource belongs to the given cluster and belonged
  to no other before; and a resource that has an owner keeps it whatever the outcome.
\<close>
theorem claim_key_keeps_owner:
  assumes "\<forall>cfg b. load_backend env = Inr cfg \<and> open_backend env (wFiles w) cfg = Inr b \<longrightarrow> backend_fair (neKeys (cmNew env)) b claiming"
    "claim_key env claiming printErr cid w = Some (w', out, r)"
  shows "(\<not> valid_id cid \<longrightarrow> w' = w \<and> r \<noteq> None) \<and>
    (\<forall>res. Out ''claimed resource for cluster'' res \<in> set out \<or> r = None \<longrightarrow>
       (\<exists>cfg b. load_backend env = Inr cfg \<and> open_backend env (wFiles w) cfg = Inr b \<and>
          backend_owner (neKeys (cmNew env)) b w' = Some cid \<and> backend_owner (neKeys (cmNew env)) b w \<in> {None, Some cid})) \<and>
    (\<forall>cfg b a. load_backend env = Inr cfg \<and> open_backend env (wFiles w) cfg = Inr b \<and> backend_owner (neKeys (cmNew env)) b w = Some a \<longrightarrow>
       backend_owner (neKeys (cmNew env)) b w' = Some a)"
proof (cases "\<exists>cfg b. valid_id cid \<and> load_backend env = Inr cfg \<and> open_backend env (wFiles w) cfg = Inr b")
  case False
  then have "w' = w" "out = []" "r \<noteq> None"
    using assms(2) by (cases "Validate cid"; auto simp: claim_key_def split: sum.splits)+
  then show ?thesis by auto
next
  case True
  then obtain cfg b where o: "valid_id cid" "load_backend env = Inr cfg" "open_backend env (wFiles w) cfg = Inr b" by blast
  have f: "backend_fair (neKeys (cmNew env)) b claiming" using assms(1) o by blast
  from assms(2) o obtain be' r0 where c: "backend_ClaimCluster (neKeys (cmNew env)) (cmSha256 env) claiming cid (b, w) = Some ((be', w'), r0)"
      "r0 = None \<or> (r = r0 \<and> out = claim_warnings cfg)"
    by (auto simp: claim_key_def split: option.splits)
  have cw: "claim_world (neKeys (cmNew env)) (cmSha256 env) b claiming cid w = Some (w', r0)" using c(1) by (simp add: claim_world_def)
  have keep: "backend_owner (neKeys (cmNew env)) b w' = Some a" if "backend_owner (neKeys (cmNew env)) b w = Some a" for a
    using backend_registry.claim_keeps_owner [OF f that cw] .
  have own: "backend_owner (neKeys (cmNew env)) b w' = Some cid" if "r0 = None"
    using backend_registry.claim_owns [OF f] cw that by simp
  have r0: "r0 = None" if "Out ''claimed resource for cluster'' res \<in> set out \<or> r = None" for res
    using c(2) that by (auto simp: claim_warnings_def split: if_splits)
  have before: "backend_owner (neKeys (cmNew env)) b w \<in> {None, Some cid}" if "r0 = None"
    using keep own [OF that] by (cases "backend_owner (neKeys (cmNew env)) b w") auto
  have only: "b' = b" if "load_backend env = Inr cfg'" "open_backend env (wFiles w) cfg' = Inr b'" for cfg' b' using that o by simp
  have "\<forall>cfg b a. load_backend env = Inr cfg \<and> open_backend env (wFiles w) cfg = Inr b \<and> backend_owner (neKeys (cmNew env)) b w = Some a \<longrightarrow>
       backend_owner (neKeys (cmNew env)) b w' = Some a" using keep only by metis
  then show ?thesis by (intro conjI) (use o r0 own before in blast)+
qed

definition ex_software_config :: BackendConfig where
  "ex_software_config = ex_backend_config\<lparr>bSoftwareKeyFile := ''/k''\<rparr>"

definition ex_world :: world where
  "ex_world = \<lparr>wFiles = [''/k'' \<mapsto> ex_priv], wRecord = None, wLabels = Map.empty, wTags = Map.empty\<rparr>"

definition ex_claiming :: claiming_env where
  "ex_claiming = \<lparr>cgKeyFile = ex_keyfile, cgFile = quiet_env ''1'', cgVault = honest_kv,
     cgGCP = honest_gcp \<lparr>gKeyVersion = [], gKeyResource = [], gTimeout = 0, gPub = []\<rparr>, cgAWS = honest_aws,
     cgOpen = ex_open, cgKeys = ex_open, cgCtx = None\<rparr>"

definition ex_software_command :: command_env where
  "ex_software_command = (ex_command ex_software_config)\<lparr>cmNew := ex_new_env\<lparr>neKeys := ex_lib\<rparr>\<rparr>"

lemma ex_software_opened:
  "load_backend ex_software_command = Inr ex_software_config"
  "open_backend ex_software_command [''/k'' \<mapsto> ex_priv] ex_software_config = Inr (SoftwareBackend ex_software)"
proof -
  show "load_backend ex_software_command = Inr ex_software_config"
    using ex_command_loads [of ex_software_config] by (simp add: ex_software_command_def load_backend_def)
  have "bType ex_software_config = TypeSoftware" "bSoftwareKeyFile ex_software_config = ''/k''" "bSoftwareBindingFile ex_software_config = []"
    by (simp_all add: ex_software_config_def ex_backend_config_def)
  then show "open_backend ex_software_command [''/k'' \<mapsto> ex_priv] ex_software_config = Inr (SoftwareBackend ex_software)"
    by (simp add: open_backend_def backend_New_def ex_software_command_def ex_new_env_def ex_software_new)
qed

theorem claim_key_keeps_owner_witness:
  "\<exists>w' out. claim_key ex_software_command ex_claiming None ex_uuid ex_world = Some (w', out, None) \<and>
     backend_owner ex_lib (SoftwareBackend ex_software) w' = Some ex_uuid"
proof -
  let ?env = ex_software_command
  have l: "neKeys (cmNew ?env) = ex_lib" "wFiles ex_world = [''/k'' \<mapsto> ex_priv]" by (simp_all add: ex_software_command_def ex_world_def)
  obtain fs1 where "Software_ClaimCluster ex_lib ex_software ex_keyfile (quiet_env ''1'') ex_uuid [''/k'' \<mapsto> ex_priv] = Some (fs1, None)"
    using ex_software_claim by blast
  then obtain w' out where c: "claim_key ?env ex_claiming None ex_uuid ex_world = Some (w', out, None)"
    by (simp add: claim_key_def ex_uuid_valid ex_software_opened l backend_ClaimCluster_def ex_claiming_def)
  have "backend_fair ex_lib (SoftwareBackend ex_software) ex_claiming"
    using NewSoftware_wf(1) [OF ex_software_new] by (simp add: backend_fair_def ex_claiming_def)
  then have f: "\<forall>cfg b. load_backend ?env = Inr cfg \<and> open_backend ?env (wFiles ex_world) cfg = Inr b \<longrightarrow> backend_fair (neKeys (cmNew ?env)) b ex_claiming"
    using ex_software_opened by (simp add: l)
  from claim_key_keeps_owner [OF f c] ex_software_opened c show ?thesis by (auto simp: l)
qed

lemma GCPProvisionKey_calls:
  assumes "GCPProvisionKey cf ce ring created creds cfg = (ks, x)"
  shows "set ks \<subseteq> {c. \<exists>a b. c = CreateKeyRing a b} \<union> {CreateCryptoKey (keyRingName cfg) (gcoKey cfg) (wanted_key (gcoProtection cfg)) False}"
proof -
  obtain rs rr where r: "ensureKeyRing ring cfg = (rs, rr)" by fastforce
  show ?thesis using assms ensureKeyRing_calls [OF r] r
    by (auto simp: GCPProvisionKey_def gcpProvisionKey_def split: sum.splits option.splits)
qed

lemma provisionGCP_calls:
  assumes "provisionGCP pr gcp creds = (cs, out, r)" "c \<in> set cs"
  shows "(\<exists>a b. c = ToGCP (CreateKeyRing a b)) \<or>
    (\<exists>a level. protectionLevel (cdProtection gcp) = Inr level \<and> c = ToGCP (CreateCryptoKey a (cdKey gcp) (wanted_key level) False))"
proof -
  from assms obtain level ks x where p: "protectionLevel (cdProtection gcp) = Inr level" "cs = map ToGCP ks"
      "GCPProvisionKey (prGCPFile pr) (prGCPClient pr) (prRing pr) (prCreated pr) creds (key_coords gcp level) = (ks, x)"
    by (auto simp: provisionGCP_def Let_def split: option.splits sum.splits prod.splits)
  from GCPProvisionKey_calls [OF p(3)] p(1,2) assms(2) show ?thesis by (auto simp: key_coords_def)
qed

text \<open>
  Provisioning only ever creates keys that stay inside their provider. Every request it makes
  creates a key: in Vault an ed25519 key that cannot be exported, in Cloud KMS an ed25519 signing key
  of the requested protection level (and its key ring), in AWS KMS a key with AWS-generated material;
  none imports material. Only the software backend touches the file system, and never with a
  relocated marker.
\<close>
theorem provision_creates_only:
  assumes "provision env pr gcp overwrite fs = Some (fs', cs, out, r)"
  shows "(\<forall>c\<in>set cs.
       (\<exists>path. c = ToVault (VaultWrite path [(''type'', AStr ''ed25519''), (''exportable'', ABool False)])) \<or>
       (\<exists>a b. c = ToGCP (CreateKeyRing a b)) \<or>
       (\<exists>a level. protectionLevel (cdProtection gcp) = Inr level \<and> c = ToGCP (CreateCryptoKey a (cdKey gcp) (wanted_key level) False)) \<or>
       c = ToAWS (CreateKey OriginAwsKms)) \<and>
    (fs' \<noteq> fs \<longrightarrow> (\<exists>be. load_backend env = Inr be \<and> bType be \<in> {TypeSoftware, []} \<and> bSoftwareBindingFile be = [] \<and> cs = [])) \<and>
    (r = None \<longrightarrow> (\<exists>be. load_backend env = Inr be \<and> bType be \<in> {TypeSoftware, [], TypeVault, TypeGCPKMS, TypeAWSKMS}))"
proof (cases "load_backend env")
  case (Inl e)
  then show ?thesis using assms by (auto simp: provision_def)
next
  case (Inr be)
  consider (sw) "bType be = TypeSoftware \<or> bType be = []" | (vault) "bType be = TypeVault" | (aws) "bType be = TypeAWSKMS"
    | (gcp) "bType be = TypeGCPKMS" | (other) "bType be \<notin> {TypeSoftware, [], TypeVault, TypeGCPKMS, TypeAWSKMS}" by auto
  then show ?thesis
  proof cases
    case sw
    then show ?thesis using assms Inr by (auto simp: provision_def split: if_splits)
  next
    case vault
    then have "provisionVault pr (bVault be) = (cs, out, r)" "fs' = fs" using assms Inr by (auto simp: provision_def backend_types)
    then show ?thesis using Inr vault by (auto simp: provisionVault_def Let_def split: if_splits sum.splits)
  next
    case aws
    then have "fs' = fs" "set cs \<subseteq> {ToAWS (CreateKey OriginAwsKms)}"
      using assms Inr by (auto simp: provision_def backend_types AWSProvisionKey_def split: if_splits sum.splits prod.splits option.splits)
    then show ?thesis using Inr aws by auto
  next
    case gcp
    then have g: "provisionGCP pr gcp (gcCredentialsFile (bGCPKMS be)) = (cs, out, r)" "fs' = fs"
      using assms Inr by (auto simp: provision_def backend_types)
    show ?thesis using provisionGCP_calls [OF g(1)] g(2) Inr gcp by (intro conjI ballI) (blast, simp_all)
  next
    case other
    then have "cs = []" "fs' = fs" "r \<noteq> None" using assms Inr by (auto simp: provision_def split: if_splits)
    then show ?thesis by auto
  qed
qed

definition ex_provisioning :: provisioning_env where
  "ex_provisioning = \<lparr>prSoftware = ex_provision, prClient = ex_client_env, prVault = ex_vault_server, prParse = ex_arn, prAWSLoad = None,
     prAWS = Inr None, prGCPFile = Inr [], prGCPClient = None, prRing = \<lparr>reGet = None, reCreate = None\<rparr>, prCreated = Inr ''key''\<rparr>"

theorem provision_creates_only_witness:
  "\<exists>cs out. provision (ex_command (ex_backend_config\<lparr>bType := TypeGCPKMS\<rparr>)) ex_provisioning ex_gcp_coords False Map.empty =
     Some (Map.empty, cs, out, None) \<and> length cs = 1 \<and>
     (\<forall>c\<in>set cs. \<exists>a. c = ToGCP (CreateCryptoKey a ''k'' (wanted_key ProtectionHSM) False))"
proof -
  have t: "TypeGCPKMS \<notin> {TypeSoftware, [], TypeVault, TypeAWSKMS}" by (simp add: backend_types)
  obtain c0 out where c: "provision (ex_command (ex_backend_config\<lparr>bType := TypeGCPKMS\<rparr>)) ex_provisioning ex_gcp_coords False Map.empty =
     Some (Map.empty, [ToGCP (CreateCryptoKey c0 ''k'' (wanted_key ProtectionHSM) False)], out, None)"
    using t by (simp add: provision_def ex_command_loads provisionGCP_def coords_validate_def check_def ex_gcp_coords_def protectionLevel_def
        GCPProvisionKey_def GCPClientOptions_def gcpProvisionKey_def ensureKeyRing_def ex_provisioning_def ex_backend_config_def key_coords_def Let_def)
  from provision_creates_only [OF c] c show ?thesis by auto
qed

end
