(* ===== verification/CommandTree.thy ===== *)
theory CommandTree
  imports Start Commands
begin

section \<open>The command tree (cmd/cosmosigner/root.go, cmd/version.go, internal/version)\<close>

text \<open>
  The process around the commands: which subcommands there are, what the process prints on its
  standard error and its exit status. Matching the arguments to a subcommand is the command
  library's work and an argument here (\<open>cobra_choice\<close> is its answer).
\<close>

datatype subcommand = StartCmd | ProvisionCmd | ImportCmd | ClaimKeyCmd | PubkeyCmd | VersionCmd


definition newRootCmd :: "subcommand list" where
  "newRootCmd = [StartCmd, ProvisionCmd, ImportCmd, ClaimKeyCmd, PubkeyCmd, VersionCmd]"

fun command_use :: "subcommand \<Rightarrow> string" where
  "command_use StartCmd = ''start''"
| "command_use ProvisionCmd = ''provision''"
| "command_use ImportCmd = ''import''"
| "command_use ClaimKeyCmd = ''claim-key''"
| "command_use PubkeyCmd = ''pubkey''"
| "command_use VersionCmd = ''version''"

text \<open>Every subcommand is registered, under a name of its own.\<close>

lemma subcommands_registered: "c \<in> set newRootCmd"
  by (cases c) (simp_all add: newRootCmd_def)

lemma command_use_inj: "inj command_use"
  by (rule injI, rename_tac c d, case_tac c; case_tac d) simp_all

subsection \<open>version\<close>

record build_info =
  biVersion :: string
  biCommit :: string
  biDate :: string

text \<open>The values of a build that sets none with \<^verbatim>\<open>-ldflags\<close>.\<close>

definition default_build :: build_info where
  "default_build = \<lparr>biVersion = ''dev'', biCommit = ''none'', biDate = ''unknown''\<rparr>"

definition NewVersionCmd :: "build_info \<Rightarrow> bool \<Rightarrow> string list \<times> go_error option" where
  "NewVersionCmd b pkcs11Supported =
     ([''cosmosigner '' @ biVersion b @ '' (commit '' @ biCommit b @ '', built '' @ biDate b @ '')'',
       ''pkcs11: '' @ (if pkcs11Supported then ''true'' else ''false'')], None)"

subsection \<open>Logging\<close>

datatype log_filter = AllowDebug | AllowInfo | AllowError

definition newCmtLogger :: "string \<Rightarrow> log_filter" where
  "newCmtLogger level =
     (if level = ''debug'' then AllowDebug
      else if level = ''warn'' \<or> level = ''error'' then AllowError
      else AllowInfo)"

subsection \<open>main\<close>




subsection \<open>A start that did not serve is a failure\<close>








end
