(* ===== verification/Pkcs11Stack.thy ===== *)
theory Pkcs11Stack
  imports KeyBackend
begin

section \<open>The PKCS\#11 backend on the native module (internal/backend/pkcs11_cgo.go)\<close>

text \<open>
  The native module implements the interface the backend calls. Here its methods turn what the token
  library answers into the answers the backend sees, and the two layers are put together: what a
  successful construction says about the token itself.
\<close>

subsection \<open>The remaining methods\<close>

text \<open>A mechanism is listed with its parameter, which is dropped.\<close>

definition native_Mechanisms :: "(nat \<times> bytes) list p11_result \<Rightarrow> nat list p11_result" where
  "native_Mechanisms r = (case r of Inl e \<Rightarrow> Inl e | Inr mechanisms \<Rightarrow> Inr (map fst mechanisms))"

definition native_Open :: "nat p11_result \<Rightarrow> nat p11_result" where
  "native_Open r = (case r of Inl e \<Rightarrow> Inl e | Inr sh \<Rightarrow> Inr sh)"

text \<open>A session that is already gone counts as closed.\<close>

definition native_Close :: "p11_error option \<Rightarrow> p11_error option" where
  "native_Close r =
     (case r of
        None \<Rightarrow> None
      | Some e \<Rightarrow> if p11_code e = Some 0xb3 \<or> p11_code e = Some 0xb0 then None else Some e)"

definition native_Sign :: "p11_error option \<Rightarrow> bytes p11_result \<Rightarrow> bytes p11_result" where
  "native_Sign initErr r = (case initErr of Some e \<Rightarrow> Inl e | None \<Rightarrow> r)"

subsection \<open>The module's answers\<close>

text \<open>The attributes are those of one object, read with the template for private or for public keys.\<close>

record token_raw =
  trSlots :: "(nat \<times> string p11_result) list p11_result"
  trMechanisms :: "(nat \<times> bytes) list p11_result"
  trOpen :: "nat p11_result"
  trLogin :: login_env
  trFind :: "bool \<Rightarrow> find_env"
  trAttributes :: "nat \<Rightarrow> bool \<Rightarrow> (attribute_type \<times> bytes) list p11_result"

text \<open>After its listed answers a search finds no more objects, so it ends.\<close>

definition token_find :: "find_env \<Rightarrow> PKCS11Config \<Rightarrow> nat list p11_result" where
  "token_find env cfg = (case native_Find (env\<lparr>fdAnswers := fdAnswers env @ [Inr []]\<rparr>) cfg of Some r \<Rightarrow> r | None \<Rightarrow> Inr [])"

definition native_answers ::
  "(attribute_value \<Rightarrow> bytes) \<Rightarrow> pin_failures \<Rightarrow> bytes result \<Rightarrow> PKCS11Config \<Rightarrow> token_raw \<Rightarrow> open_answers" where
  "native_answers enc pf pin cfg raw =
     \<lparr>oaTokens = (case trSlots raw of Inl e \<Rightarrow> Inl e | Inr slots \<Rightarrow> native_Tokens slots),
      oaMechanisms = native_Mechanisms (trMechanisms raw), oaPin = pin, oaOpen = native_Open (trOpen raw),
      oaLogin = snd (snd (native_Login (trLogin raw) pf)), oaFind = (\<lambda>p. token_find (trFind raw p) cfg),
      oaKey = (\<lambda>obj p. native_Key enc p (trAttributes raw obj p))\<rparr>"

lemma find_loop_ends: "find_loop objects (answers @ [Inr []]) \<noteq> None"
proof (induction answers arbitrary: objects)
  case Nil
  show ?case by (subst find_loop.simps) simp
next
  case (Cons x xs)
  show ?case by (subst find_loop.simps) (use Cons in \<open>auto split: sum.splits\<close>)
qed

lemma token_find_is_Find: "native_Find (env\<lparr>fdAnswers := fdAnswers env @ [Inr []]\<rparr>) cfg = Some (token_find env cfg)"
  using find_loop_ends [of "[]" "fdAnswers env"] by (auto simp: token_find_def native_Find_def split: option.splits)

text \<open>The process remembers only refused PINs.\<close>

definition latched :: "pin_failures \<Rightarrow> bool" where
  "latched pf \<longleftrightarrow> (\<forall>tok e. pf tok = Some e \<longrightarrow> pkcs11Code e [0xa0, 0xa4])"

lemma native_Login_latched: "latched pf \<Longrightarrow> latched (fst (native_Login env pf))"
  by (auto simp: native_Login_def latched_def pkcs11Code_def Let_def split: sum.splits option.splits if_splits)

lemma native_Login_passes:
  assumes "latched pf" "snd (snd (native_Login env pf)) = r" "r = None \<or> (\<exists>e. r = Some e \<and> pkcs11Code e [0x100])"
    "lgSession env = Inr sh" "lgToken env = Inr tok"
  shows "pf tok = None"
proof (rule ccontr)
  assume "pf tok \<noteq> None"
  then obtain e where e: "pf tok = Some e" "pkcs11Code e [0xa0, 0xa4]" using assms(1) by (auto simp: latched_def)
  with assms(2-5) show False by (auto simp: native_Login_def pkcs11Code_def split: if_splits option.splits)
qed

subsection \<open>What a successful construction found\<close>

lemma find_key_ok:
  "find_key a p b = (b', Inr (obj, key)) \<Longrightarrow> oaFind a p = Inr [obj] \<and> oaKey a obj p = Inr key \<and> check_key p key = None"
  by (auto simp: find_key_def Let_def length_Suc_conv split: sum.splits if_splits option.splits)

lemma p11_keys_ok:
  assumes "p11_keys a b = (b', Inr (obj, pub))"
  shows "oaFind a True = Inr [obj] \<and> length pub = 32 \<and> (\<exists>key. oaKey a obj True = Inr key \<and> check_key True key = None) \<and>
    (\<exists>pobj pkey. oaFind a False = Inr [pobj] \<and> oaKey a pobj False = Inr pkey \<and> check_key False pkey = None \<and> pub = raw_point (pkPoint pkey))"
  using assms by (auto simp: p11_keys_def Let_def dest!: find_key_ok split: prod.splits sum.splits if_splits)

lemma newPKCS11_ok:
  assumes "newPKCS11 pe a ce re cfg = (b, Inr path)"
  obtains slot label mechanisms obj pub b0 b1 where "ValidatePKCS11Config cfg = None"
    "\<exists>tokens. oaTokens a = Inr tokens \<and> filter (selects cfg) tokens = [(slot, label)]"
    "oaMechanisms a = Inr mechanisms" "pkcs11EdDSA \<in> set mechanisms"
    "oaLogin a = None \<or> (\<exists>e. oaLogin a = Some e \<and> pkcs11Code e [0x100])"
    "p11_keys a b0 = (b1, Inr (obj, pub))" "pPub b = Some pub" "pPrivate b = obj"
proof -
  let ?b = "\<lparr>pCfg = cfg, pSession = 0, pSessionOpen = False, pPrivate = 0, pPub = None, pPinFailure = None, pClosed = False, pCalls = []\<rparr>"
  from assms have v: "ValidatePKCS11Config cfg = None" and r: "reopen a ?b = (b, None)"
    by (auto simp: newPKCS11_def Let_def split: option.splits sum.splits prod.splits)
  have cfg: "pCfg (dropSession ?b) = cfg" by (simp add: dropSession_def)
  from r obtain tokens slot label mechanisms b2 where t: "oaTokens a = Inr tokens" "filter (selects cfg) tokens = [(slot, label)]"
      "oaMechanisms a = Inr mechanisms" "pkcs11EdDSA \<in> set mechanisms" "login_and_keys a b2 = (b, None)"
    by (auto simp: reopen_def Let_def cfg split: sum.splits list.splits if_splits)
  from t(5) obtain b0 b1 obj pub where k: "oaLogin a = None \<or> (\<exists>e. oaLogin a = Some e \<and> pkcs11Code e [0x100])"
      "p11_keys a b0 = (b1, Inr (obj, pub))" "b = b1\<lparr>pPrivate := obj, pPub := Some pub\<rparr>"
    by (auto simp: login_and_keys_def Let_def split: option.splits if_splits prod.splits sum.splits)
  from that [OF v _ t(3,4) k(1,2)] t(1,2) k(3) show thesis by auto
qed

text \<open>
  C23: a token key that the backend signs with never leaves its token. When a PKCS\#11 backend is
  constructed on the native module, exactly one token matched the selector and supports EdDSA, exactly
  one private and one public object matched the key, the token itself reported for the private object
  the backend signs with that it is sensitive and not extractable, a signing key of the Edwards type, the pinned public key
  has 32 bytes, and the process had never been refused a PIN by that token.
\<close>
theorem token_key_never_leaves:
  assumes "pbOpen env = native_answers enc pf pin cfg raw" "latched pf" "NewPKCS11 env cfg rg = (rg', Inr (path, b))"
  shows "(\<exists>slots tokens slot label. trSlots raw = Inr slots \<and> native_Tokens slots = Inr tokens \<and> filter (selects cfg) tokens = [(slot, label)]) \<and>
    (\<exists>ms. trMechanisms raw = Inr ms \<and> pkcs11EdDSA \<in> fst ` set ms) \<and>
    (\<exists>pobj. token_find (trFind raw True) cfg = Inr [pPrivate b] \<and> token_find (trFind raw False) cfg = Inr [pobj]) \<and>
    (\<exists>ats. trAttributes raw (pPrivate b) True = Inr ats \<and> (CKA_SENSITIVE, enc (VBool True)) \<in> set ats \<and> (CKA_EXTRACTABLE, enc (VBool False)) \<in> set ats \<and>
       (CKA_SIGN, enc (VBool True)) \<in> set ats \<and> (CKA_KEY_TYPE, enc (VNum pkcs11Edwards)) \<in> set ats) \<and>
    (\<exists>pub. pPub b = Some pub \<and> length pub = 32) \<and>
    (\<forall>sh tok. lgSession (trLogin raw) = Inr sh \<and> lgToken (trLogin raw) = Inr tok \<longrightarrow> pf tok = None)"
proof -
  let ?a = "native_answers enc pf pin cfg raw"
  from assms(1,3) obtain pe ce re where n: "newPKCS11 pe ?a ce re cfg = (b, Inr path)"
    by (auto simp: NewPKCS11_def Let_def split: option.splits sum.splits prod.splits)
  from n show ?thesis
  proof (cases rule: newPKCS11_ok)
    case (1 slot label mechanisms obj pub b0 b1)
    note keys = p11_keys_ok [OF 1(6)]
    from keys obtain key where key: "native_Key enc True (trAttributes raw (pPrivate b) True) = Inr key" "check_key True key = None"
      using 1(8) by (auto simp: native_answers_def)
    then obtain ats where ats: "trAttributes raw (pPrivate b) True = Inr ats" by (auto simp: native_Key_def split: sum.splits)
    note attrs = checked_private_key [OF key(1) [unfolded ats] key(2)]
    have "\<exists>slots tokens slot label. trSlots raw = Inr slots \<and> native_Tokens slots = Inr tokens \<and> filter (selects cfg) tokens = [(slot, label)]"
      using 1(2) by (auto simp: native_answers_def split: sum.splits)
    moreover have "\<exists>ms. trMechanisms raw = Inr ms \<and> pkcs11EdDSA \<in> fst ` set ms"
      using 1(3,4) by (auto simp: native_answers_def native_Mechanisms_def split: sum.splits)
    moreover have "\<exists>pobj. token_find (trFind raw True) cfg = Inr [pPrivate b] \<and> token_find (trFind raw False) cfg = Inr [pobj]"
      using keys 1(8) by (auto simp: native_answers_def)
    moreover have "pf tok = None" if "lgSession (trLogin raw) = Inr sh" "lgToken (trLogin raw) = Inr tok" for sh tok
      using native_Login_passes [OF assms(2) refl _ that] 1(5) by (simp add: native_answers_def)
    ultimately show ?thesis using ats attrs keys 1(7) by blast
  qed
qed

definition ex_raw :: token_raw where
  "ex_raw = \<lparr>trSlots = Inr [(3, Inl (P11Error (Some 0xe0) (errors_New []))), (7, Inr ''hsm'')], trMechanisms = Inr [(0x1057, [])], trOpen = Inr 5,
     trLogin = ex_login\<lparr>lgLogin := None\<rparr>, trFind = (\<lambda>p. \<lparr>fdInit = None, fdAnswers = [Inr [if p then 11 else 12]], fdFinal = None\<rparr>),
     trAttributes = (\<lambda>obj p. if obj \<noteq> (if p then 11 else 12) then Inl (P11Error (Some 0x82) (errors_New [])) else Inr (if p then ex_attributes
       else [(CKA_CLASS, ex_enc (VNum 2)), (CKA_KEY_TYPE, ex_enc (VNum 0x40)), (CKA_EC_PARAMS, map char_of [6, 3, 43, 101, 112 :: nat]),
         (CKA_EC_POINT, replicate 32 (CHR ''k''))]))\<rparr>"

definition ex_build :: p11_build where
  "ex_build = \<lparr>pbAcquire = ex_acquire, pbPaths = ex_paths, pbOpen = native_answers ex_enc Map.empty (Inr ''1234'') ex_p11_config ex_raw,
     pbClose = None, pbFinalize = None\<rparr>"

lemma ex_raw_answers:
  "oaTokens (pbOpen ex_build) = Inr [(7, ''hsm'')]" "oaMechanisms (pbOpen ex_build) = Inr [0x1057]" "oaPin (pbOpen ex_build) = Inr ''1234''"
  "oaOpen (pbOpen ex_build) = Inr 5" "oaLogin (pbOpen ex_build) = None"
  using ex_login_serial
  by (simp_all add: ex_build_def native_answers_def ex_raw_def native_Mechanisms_def native_Open_def native_Login_def ex_login_def CKR_TOKEN_NOT_PRESENT_def)

lemma ex_raw_find: "oaFind (pbOpen ex_build) p = Inr [if p then 11 else 12]"
proof -
  have "find_loop [] [Inr [x], Inr []] = Some (Inr [x])" for x
    by (subst find_loop.simps, simp, subst find_loop.simps, simp)
  then show ?thesis
    by (simp add: ex_build_def native_answers_def ex_raw_def token_find_def native_Find_def ex_p11_config_def join_p11_def)
qed

lemma ex_raw_key: "\<exists>key. oaKey (pbOpen ex_build) (if p then 11 else 12) p = Inr key \<and> check_key p key = None \<and> (\<not> p \<longrightarrow> pkPoint key = replicate 32 (CHR ''k''))"
  by (cases p) (simp_all add: ex_build_def native_answers_def ex_raw_def native_Key_def ex_attributes_def read_attribute_def zero_key_def check_key_def
      check_def pkcs11Edwards_def ed25519_params_def Let_def)

lemma ex_raw_keys: "\<exists>b'. p11_keys (pbOpen ex_build) b = (b', Inr (11, replicate 32 (CHR ''k''))) \<and> pPub b' = pPub b"
proof -
  have f: "\<exists>b' key. find_key (pbOpen ex_build) p b = (b', Inr (if p then 11 else 12, key)) \<and> pPub b' = pPub b \<and>
      (\<not> p \<longrightarrow> pkPoint key = replicate 32 (CHR ''k''))" for p b
    using ex_raw_key [of p] by (auto simp: find_key_def ex_raw_find log_calls_def Let_def split: if_splits)
  obtain b1 k1 where 1: "find_key (pbOpen ex_build) True b = (b1, Inr (11, k1))" "pPub b1 = pPub b" using f [of True b] by auto
  obtain b2 k2 where 2: "find_key (pbOpen ex_build) False b1 = (b2, Inr (12, k2))" "pPub b2 = pPub b1" "pkPoint k2 = replicate 32 (CHR ''k'')"
    using f [of False b1] by auto
  from 1 2 show ?thesis by (simp add: p11_keys_def raw_point_def)
qed

lemma ex_raw_new: "\<exists>rg' b. NewPKCS11 ex_build ex_p11_config no_modules = (rg', Inr (''/b'', b))"
proof -
  let ?b = "\<lparr>pCfg = ex_p11_config, pSession = 0, pSessionOpen = False, pPrivate = 0, pPub = None, pPinFailure = None, pClosed = False, pCalls = []\<rparr>"
  have "\<exists>b. login_and_keys (pbOpen ex_build) b0 = (b, None)" if "pPub b0 = None" for b0
  proof -
    have "pPub (log_calls [CallLogin (pSession b0) False] b0) = None" using that by (simp add: log_calls_def)
    with ex_raw_keys [of "log_calls [CallLogin (pSession b0) False] b0"] show ?thesis
      by (auto simp: login_and_keys_def ex_raw_answers)
  qed
  then have "\<exists>b. reopen (pbOpen ex_build) ?b = (b, None)"
    by (simp add: reopen_def ex_raw_answers dropSession_def log_calls_def selects_def ex_p11_config_def TrimRight_def pkcs11EdDSA_def)
  then obtain b where r: "reopen (pbOpen ex_build) ?b = (b, None)" by blast
  have v: "ValidatePKCS11Config ex_p11_config = None" by (simp add: ValidatePKCS11Config_def ex_p11_config_def)
  have p: "resolveBindingPath ex_paths (pcBindingFile ex_p11_config) = Inr ''/b''"
    by (simp add: resolveBindingPath_def ex_paths_def ex_p11_config_def clean_dir_def path_dir_def path_base_def path_join_def Let_def)
  have n: "newPKCS11 ex_paths (pbOpen ex_build) None re ex_p11_config = (b, Inr ''/b'')" for re
    using r v p by (simp add: newPKCS11_def)
  obtain rg1 cs where q: "acquirePKCS11Module ex_acquire no_modules = (rg1, cs, Inr ''/lib'')"
    by (simp add: acquirePKCS11Module_def ex_acquire_def no_modules_def Let_def)
  obtain rg2 cs2 re where l: "releasePKCS11Module ''/lib'' None rg1 = (rg2, cs2, re)" by (metis prod_cases3)
  have "pbAcquire ex_build = ex_acquire" "pbFinalize ex_build = None" "pbPaths ex_build = ex_paths" "pbClose ex_build = None"
    by (simp_all add: ex_build_def)
  then show ?thesis using v n q l by (simp add: NewPKCS11_def)
qed

theorem token_key_never_leaves_witness:
  "\<exists>rg' path b ats. NewPKCS11 ex_build ex_p11_config no_modules = (rg', Inr (path, b)) \<and> trAttributes ex_raw (pPrivate b) True = Inr ats \<and>
     (CKA_EXTRACTABLE, ex_enc (VBool False)) \<in> set ats"
proof -
  obtain rg' b where n: "NewPKCS11 ex_build ex_p11_config no_modules = (rg', Inr (''/b'', b))" using ex_raw_new by blast
  have "pbOpen ex_build = native_answers ex_enc Map.empty (Inr ''1234'') ex_p11_config ex_raw" "latched Map.empty"
    by (simp_all add: ex_build_def latched_def)
  from token_key_never_leaves [OF this n] n show ?thesis by blast
qed

end
