(* ===== verification/Spec2Isabelle.thy ===== *)
theory Spec2Isabelle
  imports SignSafety Nodes ConnKey Pkcs11Native Lifecycle Health CommandTree Pkcs11Stack
begin

text \<open>
  \<^bold>\<open>Cosmosigner: a remote signer that never signs twice.\<close>

  Cosmosigner holds a validator's consensus key and signs votes and proposals for CometBFT nodes. It
  runs as several replicas. What may be signed is decided by a \<^emph>\<open>high-water mark\<close> per chain, the last
  height, round and step with the bytes that were signed there, replicated by raft; only the raft
  leader dials nodes; a key belongs to one raft history, recorded as a \<^emph>\<open>claim\<close> beside the key.

  \<^bold>\<open>The program and its model\<close>, in the order of dependency. File names are relative to \<^verbatim>\<open>src/internal\<close>
  unless they start with \<^verbatim>\<open>cmd\<close>.

  \<^item> \<open>Prelude\<close>: results (\<open>Inl\<close> an error, \<open>Inr\<close> a value), Go errors with wrapping, \<^verbatim>\<open>errors.Is\<close> and
    \<^verbatim>\<open>errors.Join\<close>, lists and association lists.
  \<^item> \<open>ClusterId\<close> (\<^verbatim>\<open>clusterid/id.go\<close>): UUIDs, generated from random bytes and validated.
  \<^item> \<open>Base64\<close>, \<open>Rfc3339\<close>, \<open>JsonText\<close>, \<open>Json\<close>, \<open>GoStrings\<close>: the parts of Go's standard library the
    replicated formats rest on, with their round trips.
  \<^item> \<open>Store\<close>, \<open>Fsm\<close> (\<^verbatim>\<open>state/store.go\<close>, \<^verbatim>\<open>state/fsm.go\<close>): the marks and the replicated state machine. A
    log entry is bytes; \<open>Apply\<close> decodes and dispatches it to \<open>applyReserve\<close>, \<open>applyCommit\<close> and
    \<open>applyInitCluster\<close>. Heights are 64-bit words, rounds 32-bit, steps 8-bit.
  \<^item> \<open>Snapshot\<close> (\<^verbatim>\<open>state/snapshot.go\<close>): snapshot, restore and persist, over bytes.
  \<^item> \<open>RaftStore\<close>, \<open>RaftNode\<close> (\<^verbatim>\<open>state/raftstore.go\<close>, \<^verbatim>\<open>state/transport.go\<close>): the store on top of the log
    (reserve, commit, get), its construction and clean-up, the cluster identity, membership,
    leadership hand-over and close.
  \<^item> \<open>Signer\<close> (\<^verbatim>\<open>signer/privval.go\<close>): the gated \<^verbatim>\<open>PrivValidator\<close>; \<open>SignSystem\<close>, \<open>SignSafety\<close>: its calls
    interleaved step by step, with lost replies, late commits and crashes. A backend wrapped by
    \<open>recording\<close> keeps the calls it received, which ties the bytes a \<^verbatim>\<open>gatedSign\<close> call hands out to the
    payloads of the step system.
  \<^item> \<open>Backend\<close> (\<^verbatim>\<open>backend/backend.go\<close>): the claim contract as the locale \<open>claim_registry\<close>.
    \<open>FileBinding\<close> (\<^verbatim>\<open>backend/binding_file.go\<close>, the key lock), \<open>Software\<close> (\<^verbatim>\<open>backend/software*.go\<close>,
    \<^verbatim>\<open>keyfile.go\<close>), \<open>Pkcs11\<close> and \<open>Pkcs11Native\<close> (\<^verbatim>\<open>backend/pkcs11*.go\<close>): the marker file over a file
    system with faults and other processes, key files, the token session state machine, and the
    module registry.
  \<^item> \<open>Vault\<close> and \<open>VaultImport\<close> (\<^verbatim>\<open>backend/vault*.go\<close>), \<open>GcpKms\<close> and \<open>GcpImport\<close> (\<^verbatim>\<open>backend/gcpkms*.go\<close>), \<open>AwsKms\<close> and
    \<open>AwsImport\<close> (\<^verbatim>\<open>backend/awskms*.go\<close>): the remote backends. Construction and key pinning, signing with
    its checks, the preflight, the claim as a KV record, a label or a tag, the token renewal loop,
    provisioning and import. \<open>CryptoLib\<close> collects what they use of Go's cryptography.
  \<^item> \<open>KeyBackend\<close> (\<^verbatim>\<open>backend/backend.go\<close>): the interface value as a datatype over the five backends, the
    factory \<^verbatim>\<open>New\<close> and the dispatch of its methods; \<open>Pkcs11Stack\<close> puts the PKCS\#11 backend on the native module; \<open>Commands\<close> (\<^verbatim>\<open>cmd/.../claimkey.go\<close>, \<^verbatim>\<open>pubkey.go\<close>,
    \<^verbatim>\<open>provision.go\<close>, \<^verbatim>\<open>import.go\<close>): the one-shot commands.
  \<^item> \<open>Nodes\<close>, \<open>Lifecycle\<close>, \<open>ConnKey\<close> (\<^verbatim>\<open>server/\<close>): node discovery, connectors, the reconcile loop, the
    connection identity. \<open>Health\<close> (\<^verbatim>\<open>health/health.go\<close>): the HTTP handlers.
  \<^item> \<open>Config\<close> (\<^verbatim>\<open>config/\<close>, \<^verbatim>\<open>cmd/cosmosigner/cmd/backendflags.go\<close>), \<open>Start\<close> (\<^verbatim>\<open>cmd/.../start.go\<close>):
    configuration defaults, layering and validation, and the start command that puts the parts
    together. \<open>CommandTree\<close> (\<^verbatim>\<open>cmd/cosmosigner/root.go\<close>, \<^verbatim>\<open>version.go\<close>, \<^verbatim>\<open>version/\<close>): the process around the
    commands and its exit status.

  \<^bold>\<open>How the model reads.\<close> A struct is a record with its fields, an error return is \<open>Inl\<close> or \<open>Some e\<close>, a
  method that mutates its receiver returns the new receiver. Code outside the repository (the raft
  library, CometBFT, the file system's and the token's answers, the DNS, the clock, random bytes) is
  an argument of the definitions: usually a record of what it answered, in which every error is
  possible. Files are a map from paths to contents; while a key is claimed or provisioned, other
  processes act between the system calls, by arguments of the definitions. The
  connection lifecycle carries a schedule (\<open>lcSched\<close>) of the steps of the dialling and serving goroutines:
  \<open>preempt\<close> runs a part of it between the statements of a retirement, between the start of a server and its
  entry into the serving set, and along a reconcile pass and the shutdown. The start command's
  \<^verbatim>\<open>context.AfterFunc\<close> likewise runs at a position of the shutdown that is an argument. Logs of calls are
  kept where a property is about their order.

  \<^bold>\<open>What is shown.\<close>

  \<^item> \<^emph>\<open>Signing\<close> (\<open>SignSafety\<close>, \<open>Fsm\<close>, \<open>Snapshot\<close>): the backend is handed at most one payload and nodes get
    at most one signature per chain, height, round and step, whatever is interleaved, lost or
    repeated; the exact grant condition; marks never move back; snapshots round-trip; every state a
    replica reaches through entries and snapshots is well formed; a whole \<^verbatim>\<open>gatedSign\<close> call is a run
    of the step system with the same store, result, signed payloads and answers, and the outcomes of such
    calls are exactly those of a thread's own steps. Chain ids are ASCII in the properties that rest on the
    JSON form of log entries and snapshots.
  \<^item> \<^emph>\<open>Identity and claims\<close> (\<open>Fsm\<close>, \<open>RaftNode\<close>, \<open>FileBinding\<close>, \<open>Software\<close>, \<open>Start\<close>): the cluster identity is
    written once, a claim has one owner for ever, and two signers that start on one key belong to
    the same raft history.
  \<^item> \<^emph>\<open>Serving\<close> (\<open>Lifecycle\<close>, \<open>Health\<close>): only the leader serves, retired connections are closed and
    refuse, connections are retired before the hand-over, the status document tells the truth. A
    start process (\<open>Start\<close>, \<open>CommandTree\<close>) exits with status 0 only when it served, or waited for its end
    after a refused token PIN.
  \<^item> \<^emph>\<open>Tokens and files\<close>: a wrong PIN is tried once, signatures verify, keys are not exportable, key
    files are replaced atomically and not over a marker beside them (a relocated marker is not seen by
    the code, and the property says so); where the key lock is not implemented, software keys are refused.
  \<^item> \<^emph>\<open>Remote keys\<close> (\<open>Vault\<close>, \<open>GcpKms\<close>, \<open>AwsKms\<close>): the signing key version is pinned when the backend is
    built, every returned signature belongs to it, and token renewal never adopts a token that
    cannot sign.
  \<^item> \<^emph>\<open>Imports and commands\<close> (\<open>VaultImport\<close>, \<open>GcpImport\<close>, \<open>AwsImport\<close>, \<open>Commands\<close>): an import never replaces
    another identity and is reported as verified only when the provider shows the file's public
    key; claim-key never moves a claim; provisioning only creates.
  \<^item> \<^emph>\<open>Across components\<close> (this theory): one key has one signing history, whichever of the five backends
    holds it; the key \<^verbatim>\<open>pubkey\<close> prints is exactly the key \<^verbatim>\<open>start\<close> can be told to expect.

  \<^bold>\<open>Loops and fuel.\<close> Loops over answers of the environment take the list of those answers and return
  \<open>None\<close> when the list ends first; the liveness and termination properties state which answers end
  them. All other loops are structural.

  \<^bold>\<open>Interfaces.\<close> \<open>sign_gate\<close> (\<open>RaftStore\<close>) is what the signer relies on in its store, interpreted on the
  raft store as \<open>raft_gate\<close>; the signing safety theorems rest on it. \<open>claim_registry\<close> (\<open>Backend\<close>) is what a
  claim store promises: a read shows the owner, a claim never moves it. It is interpreted on the
  marker file (\<open>file_registry\<close>), the Vault record (\<open>vault_registry\<close>), the Cloud KMS label
  (\<open>gcp_registry\<close>), the AWS tag (\<open>aws_registry\<close>), and, from these, on the dispatch over all backends
  (\<open>backend_registry\<close>). The facts on histories of claims and on startups are proved once inside it.

  \<^bold>\<open>Hypotheses on other systems.\<close> Vault honours check-and-set 0 and shows what it stores (\<open>kv_fair\<close>); the
  KMS services show the labels and tags they hold, and operators run one claim at a time, as the
  commands' own warnings demand (\<open>gcp_fair\<close>, \<open>aws_fair\<close>); no process rewrites a published marker
  (\<open>fair_env\<close>); PKCS\#8 encoding and decoding agree (\<open>keys_agree\<close>). Each is shown satisfiable by the
  witness of a property that uses it, or by the interpretation's examples.

  \<^bold>\<open>Not modelled.\<close> Logging, the registration of command-line flags with their help texts, the
  methods that only return a field (\<^verbatim>\<open>PubKey\<close> of a backend, \<^verbatim>\<open>Addr\<close>, \<^verbatim>\<open>Describe\<close>), the interface declarations
  and the two waits on a timer (\<^verbatim>\<open>sleepOrStop\<close>, \<^verbatim>\<open>waitAWSConsistency\<close>, whose outcomes are arguments of the
  loops that call them) have no logic of their own. Error texts are abridged:
  an error keeps the sentinels it wraps, which is what the code tests. Sockets, TLS, the raft
  library's protocol and the providers' servers are outside the repository.
\<close>

section \<open>Properties that span components\<close>

text \<open>
  C4: one key, one signing history. When a signer comes up for cluster a on a key of any of the five
  backends, then after any sequence of claims that follows, by any clusters and with whatever outcome, every later
  signer on that resource, whether or not it may claim itself, comes up only for cluster a, as long
  as its backend still finds there what the resource carries.
\<close>
theorem one_history_per_key:
  assumes "prepareStartupWithClaim (registry_startup (backend_ClusterBinding kl b) (claim_world kl sha b) e1 e2 f mc sep oe env) False w = (cs, Some (w1, Inr a))"
    "backend_truthful b e1" "backend_truthful b e2"
    "\<forall>(g, i)\<in>set gs. backend_fair kl b g" "claim_registry.claims (claim_world kl sha b) gs w1 = (w2, outcomes)"
    "\<forall>cid. backend_owner kl b w2 = Some cid \<longrightarrow> backend_owner kl b' w2 = Some cid"
    "prepareStartupWithClaim (registry_startup (backend_ClusterBinding kl b') (claim_world kl sha b') e1' e2' f' mc' sep' oe' env') False w2 = (cs', Some (w3, Inr a'))"
    "backend_fair kl b' f'" "backend_truthful b' e1'" "backend_truthful b' e2'"
  shows "a' = a \<and> (\<forall>i. (i, None) \<in> set outcomes \<longrightarrow> i = a)"
proof -
  note first = backend_registry.startup_owns [OF assms(2,3,1)]
  have w2: "backend_owner kl b w2 = Some a"
    using backend_registry.claims_keep_owner [OF first assms(4), of sha] assms(5) by simp
  then have "backend_owner kl b' w2 = Some a" using assms(6) by blast
  then have "a' = a" using backend_registry.startups_agree [OF assms(8-10) _ assms(7)] by blast
  moreover have "i = a" if "(i, None) \<in> set outcomes" for i
    using backend_registry.claims_winner [OF assms(4), of i sha w1] that assms(5) w2 by simp
  ultimately show ?thesis by blast
qed

definition ex_binding_reads :: binding_env where
  "ex_binding_reads = \<lparr>biFile = quiet_read, biVault = kv_answer, biGCP = (\<lambda>_. Inr None), biAWS = (\<lambda>_. [])\<rparr>"

definition ex_vault_startup :: "world startup_env" where
  "ex_vault_startup = registry_startup (backend_ClusterBinding ex_lib (VaultBackend ex_vault)) (claim_world ex_lib (\<lambda>b. b) (VaultBackend ex_vault))
     ex_binding_reads ex_binding_reads ex_claiming True False None
     \<lparr>suEnsure = Inr ex_uuid, suRead = (\<lambda>_. Inl (errors_New [])), suClaim = None, suReread = (\<lambda>_. Inl (errors_New [])),
      suPreflight = Some None, suCtx = None, suRenewal = None\<rparr>"

text \<open>A first start that claims an unclaimed Vault key, and a second one that finds the claim.\<close>

lemma ex_vault_starts:
  "\<exists>m cs cs'. prepareStartupWithClaim ex_vault_startup False ex_world = (cs, Some (ex_world\<lparr>wRecord := Some m\<rparr>, Inr ex_uuid)) \<and>
     prepareStartupWithClaim ex_vault_startup False (ex_world\<lparr>wRecord := Some m\<rparr>) = (cs', Some (ex_world\<lparr>wRecord := Some m\<rparr>, Inr ex_uuid))"
proof -
  obtain m where m: "Vault_ClaimCluster (\<lambda>b. b) ex_vault honest_kv ex_uuid None = (Some m, None)" "Vault_ClusterBinding ex_vault (kv_answer (Some m)) = Inr ex_uuid"
    using honest_claim [OF ex_uuid_valid] by blast
  have "Vault_ClusterBinding ex_vault (kv_answer None) = Inl (unclaimed ''record'')"
    by (simp add: Vault_ClusterBinding_def read_record_def kv_answer_def Let_def)
  with m show ?thesis
    by (intro exI [of _ m])
      (simp add: prepareStartupWithClaim_def ex_vault_startup_def registry_startup_def RequireClusterBinding_def ex_uuid_valid claimWithConfig_def
        finish_startup_def backend_ClusterBinding_def claim_world_def backend_ClaimCluster_def ex_binding_reads_def ex_world_def ex_claiming_def unclaimed_def)
qed

theorem one_history_per_key_witness:
  "\<exists>m cs. prepareStartupWithClaim ex_vault_startup False ex_world = (cs, Some (ex_world\<lparr>wRecord := Some m\<rparr>, Inr ex_uuid)) \<and>
     (\<forall>cs' w3 a'. prepareStartupWithClaim ex_vault_startup False (ex_world\<lparr>wRecord := Some m\<rparr>) = (cs', Some (w3, Inr a')) \<longrightarrow> a' = ex_uuid)"
proof -
  obtain m cs where s: "prepareStartupWithClaim ex_vault_startup False ex_world = (cs, Some (ex_world\<lparr>wRecord := Some m\<rparr>, Inr ex_uuid))"
    using ex_vault_starts by blast
  have t: "backend_truthful (VaultBackend ex_vault) ex_binding_reads" "backend_fair ex_lib (VaultBackend ex_vault) ex_claiming"
    by (simp_all add: backend_truthful_def backend_fair_def ex_binding_reads_def ex_claiming_def)
  have n: "claim_registry.claims (claim_world ex_lib (\<lambda>b. b) (VaultBackend ex_vault)) [] w = (w, [])" for w
    by (simp add: backend_registry.claims.simps)
  have "a' = ex_uuid" if "prepareStartupWithClaim ex_vault_startup False (ex_world\<lparr>wRecord := Some m\<rparr>) = (cs', Some (w3, Inr a'))" for cs' w3 a'
    using one_history_per_key [OF s [unfolded ex_vault_startup_def] t(1) t(1) _ n _ that [unfolded ex_vault_startup_def] t(2) t(1) t(1)] by simp
  with s show ?thesis by blast
qed

text \<open>
  What \<^verbatim>\<open>pubkey\<close> prints is what \<^verbatim>\<open>start\<close> expects. A successful \<^verbatim>\<open>pubkey\<close> ends with one identity line, and its
  base64 operand, configured as the expected public key, is accepted by a start whose backend reports
  a key exactly when that key is the one the printing backend reported.
\<close>
theorem printed_key_is_expected_key:
  assumes "pubkey env fs = (out, None)"
  shows "\<exists>cfg b pub shown. load_backend env = Inr cfg \<and> open_backend env fs cfg = Inr b \<and> backend_PubKey (neKeys (cmNew env)) b = Inr pub \<and>
    last out = Out ''address, pubkey (base64)'' [cmAddress env pub, shown] \<and>
    (\<forall>other. pub \<noteq> [] \<longrightarrow> (verifyExpectedPublicKey (Inr other) shown = None \<longleftrightarrow> other = pub)) \<and>
    (\<forall>e. pub \<noteq> [] \<longrightarrow> verifyExpectedPublicKey (Inl e) shown \<noteq> None)"
proof -
  from assms obtain cfg b pub where p: "load_backend env = Inr cfg" "open_backend env fs cfg = Inr b" "backend_PubKey (neKeys (cmNew env)) b = Inr pub"
      "last out = printPubKeyTo (cmAddress env pub) pub"
    by (auto simp: pubkey_def split: sum.splits)
  have "b64_encode pub \<noteq> []" if "pub \<noteq> []" using that by (cases pub rule: b64_encode.cases) (auto simp: Let_def)
  with p show ?thesis
    by (intro exI [of _ cfg] exI [of _ b] exI [of _ pub] exI [of _ "b64_encode pub"]) (auto simp: printPubKeyTo_def verifyExpectedPublicKey_def)
qed

theorem printed_key_is_expected_key_witness:
  "\<exists>out shown. pubkey ex_software_command [''/k'' \<mapsto> ex_priv] = (out, None) \<and>
     verifyExpectedPublicKey (Inr (drop 32 ex_priv)) shown = None \<and> verifyExpectedPublicKey (Inr (take 31 ex_priv)) shown \<noteq> None"
proof -
  let ?fs = "[''/k'' \<mapsto> ex_priv]"
  have k: "neKeys (cmNew ex_software_command) = ex_lib" by (simp add: ex_software_command_def)
  have pk: "backend_PubKey ex_lib (SoftwareBackend ex_software) = Inr (drop 32 ex_priv)" "drop 32 ex_priv \<noteq> []" "take 31 ex_priv \<noteq> drop 32 ex_priv"
    by (simp_all add: backend_PubKey_def pub_bytes_def ex_lib_def ex_software_def ex_priv_def)
  obtain out where o: "pubkey ex_software_command ?fs = (out, None)"
    by (simp add: pubkey_def ex_software_opened k pk)
  from printed_key_is_expected_key [OF o] obtain shown where
    "\<forall>x. drop 32 ex_priv \<noteq> [] \<longrightarrow> (verifyExpectedPublicKey (Inr x) shown = None \<longleftrightarrow> x = drop 32 ex_priv)"
    by (auto simp: ex_software_opened k pk)
  with o pk show ?thesis by blast
qed

end
